(* ===== verification/Prelude.thy ===== *)
theory Prelude
  imports Complex_Main "HOL-Library.State_Monad" "HOL-Library.Multiset" "HOL-Library.Word"
begin

text \<open>
  What every component shares: the state monad the Go functions are written in, the rules that
  carry a relation between states through a monadic program, Go's errors as values, and the
  list facts about rows of a table. Nothing here models a file of the repository by itself.
\<close>

named_theorems go_consts "string constants of the Go packages, unfolded"
named_theorems run_eqs "what each database operation returns and writes"
named_theorems step_rules "operations that keep a relation between states"

section \<open>Monadic programs\<close>

abbreviation ret :: "'a \<Rightarrow> ('s, 'a) state" where
  "ret \<equiv> State_Monad.return"

abbreviation modify :: "('s \<Rightarrow> 's) \<Rightarrow> ('s, unit) state" where
  "modify \<equiv> State_Monad.update"

lemma run_state_update [simp]: "run_state (State_Monad.update f) s = ((), f s)"
  by (simp add: State_Monad.update_def)

text \<open>A \<open>for\<close> loop over a slice whose body only has effects.\<close>

primrec for_each :: "('a \<Rightarrow> ('s, unit) state) \<Rightarrow> 'a list \<Rightarrow> ('s, unit) state" where
  "for_each f [] = ret ()"
| "for_each f (x # xs) = do { f x; for_each f xs }"

text \<open>
  \<open>state_io_rel R m\<close> of the library: the state after \<open>m\<close> is related by \<open>R\<close> to the state before.
  For a reflexive and transitive \<open>R\<close> it goes through sequencing, loops and case distinctions.
\<close>

locale step_preorder =
  fixes R :: "'s \<Rightarrow> 's \<Rightarrow> bool"
  assumes step_refl: "R s s"
    and step_trans: "R s t \<Longrightarrow> R t u \<Longrightarrow> R s u"
begin

lemma io_ret: "state_io_rel R (ret x)"
  by (auto simp: state_io_rel_def step_refl)

lemma io_get: "state_io_rel R State_Monad.get"
  by (auto simp: state_io_rel_def step_refl)

lemma io_bind:
  assumes "state_io_rel R m" and "\<And>x. state_io_rel R (f x)"
  shows "state_io_rel R (State_Monad.bind m f)"
  using assms by (auto simp: state_io_rel_def split: prod.splits) (metis snd_conv step_trans)

lemma io_modify: "(\<And>s. R s (f s)) \<Longrightarrow> state_io_rel R (modify f)"
  by (auto simp: state_io_rel_def)

lemma io_for_each: "(\<And>x. state_io_rel R (f x)) \<Longrightarrow> state_io_rel R (for_each f xs)"
  by (induction xs) (auto intro: io_ret io_bind)

lemma io_for_each_in: "(\<And>x. x \<in> set xs \<Longrightarrow> state_io_rel R (f x)) \<Longrightarrow> state_io_rel R (for_each f xs)"
  by (induction xs) (auto intro: io_ret io_bind)

lemma io_run: "state_io_rel R m \<Longrightarrow> run_state m s = (a, t) \<Longrightarrow> R s t"
  by (rule state_io_relD)

lemma io_snd: "state_io_rel R m \<Longrightarrow> R s (snd (run_state m s))"
  by (auto simp: state_io_rel_def)

lemmas io_rules = io_ret io_get io_bind io_for_each

end

text \<open>Keeping an invariant is such a relation, and so is leaving a function of the state alone.\<close>

definition keeps :: "('s \<Rightarrow> bool) \<Rightarrow> 's \<Rightarrow> 's \<Rightarrow> bool" where
  "keeps I s t \<longleftrightarrow> (I s \<longrightarrow> I t)"

definition frames :: "('s \<Rightarrow> 'a) \<Rightarrow> 's \<Rightarrow> 's \<Rightarrow> bool" where
  "frames f s t \<longleftrightarrow> f t = f s"

interpretation keeping: step_preorder "keeps I" for I :: "'s \<Rightarrow> bool"
  by unfold_locales (auto simp: keeps_def)

interpretation framing: step_preorder "frames f" for f :: "'s \<Rightarrow> 'a"
  by unfold_locales (auto simp: frames_def)

section \<open>Errors\<close>

text \<open>
  A Go \<open>error\<close>: the sentinel \<open>pgx.ErrNoRows\<close>, which the code compares with \<open>==\<close>, or any other
  error, of which the code only reads the text.
\<close>

datatype goerr = ErrNoRows | ErrText string

fun err_text :: "goerr \<Rightarrow> string" where
  "err_text ErrNoRows = ''no rows in result set''"
| "err_text (ErrText s) = s"

text \<open>\<open>fmt.Errorf("ctx: %w", err)\<close>; the wrapped error is no longer equal to the sentinel.\<close>

definition wrap :: "string \<Rightarrow> goerr \<Rightarrow> goerr" where
  "wrap ctx e = ErrText (ctx @ '': '' @ err_text e)"

lemma wrap_not_NoRows [simp]: "wrap ctx e \<noteq> ErrNoRows" "ErrNoRows \<noteq> wrap ctx e"
  by (simp_all add: wrap_def)

type_synonym 'a result = "goerr + 'a"

section \<open>Strings\<close>

definition starts_with :: "string \<Rightarrow> string \<Rightarrow> bool" where
  "starts_with p s \<longleftrightarrow> take (length p) s = p"

fun contains :: "string \<Rightarrow> string \<Rightarrow> bool" where
  "contains s [] = True"
| "contains [] p = False"
| "contains (c # s) p = (starts_with p (c # s) \<or> contains s p)"

lemma starts_with_append [simp]: "starts_with p (p @ s)"
  by (simp add: starts_with_def)

lemma contains_append2: "contains t p \<Longrightarrow> contains (s @ t) p"
proof (induction s)
  case Nil
  then show ?case by simp
next
  case (Cons c s)
  then show ?case by (cases p) auto
qed

text \<open>
  The number of characters of a UTF-8 byte string, which is what PostgreSQL's \<open>VARCHAR(n)\<close> counts
  (Go's \<open>len\<close> counts bytes): every byte that is not a continuation byte.
\<close>

definition char_count :: "string \<Rightarrow> nat" where
  "char_count s = length (filter (\<lambda>c. (of_char c :: nat) div 64 \<noteq> 2) s)"

lemma char_count_le_length: "char_count s \<le> length s"
  by (simp add: char_count_def)

lemma char_count_code [code]:
  "char_count [] = 0"
  "char_count (c # s) = (case c of Char b0 b1 b2 b3 b4 b5 b6 b7 \<Rightarrow>
     if b7 \<and> \<not> b6 then char_count s else Suc (char_count s))"
  by (simp add: char_count_def)
     (cases c; rename_tac b0 b1 b2 b3 b4 b5 b6 b7; case_tac b0; case_tac b1; case_tac b2; case_tac b3;
      case_tac b4; case_tac b5; case_tac b6; case_tac b7; simp add: char_count_def)

text \<open>The verb \<open>%d\<close> of \<open>fmt\<close>.\<close>

fun show_nat :: "nat \<Rightarrow> string" where
  "show_nat n = (if n < 10 then [char_of (48 + n)] else show_nat (n div 10) @ [char_of (48 + n mod 10)])"

declare show_nat.simps [simp del]

text \<open>The same on integers, which are evaluated in binary.\<close>

function show_pos :: "int \<Rightarrow> string" where
  "show_pos i = (if i < 10 then [char_of (48 + i)] else show_pos (i div 10) @ [char_of (48 + i mod 10)])"
  by pat_completeness auto

termination by (relation "measure nat") auto

declare show_pos.simps [simp del]

lemma show_pos_int: "show_pos (int n) = show_nat n"
proof (induction n rule: show_nat.induct)
  case (1 n)
  have c: "char_of (48 + int k) = (char_of (48 + k) :: char)" for k
    using char_of_nat [of "48 + k", where 'a = int] by simp
  show ?case
  proof (cases "n < 10")
    case True
    then show ?thesis by (simp add: show_nat.simps [of n] show_pos.simps [of "int n"] c)
  next
    case False
    then have "show_pos (int n) = show_pos (int (n div 10)) @ [char_of (48 + int (n mod 10))]"
      by (subst show_pos.simps) (simp add: zdiv_int zmod_int)
    then show ?thesis using 1 False c [of "n mod 10"] by (simp add: show_nat.simps [of n] del: of_nat_mod)
  qed
qed

lemma show_nat_code [code]: "show_nat n = show_pos (int n)"
  by (simp only: show_pos_int)

definition show_int :: "int \<Rightarrow> string" where
  "show_int i = (if i < 0 then CHR ''-'' # show_nat (nat (- i)) else show_nat (nat i))"

section \<open>Counting\<close>

text \<open>How often each key occurs, undefined for a key that does not.\<close>

definition count_of :: "('a \<Rightarrow> 'k) \<Rightarrow> 'a list \<Rightarrow> 'k \<Rightarrow> nat option" where
  "count_of f xs k = (let n = length (filter (\<lambda>x. f x = k) xs) in if n = 0 then None else Some n)"

lemma count_of_Nil [simp]: "count_of f [] = Map.empty"
  by (simp add: count_of_def fun_eq_iff)

section \<open>Rows in an order the server chooses\<close>

text \<open>
  SQL returns rows in any order where the query has no \<open>ORDER BY\<close>. \<open>permute ps xs\<close> reorders \<open>xs\<close> by
  the positions \<open>ps\<close> when they are a permutation of its indices.
\<close>

definition permute :: "nat list \<Rightarrow> 'a list \<Rightarrow> 'a list" where
  "permute ps xs = (if sort ps = [0..<length xs] then map (nth xs) ps else xs)"

lemma mset_permute [simp]: "mset (permute ps xs) = mset xs"
proof (cases "sort ps = [0..<length xs]")
  case True
  then have "mset ps = mset [0..<length xs]" by (metis mset_sort)
  then have "mset (map (nth xs) ps) = mset (map (nth xs) [0..<length xs])" by simp
  with True show ?thesis by (simp add: permute_def map_nth)
qed (simp add: permute_def)

lemma set_permute [simp]: "set (permute ps xs) = set xs"
  by (metis mset_permute set_mset_mset)

lemma length_permute [simp]: "length (permute ps xs) = length xs"
  by (metis mset_permute size_mset)

lemma distinct_permute [simp]: "distinct (map f (permute ps xs)) = distinct (map f xs)"
  by (metis mset_eq_imp_distinct_iff mset_map mset_permute)

lemma permute_Nil [simp]: "permute ps [] = []"
  by (metis length_0_conv length_permute)

lemma permute_empty_iff [simp]: "permute ps xs = [] \<longleftrightarrow> xs = []"
  by (metis length_0_conv length_permute)

lemma permute_single [simp]: "permute ps [x] = [x]"
proof -
  have "mset (permute ps [x]) = {#x#}" by simp
  then show ?thesis by (simp only: mset_single_iff)
qed

lemma io_relI:
  assumes "\<And>s a t. run_state m s = (a, t) \<Longrightarrow> R s t"
  shows "state_io_rel R m"
  unfolding state_io_rel_def using assms by (metis prod.collapse)

end
