(* ===== verification/Json.thy ===== *)
theory Json
  imports Prelude
begin

text \<open>
  JSON as \<open>encoding/json\<close> hands it to the program: the parsed value and the decoding of its members
  into the fields of a Go struct. Tokenising the bytes is not modelled: a request body is a parsed
  value, or \<open>None\<close> when the decoder reports a syntax error. A number carries the two readings the
  decoder makes of its literal: the \<open>int64\<close> (\<open>None\<close> when the literal has a fraction or an exponent
  or is out of range) and the \<open>float64\<close> (\<open>None\<close> when out of range).
\<close>

datatype json =
    JNull
  | JBool bool
  | JNum "int option" "rat option"
  | JStr string
  | JArr "json list"
  | JObj "(string \<times> json) list"

text \<open>A \<open>map[string]interface{}\<close>: \<open>None\<close> is the nil map.\<close>

type_synonym jobject = "(string \<times> json) list option"

definition jlookup :: "jobject \<Rightarrow> string \<Rightarrow> json option" where
  "jlookup m k = (case m of None \<Rightarrow> None | Some kvs \<Rightarrow> map_of kvs k)"

text \<open>The type assertion \<open>v, ok := m[k].(string)\<close>.\<close>

definition jstring :: "jobject \<Rightarrow> string \<Rightarrow> string option" where
  "jstring m k = (case jlookup m k of Some (JStr s) \<Rightarrow> Some s | _ \<Rightarrow> None)"

section \<open>Matching an object's keys to struct fields\<close>

text \<open>
  The decoder matches keys to field names ignoring case: ASCII letters, and the two non-ASCII runes
  that fold to ASCII letters (the long s, bytes C5 BF, and the Kelvin sign, bytes E2 84 AA).
\<close>

definition fold_char :: "char \<Rightarrow> char" where
  "fold_char c = (let n = (of_char c :: nat) in if 97 \<le> n \<and> n \<le> 122 then char_of (n - 32) else c)"

text \<open>The same on the bits of the character, which evaluates faster.\<close>

lemma fold_char_code [code]:
  "fold_char (Char b0 b1 b2 b3 b4 b5 b6 b7) =
     (if b5 \<and> b6 \<and> \<not> b7 \<and> (b0 \<or> b1 \<or> b2 \<or> b3 \<or> b4) \<and> \<not> (b3 \<and> b4 \<and> (b2 \<or> b0 \<and> b1))
      then Char b0 b1 b2 b3 b4 False b6 b7 else Char b0 b1 b2 b3 b4 b5 b6 b7)"
  by (cases b0; cases b1; cases b2; cases b3; cases b4; cases b5; cases b6; cases b7;
      simp add: fold_char_def Let_def char_of_eq_iff)

fun fold_name :: "string \<Rightarrow> string" where
  "fold_name [] = []"
| "fold_name (a # s) =
     (case s of
        b # s' \<Rightarrow>
          if a = CHR 0xC5 \<and> b = CHR 0xBF then CHR ''S'' # fold_name s'
          else (case s' of
                  c # s'' \<Rightarrow>
                    if a = CHR 0xE2 \<and> b = CHR 0x84 \<and> c = CHR 0xAA
                    then CHR ''K'' # fold_name s'' else fold_char a # fold_name s
                | [] \<Rightarrow> fold_char a # fold_name s)
      | [] \<Rightarrow> [fold_char a])"

definition key_matches :: "string \<Rightarrow> string \<Rightarrow> bool" where
  "key_matches field k \<longleftrightarrow> fold_name k = fold_name field"

section \<open>Decoding one field\<close>

text \<open>
  The members of the object are processed in order, a later match overwrites an earlier one, JSON
  \<open>null\<close> leaves a string alone and sets a pointer or a map to nil, and a value of another type makes
  the decoding fail (\<open>None\<close>).
\<close>

primrec dec_field :: "(json \<Rightarrow> 'a \<Rightarrow> 'a option) \<Rightarrow> string \<Rightarrow> 'a \<Rightarrow> (string \<times> json) list \<Rightarrow> 'a option" where
  "dec_field f name acc [] = Some acc"
| "dec_field f name acc (kv # kvs) =
     (if key_matches name (fst kv)
      then (case f (snd kv) acc of None \<Rightarrow> None | Some a \<Rightarrow> dec_field f name a kvs)
      else dec_field f name acc kvs)"

fun as_string :: "json \<Rightarrow> string \<Rightarrow> string option" where
  "as_string (JStr s) acc = Some s"
| "as_string JNull acc = Some acc"
| "as_string _ acc = None"

fun as_string_ptr :: "json \<Rightarrow> string option \<Rightarrow> string option option" where
  "as_string_ptr (JStr s) acc = Some (Some s)"
| "as_string_ptr JNull acc = Some None"
| "as_string_ptr _ acc = None"

fun as_float_ptr :: "json \<Rightarrow> rat option \<Rightarrow> rat option option" where
  "as_float_ptr (JNum i (Some x)) acc = Some (Some x)"
| "as_float_ptr JNull acc = Some None"
| "as_float_ptr _ acc = None"

fun as_int_ptr :: "json \<Rightarrow> int option \<Rightarrow> int option option" where
  "as_int_ptr (JNum (Some i) x) acc = Some (Some i)"
| "as_int_ptr JNull acc = Some None"
| "as_int_ptr _ acc = None"

fun as_bool_ptr :: "json \<Rightarrow> bool option \<Rightarrow> bool option option" where
  "as_bool_ptr (JBool b) acc = Some (Some b)"
| "as_bool_ptr JNull acc = Some None"
| "as_bool_ptr _ acc = None"

text \<open>Decoding an object into a map that is already there adds its members to it.\<close>

fun as_map :: "json \<Rightarrow> jobject \<Rightarrow> jobject option" where
  "as_map (JObj kvs) acc = Some (Some (rev kvs @ (case acc of None \<Rightarrow> [] | Some m \<Rightarrow> m)))"
| "as_map JNull acc = Some None"
| "as_map _ acc = None"

text \<open>The members of the value a struct is decoded from: \<open>null\<close> leaves the struct zero.\<close>

fun members :: "json \<Rightarrow> (string \<times> json) list option" where
  "members (JObj kvs) = Some kvs"
| "members JNull = Some []"
| "members _ = None"

end
