(* ===== verification/Domain.thy ===== *)
theory Domain
  imports Json
begin

text \<open>
  \<open>internal/domain\<close>: the string constants, the validity tables, the status machine of a
  discrepancy, and the entities. Statuses, severities and types are strings here as in the code;
  the abstract lifecycle at the end is the machine the tables are meant to describe.
\<close>

text \<open>Instants are nanoseconds since the Unix epoch; Go's zero \<open>time.Time\<close> is the first of January of year 1.\<close>

type_synonym gotime = int

definition zero_time :: gotime where
  "zero_time = - 62135596800 * 10 ^ 9"

section \<open>discrepancy.go\<close>

definition StatusOpen :: string where [go_consts]: "StatusOpen = ''open''"
definition StatusAcknowledged :: string where [go_consts]: "StatusAcknowledged = ''acknowledged''"
definition StatusInvestigating :: string where [go_consts]: "StatusInvestigating = ''investigating''"
definition StatusResolved :: string where [go_consts]: "StatusResolved = ''resolved''"
definition StatusEscalated :: string where [go_consts]: "StatusEscalated = ''escalated''"
definition StatusAutoClosed :: string where [go_consts]: "StatusAutoClosed = ''auto_closed''"

definition SeverityLow :: string where [go_consts]: "SeverityLow = ''low''"
definition SeverityMedium :: string where [go_consts]: "SeverityMedium = ''medium''"
definition SeverityHigh :: string where [go_consts]: "SeverityHigh = ''high''"
definition SeverityCritical :: string where [go_consts]: "SeverityCritical = ''critical''"

definition TypeMissing :: string where [go_consts]: "TypeMissing = ''missing''"
definition TypeMismatch :: string where [go_consts]: "TypeMismatch = ''mismatch''"
definition TypeDuplicate :: string where [go_consts]: "TypeDuplicate = ''duplicate''"
definition TypeTiming :: string where [go_consts]: "TypeTiming = ''timing''"

definition ResolutionMatchFound :: string where [go_consts]: "ResolutionMatchFound = ''match_found''"
definition ResolutionFalsePositive :: string where [go_consts]: "ResolutionFalsePositive = ''false_positive''"
definition ResolutionManualAdjustment :: string where [go_consts]: "ResolutionManualAdjustment = ''manual_adjustment''"
definition ResolutionWriteOff :: string where [go_consts]: "ResolutionWriteOff = ''write_off''"

text \<open>Indexing a \<open>map[string]bool\<close>: a missing key reads as false.\<close>

definition bool_at :: "(string \<times> bool) list \<Rightarrow> string \<Rightarrow> bool" where
  "bool_at m k = (case map_of m k of None \<Rightarrow> False | Some b \<Rightarrow> b)"

definition validResolutionTypes :: "(string \<times> bool) list" where
  "validResolutionTypes =
     [(ResolutionMatchFound, True), (ResolutionFalsePositive, True),
      (ResolutionManualAdjustment, True), (ResolutionWriteOff, True)]"

definition ValidResolutionType :: "string \<Rightarrow> bool" where
  "ValidResolutionType rt = bool_at validResolutionTypes rt"

definition validTransitions :: "(string \<times> (string \<times> bool) list) list" where
  "validTransitions =
     [(StatusOpen, [(StatusAcknowledged, True), (StatusAutoClosed, True)]),
      (StatusAcknowledged, [(StatusInvestigating, True)]),
      (StatusInvestigating, [(StatusResolved, True), (StatusEscalated, True)]),
      (StatusEscalated, [(StatusResolved, True)])]"

record discrepancy =
  d_id :: string
  d_tenant_id :: string
  d_external_id :: string
  d_source_system :: string
  d_discrepancy_type :: string
  d_severity :: string
  d_status :: string
  d_title :: string
  d_description :: "string option"
  d_amount_expected :: "rat option"
  d_amount_actual :: "rat option"
  d_currency :: string
  d_metadata :: jobject
  d_first_detected_at :: gotime
  d_resolved_at :: "gotime option"
  d_created_at :: gotime
  d_updated_at :: gotime

definition ValidTransition :: "string \<Rightarrow> string \<Rightarrow> bool" where
  "ValidTransition from_s to_s =
     (case map_of validTransitions from_s of None \<Rightarrow> False | Some allowed \<Rightarrow> bool_at allowed to_s)"

text \<open>The error of \<open>TransitionTo\<close>, \<open>fmt.Errorf("invalid transition from %q to %q", ...)\<close>, with its two arguments.\<close>

datatype transition_error = InvalidTransition string string

definition TransitionTo :: "discrepancy \<Rightarrow> string \<Rightarrow> transition_error + discrepancy" where
  "TransitionTo d newStatus =
     (if \<not> ValidTransition (d_status d) newStatus then Inl (InvalidTransition (d_status d) newStatus)
      else Inr (d\<lparr>d_status := newStatus\<rparr>))"

section \<open>ledger_event.go\<close>

definition EventReceived :: string where [go_consts]: "EventReceived = ''discrepancy.received''"
definition EventAcknowledged :: string where [go_consts]: "EventAcknowledged = ''discrepancy.acknowledged''"
definition EventInvestigationStarted :: string where
  [go_consts]: "EventInvestigationStarted = ''discrepancy.investigation_started''"
definition EventNoteAdded :: string where [go_consts]: "EventNoteAdded = ''discrepancy.note_added''"
definition EventEscalated :: string where [go_consts]: "EventEscalated = ''discrepancy.escalated''"
definition EventResolved :: string where [go_consts]: "EventResolved = ''discrepancy.resolved''"
definition EventAutoClosed :: string where [go_consts]: "EventAutoClosed = ''discrepancy.auto_closed''"

definition ActorSystem :: string where [go_consts]: "ActorSystem = ''system''"
definition ActorUser :: string where [go_consts]: "ActorUser = ''user''"
definition ActorEscalation :: string where [go_consts]: "ActorEscalation = ''escalation''"

definition validEventTypes :: "(string \<times> bool) list" where
  "validEventTypes =
     [(EventReceived, True), (EventAcknowledged, True), (EventInvestigationStarted, True),
      (EventNoteAdded, True), (EventEscalated, True), (EventResolved, True), (EventAutoClosed, True)]"

definition validActorTypes :: "(string \<times> bool) list" where
  "validActorTypes = [(ActorSystem, True), (ActorUser, True), (ActorEscalation, True)]"

record ledger_event =
  e_id :: string
  e_tenant_id :: string
  e_discrepancy_id :: string
  e_event_type :: string
  e_actor :: string
  e_actor_type :: string
  e_payload :: jobject
  e_sequence_num :: int
  e_created_at :: gotime

definition ValidEventType :: "string \<Rightarrow> bool" where
  "ValidEventType t = bool_at validEventTypes t"

definition ValidActorType :: "string \<Rightarrow> bool" where
  "ValidActorType t = bool_at validActorTypes t"

section \<open>escalation_rule.go\<close>

definition ActionNotify :: string where [go_consts]: "ActionNotify = ''notify''"
definition ActionEscalate :: string where [go_consts]: "ActionEscalate = ''escalate''"
definition ActionAutoClose :: string where [go_consts]: "ActionAutoClose = ''auto_close''"

definition validActions :: "(string \<times> bool) list" where
  "validActions = [(ActionNotify, True), (ActionEscalate, True), (ActionAutoClose, True)]"

definition validSeverityMatches :: "(string \<times> bool) list" where
  "validSeverityMatches =
     [(SeverityLow, True), (SeverityMedium, True), (SeverityHigh, True), (SeverityCritical, True),
      (''*'', True)]"

definition validTriggerStatuses :: "(string \<times> bool) list" where
  "validTriggerStatuses =
     [(StatusOpen, True), (StatusAcknowledged, True), (StatusInvestigating, True)]"

record escalation_rule =
  r_id :: string
  r_tenant_id :: string
  r_name :: string
  r_severity_match :: string
  r_trigger_after_hrs :: int
  r_trigger_status :: string
  r_action :: string
  r_action_config :: jobject
  r_is_active :: bool
  r_priority :: int
  r_created_at :: gotime
  r_updated_at :: gotime

definition ValidAction :: "string \<Rightarrow> bool" where
  "ValidAction a = bool_at validActions a"

definition ValidSeverityMatch :: "string \<Rightarrow> bool" where
  "ValidSeverityMatch s = bool_at validSeverityMatches s"

definition ValidTriggerStatus :: "string \<Rightarrow> bool" where
  "ValidTriggerStatus s = bool_at validTriggerStatuses s"

definition MatchesSeverity :: "escalation_rule \<Rightarrow> string \<Rightarrow> bool" where
  "MatchesSeverity r discrepancySeverity =
     (if r_severity_match r = ''*'' then True else r_severity_match r = discrepancySeverity)"

section \<open>notification.go and report.go\<close>

definition NotifPending :: string where [go_consts]: "NotifPending = ''pending''"
definition NotifSent :: string where [go_consts]: "NotifSent = ''sent''"
definition NotifFailed :: string where [go_consts]: "NotifFailed = ''failed''"
definition NotifRetrying :: string where [go_consts]: "NotifRetrying = ''retrying''"
definition NotifSkipped :: string where [go_consts]: "NotifSkipped = ''skipped''"

definition ChannelEmail :: string where [go_consts]: "ChannelEmail = ''email''"
definition ChannelInApp :: string where [go_consts]: "ChannelInApp = ''in_app''"
definition ChannelWebhook :: string where [go_consts]: "ChannelWebhook = ''webhook''"

record notification_log =
  n_id :: string
  n_tenant_id :: string
  n_discrepancy_id :: string
  n_escalation_rule_id :: "string option"
  n_channel :: string
  n_recipient :: string
  n_status :: string
  n_hub_response :: jobject
  n_attempts :: int
  n_last_attempt_at :: "gotime option"
  n_created_at :: gotime
  n_updated_at :: gotime

definition ReportTypeDailySummary :: string where [go_consts]: "ReportTypeDailySummary = ''daily_summary''"
definition ReportTypeMonthlyAudit :: string where [go_consts]: "ReportTypeMonthlyAudit = ''monthly_audit''"
definition ReportTypeDiscrepancyDetail :: string where
  [go_consts]: "ReportTypeDiscrepancyDetail = ''discrepancy_detail''"
definition ReportTypeCustom :: string where [go_consts]: "ReportTypeCustom = ''custom''"

definition ReportStatusPending :: string where [go_consts]: "ReportStatusPending = ''pending''"
definition ReportStatusGenerating :: string where [go_consts]: "ReportStatusGenerating = ''generating''"
definition ReportStatusCompleted :: string where [go_consts]: "ReportStatusCompleted = ''completed''"
definition ReportStatusFailed :: string where [go_consts]: "ReportStatusFailed = ''failed''"
definition ReportStatusCleaned :: string where [go_consts]: "ReportStatusCleaned = ''cleaned''"

definition validReportTypes :: "(string \<times> bool) list" where
  "validReportTypes =
     [(ReportTypeDailySummary, True), (ReportTypeMonthlyAudit, True),
      (ReportTypeDiscrepancyDetail, True), (ReportTypeCustom, True)]"

definition validReportStatuses :: "(string \<times> bool) list" where
  "validReportStatuses =
     [(ReportStatusPending, True), (ReportStatusGenerating, True), (ReportStatusCompleted, True),
      (ReportStatusFailed, True), (ReportStatusCleaned, True)]"

record report =
  p_id :: string
  p_tenant_id :: string
  p_report_type :: string
  p_title :: string
  p_parameters :: jobject
  p_status :: string
  p_file_path :: "string option"
  p_file_size_bytes :: "int option"
  p_generated_by :: "string option"
  p_created_at :: gotime
  p_updated_at :: gotime

definition ValidReportType :: "string \<Rightarrow> bool" where
  "ValidReportType t = bool_at validReportTypes t"

definition ValidReportStatus :: "string \<Rightarrow> bool" where
  "ValidReportStatus s = bool_at validReportStatuses s"

end
