(* ===== verification/Lifecycle.thy ===== *)
theory Lifecycle
  imports Domain
begin

text \<open>
  The abstract specification of the ledger: the status machine of a discrepancy as a relation on a
  datatype, and the status that a list of ledger events stands for. The tables of \<open>Domain\<close> refine the
  relation, and \<open>replay\<close> is what "the discrepancy status is derived state" means: the other theories
  prove that the status column is the replay of the event log.
\<close>

section \<open>The status machine\<close>

datatype lifecycle = LOpen | LAutoClosed | LAcknowledged | LInvestigating | LEscalated | LResolved

fun status_text :: "lifecycle \<Rightarrow> string" where
  "status_text LOpen = StatusOpen"
| "status_text LAutoClosed = StatusAutoClosed"
| "status_text LAcknowledged = StatusAcknowledged"
| "status_text LInvestigating = StatusInvestigating"
| "status_text LEscalated = StatusEscalated"
| "status_text LResolved = StatusResolved"

inductive lifecycle_step :: "lifecycle \<Rightarrow> lifecycle \<Rightarrow> bool" where
  acknowledge: "lifecycle_step LOpen LAcknowledged"
| auto_close: "lifecycle_step LOpen LAutoClosed"
| investigate: "lifecycle_step LAcknowledged LInvestigating"
| resolve: "lifecycle_step LInvestigating LResolved"
| escalate: "lifecycle_step LInvestigating LEscalated"
| resolve_escalated: "lifecycle_step LEscalated LResolved"

code_pred lifecycle_step .

inductive_simps step_from [simp]:
  "lifecycle_step LOpen b" "lifecycle_step LAutoClosed b" "lifecycle_step LAcknowledged b"
  "lifecycle_step LInvestigating b" "lifecycle_step LEscalated b" "lifecycle_step LResolved b"

inductive_cases step_elim: "lifecycle_step a b"

text \<open>The order in which a discrepancy can go through the statuses; every step goes up.\<close>

primrec rank :: "lifecycle \<Rightarrow> nat" where
  "rank LOpen = 0"
| "rank LAutoClosed = 1"
| "rank LAcknowledged = 2"
| "rank LInvestigating = 3"
| "rank LEscalated = 4"
| "rank LResolved = 5"

lemma rank_inj: "rank a = rank b \<longleftrightarrow> a = b"
  by (cases a; cases b) simp_all

instantiation lifecycle :: linorder
begin

definition less_eq_lifecycle :: "lifecycle \<Rightarrow> lifecycle \<Rightarrow> bool" where
  "a \<le> b \<longleftrightarrow> rank a \<le> rank b"

definition less_lifecycle :: "lifecycle \<Rightarrow> lifecycle \<Rightarrow> bool" where
  "a < b \<longleftrightarrow> rank a < rank b"

instance
  by standard (auto simp: less_eq_lifecycle_def less_lifecycle_def rank_inj)

end

lemma lifecycle_step_less: "lifecycle_step a b \<Longrightarrow> a < b"
  by (erule step_elim) (simp_all add: less_lifecycle_def)

lemma status_text_inj [simp]: "status_text a = status_text b \<longleftrightarrow> a = b"
  by (cases a; cases b) (simp_all add: go_consts)

lemma ValidTransition_text: "ValidTransition (status_text a) (status_text b) \<longleftrightarrow> lifecycle_step a b"
  by (cases a; cases b) (simp_all add: ValidTransition_def validTransitions_def bool_at_def go_consts)

lemma ValidTransition_cases:
  assumes "ValidTransition s t"
  shows "(s = StatusOpen \<and> t \<in> {StatusAcknowledged, StatusAutoClosed}) \<or>
         (s = StatusAcknowledged \<and> t = StatusInvestigating) \<or>
         (s = StatusInvestigating \<and> t \<in> {StatusResolved, StatusEscalated}) \<or>
         (s = StatusEscalated \<and> t = StatusResolved)"
  using assms
  by (auto simp: ValidTransition_def validTransitions_def bool_at_def split: option.splits if_splits)

lemma ValidTransition_known:
  "ValidTransition s t \<Longrightarrow> \<exists>a b. s = status_text a \<and> t = status_text b"
  by (drule ValidTransition_cases) (metis insertE singletonD status_text.simps)

text \<open>The terminal statuses, as the comment in \<open>discrepancy.go\<close> lists them.\<close>

definition terminal :: "string \<Rightarrow> bool" where
  "terminal s \<longleftrightarrow> s = StatusResolved \<or> s = StatusAutoClosed"

lemma terminal_simps [simp]:
  "terminal StatusResolved" "terminal StatusAutoClosed" "\<not> terminal StatusAcknowledged"
  "\<not> terminal StatusInvestigating" "\<not> terminal StatusEscalated" "\<not> terminal StatusOpen"
  by (simp_all add: terminal_def go_consts)

lemma terminal_no_transition: "terminal s \<Longrightarrow> \<not> ValidTransition s t"
  by (auto simp: terminal_def go_consts dest: ValidTransition_cases)

section \<open>Replaying the event log\<close>

text \<open>The status each event type records; the other event types record none.\<close>

definition event_target :: "string \<Rightarrow> string option" where
  "event_target = map_of
     [(EventAcknowledged, StatusAcknowledged), (EventInvestigationStarted, StatusInvestigating),
      (EventEscalated, StatusEscalated), (EventResolved, StatusResolved),
      (EventAutoClosed, StatusAutoClosed)]"

text \<open>
  Replaying checks as it goes: an event whose status is not a legal successor of the status
  derived so far makes the whole log illegal.
\<close>

fun replay_step :: "string option \<Rightarrow> ledger_event \<Rightarrow> string option" where
  "replay_step None e = None"
| "replay_step (Some s) e =
     (case event_target (e_event_type e) of
        None \<Rightarrow> Some s
      | Some t \<Rightarrow> if ValidTransition s t then Some t else None)"

definition replay :: "ledger_event list \<Rightarrow> string option" where
  "replay es = foldl replay_step (Some StatusOpen) es"

definition status_event :: "ledger_event \<Rightarrow> bool" where
  "status_event e \<longleftrightarrow> event_target (e_event_type e) \<noteq> None"

lemma replay_Nil [simp]: "replay [] = Some StatusOpen"
  by (simp add: replay_def)

lemma replay_snoc [simp]: "replay (es @ [e]) = replay_step (replay es) e"
  by (simp add: replay_def)

lemma event_target_simps [simp]:
  "event_target EventAcknowledged = Some StatusAcknowledged"
  "event_target EventInvestigationStarted = Some StatusInvestigating"
  "event_target EventEscalated = Some StatusEscalated"
  "event_target EventResolved = Some StatusResolved"
  "event_target EventAutoClosed = Some StatusAutoClosed"
  "event_target EventReceived = None"
  "event_target EventNoteAdded = None"
  by (simp_all add: event_target_def go_consts)

text \<open>How many transitions lead to a status, at most.\<close>

primrec depth :: "lifecycle \<Rightarrow> nat" where
  "depth LOpen = 0"
| "depth LAutoClosed = 1"
| "depth LAcknowledged = 1"
| "depth LInvestigating = 2"
| "depth LEscalated = 3"
| "depth LResolved = 4"

lemma depth_le: "depth a \<le> 4"
  by (cases a) simp_all

lemma lifecycle_step_depth: "lifecycle_step a b \<Longrightarrow> depth a < depth b"
  by (erule step_elim) simp_all

lemma replay_depth:
  "replay es = Some s \<Longrightarrow> \<exists>a. s = status_text a \<and> length (filter status_event es) \<le> depth a"
proof (induction es arbitrary: s rule: rev_induct)
  case Nil
  have "StatusOpen = status_text LOpen" by simp
  with Nil show ?case by (metis filter.simps(1) le0 list.size(3) option.inject replay_Nil)
next
  case (snoc e es)
  from snoc.prems obtain s0 where s0: "replay es = Some s0"
    by (cases "replay es") auto
  with snoc.IH obtain a where a: "s0 = status_text a" "length (filter status_event es) \<le> depth a"
    by blast
  show ?case
  proof (cases "event_target (e_event_type e)")
    case None
    then have "\<not> status_event e" by (simp add: status_event_def)
    with None snoc.prems s0 a show ?thesis by auto
  next
    case (Some t)
    with snoc.prems s0 have v: "ValidTransition s0 t" and st: "s = t"
      by (auto split: if_splits)
    obtain b where b: "t = status_text b" using ValidTransition_known [OF v] by blast
    with v a(1) have "lifecycle_step a b" by (simp add: ValidTransition_text)
    then have "depth a < depth b" by (rule lifecycle_step_depth)
    with a(2) Some have "length (filter status_event (es @ [e])) \<le> depth b"
      by (simp add: status_event_def)
    with b st show ?thesis by blast
  qed
qed

end
