(* ===== verification/World.thy ===== *)
theory World
  imports Lifecycle
begin

text \<open>
  The world the service runs in: the PostgreSQL tables of \<open>migrations/\<close>, the constraints the
  migrations put on their rows, and how one statement runs. Code that is not in the repository is
  the record \<open>env\<close>: a function of the \<^emph>\<open>tick\<close>, the number of the external call, says whether the
  call fails, what the clocks read and which identifier is generated, so one \<open>env\<close> is one possible
  behaviour of the outside. Statements are modelled by the meaning of their SQL text.
\<close>

type_synonym uuid = "128 word"

section \<open>The outside\<close>

text \<open>
  \<open>uuid_parse\<close>, \<open>uuid_text\<close>: \<open>uuid.Parse\<close> and \<open>UUID.String\<close> of \<open>github.com/google/uuid\<close>; \<open>pg_uuid\<close>: the
  server's input function for a \<open>uuid\<close> parameter given as text; \<open>gen_uuid\<close>: \<open>gen_random_uuid()\<close> and
  \<open>uuid.New\<close>; \<open>db_fault\<close>: the statement fails without an effect (connection, timeout); \<open>pg_msg\<close>: the
  text of a server error; \<open>scan_order\<close>: the order of unordered rows; \<open>decimal_col\<close>: a \<open>float64\<close> stored
  in and read back from a \<open>DECIMAL(15,2)\<close> column, \<open>None\<close> on overflow; \<open>float_oob\<close>: Go's
  implementation-defined \<open>int64(x)\<close> for a float out of range; \<open>ctx_done\<close>: the context is cancelled.
\<close>

record env =
  clock :: "nat \<Rightarrow> gotime"
  db_fault :: "nat \<Rightarrow> bool"
  pg_msg :: "nat \<Rightarrow> string"
  gen_uuid :: "nat \<Rightarrow> uuid"
  uuid_parse :: "string \<Rightarrow> uuid option"
  uuid_text :: "uuid \<Rightarrow> string"
  pg_uuid :: "string \<Rightarrow> uuid option"
  scan_order :: "nat \<Rightarrow> nat list"
  decimal_col :: "rat \<Rightarrow> rat option"
  float_oob :: "rat \<Rightarrow> int"
  ctx_done :: "nat \<Rightarrow> bool"

text \<open>Documented: the canonical text of a UUID is accepted by both parsers and names that UUID.\<close>

definition uuid_codec :: "env \<Rightarrow> bool" where
  "uuid_codec E \<longleftrightarrow> (\<forall>u. uuid_parse E (uuid_text E u) = Some u \<and> pg_uuid E (uuid_text E u) = Some u)"

lemma uuid_codecD [simp]:
  assumes "uuid_codec E"
  shows "uuid_parse E (uuid_text E u) = Some u" "pg_uuid E (uuid_text E u) = Some u"
  using assms by (simp_all add: uuid_codec_def)

lemma uuid_text_inj: "uuid_codec E \<Longrightarrow> uuid_text E u = uuid_text E v \<longleftrightarrow> u = v"
  by (metis option.inject uuid_codecD(1))

text \<open>An outside in which no statement fails for a reason of its own.\<close>

definition no_faults :: "env \<Rightarrow> bool" where
  "no_faults E \<longleftrightarrow> (\<forall>t. \<not> db_fault E t)"

section \<open>The tables\<close>

record tenant =
  t_id :: string
  t_name :: string
  t_api_key :: string
  t_is_active :: bool
  t_settings :: jobject
  t_created_at :: gotime
  t_updated_at :: gotime

text \<open>\<open>event_seq\<close> is the next value of the sequence behind the \<open>BIGSERIAL\<close> column \<open>sequence_num\<close>.\<close>

record database =
  tenants :: "tenant list"
  discrepancies :: "discrepancy list"
  ledger_events :: "ledger_event list"
  event_seq :: int
  escalation_rules :: "escalation_rule list"
  reports :: "report list"
  notification_logs :: "notification_log list"

definition one_of :: "string list \<Rightarrow> string \<Rightarrow> bool" where
  "one_of allowed s \<longleftrightarrow> s \<in> set allowed"

text \<open>A \<open>TEXT\<close> or \<open>VARCHAR(n)\<close> value: no NUL byte, at most \<open>n\<close> characters. \<open>JSONB\<close> refuses NUL too.\<close>

definition text_ok :: "string \<Rightarrow> bool" where
  "text_ok s \<longleftrightarrow> CHR 0x00 \<notin> set s"

definition varchar :: "nat \<Rightarrow> string \<Rightarrow> bool" where
  "varchar n s \<longleftrightarrow> text_ok s \<and> char_count s \<le> n"

fun json_ok :: "json \<Rightarrow> bool" and members_ok :: "(string \<times> json) list \<Rightarrow> bool" and items_ok :: "json list \<Rightarrow> bool" where
  "json_ok JNull = True"
| "json_ok (JBool b) = True"
| "json_ok (JNum i x) = True"
| "json_ok (JStr s) = text_ok s"
| "json_ok (JArr xs) = items_ok xs"
| "json_ok (JObj kvs) = members_ok kvs"
| "members_ok [] = True"
| "members_ok ((k, v) # kvs) = (text_ok k \<and> json_ok v \<and> members_ok kvs)"
| "items_ok [] = True"
| "items_ok (x # xs) = (json_ok x \<and> items_ok xs)"

definition jsonb_ok :: "jobject \<Rightarrow> bool" where
  "jsonb_ok m = (case m of None \<Rightarrow> True | Some kvs \<Rightarrow> members_ok kvs)"

definition int4 :: "int \<Rightarrow> bool" where
  "int4 i \<longleftrightarrow> - (2 ^ 31) \<le> i \<and> i < 2 ^ 31"

definition tenant_exists :: "database \<Rightarrow> string \<Rightarrow> bool" where
  "tenant_exists d tid \<longleftrightarrow> (\<exists>t\<in>set (tenants d). t_id t = tid)"

definition discrepancy_exists :: "database \<Rightarrow> string \<Rightarrow> bool" where
  "discrepancy_exists d i \<longleftrightarrow> (\<exists>r\<in>set (discrepancies d). d_id r = i)"

text \<open>Migration 002: the column types and CHECK constraints of a row, and the keys of an insert.\<close>

definition discrepancy_check :: "discrepancy \<Rightarrow> bool" where
  "discrepancy_check r \<longleftrightarrow>
     varchar 255 (d_external_id r) \<and> varchar 255 (d_source_system r) \<and>
     one_of [''missing'', ''mismatch'', ''duplicate'', ''timing''] (d_discrepancy_type r) \<and>
     one_of [''low'', ''medium'', ''high'', ''critical''] (d_severity r) \<and>
     one_of [''open'', ''acknowledged'', ''investigating'', ''resolved'', ''escalated'', ''auto_closed''] (d_status r) \<and>
     varchar 500 (d_title r) \<and>
     (case d_description r of None \<Rightarrow> True | Some s \<Rightarrow> text_ok s) \<and>
     varchar 3 (d_currency r) \<and> jsonb_ok (d_metadata r)"

definition discrepancy_insertable :: "database \<Rightarrow> discrepancy \<Rightarrow> bool" where
  "discrepancy_insertable d r \<longleftrightarrow>
     discrepancy_check r \<and> tenant_exists d (d_tenant_id r) \<and>
     (\<forall>r'\<in>set (discrepancies d).
        d_id r' \<noteq> d_id r \<and>
        \<not> (d_tenant_id r' = d_tenant_id r \<and> d_external_id r' = d_external_id r))"

text \<open>Migration 003.\<close>

definition event_insertable :: "database \<Rightarrow> ledger_event \<Rightarrow> bool" where
  "event_insertable d e \<longleftrightarrow>
     one_of [''discrepancy.received'', ''discrepancy.acknowledged'', ''discrepancy.investigation_started'',
             ''discrepancy.note_added'', ''discrepancy.escalated'', ''discrepancy.resolved'',
             ''discrepancy.auto_closed''] (e_event_type e) \<and>
     varchar 255 (e_actor e) \<and>
     one_of [''system'', ''user'', ''escalation''] (e_actor_type e) \<and>
     jsonb_ok (e_payload e) \<and>
     tenant_exists d (e_tenant_id e) \<and> discrepancy_exists d (e_discrepancy_id e) \<and>
     (\<forall>e'\<in>set (ledger_events d). e_id e' \<noteq> e_id e)"

text \<open>Migration 004.\<close>

definition rule_check :: "escalation_rule \<Rightarrow> bool" where
  "rule_check r \<longleftrightarrow>
     varchar 255 (r_name r) \<and>
     one_of [''low'', ''medium'', ''high'', ''critical'', ''*''] (r_severity_match r) \<and>
     int4 (r_trigger_after_hrs r) \<and>
     one_of [''open'', ''acknowledged'', ''investigating''] (r_trigger_status r) \<and>
     one_of [''notify'', ''escalate'', ''auto_close''] (r_action r) \<and>
     jsonb_ok (r_action_config r) \<and> int4 (r_priority r)"

definition rule_insertable :: "database \<Rightarrow> escalation_rule \<Rightarrow> bool" where
  "rule_insertable d r \<longleftrightarrow>
     rule_check r \<and> tenant_exists d (r_tenant_id r) \<and>
     (\<forall>r'\<in>set (escalation_rules d).
        r_id r' \<noteq> r_id r \<and> \<not> (r_tenant_id r' = r_tenant_id r \<and> r_name r' = r_name r))"

text \<open>Migration 006.\<close>

definition notification_check :: "notification_log \<Rightarrow> bool" where
  "notification_check n \<longleftrightarrow>
     one_of [''email'', ''in_app'', ''webhook''] (n_channel n) \<and>
     varchar 500 (n_recipient n) \<and>
     one_of [''pending'', ''sent'', ''failed'', ''retrying''] (n_status n) \<and>
     jsonb_ok (n_hub_response n) \<and> int4 (n_attempts n)"

definition notification_insertable :: "database \<Rightarrow> notification_log \<Rightarrow> bool" where
  "notification_insertable d n \<longleftrightarrow>
     notification_check n \<and> tenant_exists d (n_tenant_id n) \<and> discrepancy_exists d (n_discrepancy_id n) \<and>
     (case n_escalation_rule_id n of None \<Rightarrow> True
      | Some i \<Rightarrow> (\<exists>r\<in>set (escalation_rules d). r_id r = i)) \<and>
     (\<forall>n'\<in>set (notification_logs d). n_id n' \<noteq> n_id n)"

section \<open>The state of the service\<close>

record hub_event =
  h_event_type :: string
  h_tenant_id :: string
  h_payload :: jobject

record hub_response =
  hr_status :: string
  hr_id :: string

datatype nats_reply = Ack | Nak | Term

text \<open>
  Besides the database: the tick, the number of statements that failed with an error of the server
  (as the server's log counts them), and what went out: hub requests (URL, event), pauses before a
  retry, and the answers to NATS messages.
\<close>

record world =
  db :: database
  tick :: nat
  sql_errors :: nat
  posts :: "(string \<times> hub_event) list"
  sleeps :: "int list"
  replies :: "nats_reply list"

definition next_tick :: "(world, nat) state" where
  "next_tick = State (\<lambda>w. (tick w, w\<lparr>tick := Suc (tick w)\<rparr>))"

definition time_Now :: "env \<Rightarrow> (world, gotime) state" where
  "time_Now E = do { t \<leftarrow> next_tick; ret (clock E t) }"

section \<open>Running one statement\<close>

text \<open>
  A statement gets the tick and the tables and gives its result and the tables after it. A failing
  statement has no effect, except that the value it drew from the sequence stays drawn.
\<close>

type_synonym 'a stmt = "nat \<Rightarrow> database \<Rightarrow> 'a result \<times> database"

fun server_error :: "'a result \<Rightarrow> bool" where
  "server_error (Inl (ErrText s)) = True"
| "server_error _ = False"

definition pg :: "env \<Rightarrow> 'a stmt \<Rightarrow> (world, 'a result) state" where
  "pg E q = State (\<lambda>w.
     let t = tick w in
     if db_fault E t
     then (Inl (ErrText (pg_msg E t)), w\<lparr>tick := Suc t, sql_errors := Suc (sql_errors w)\<rparr>)
     else (case q t (db w) of (r, d) \<Rightarrow>
       (r, w\<lparr>tick := Suc t, db := d,
             sql_errors := (if server_error r then Suc (sql_errors w) else sql_errors w)\<rparr>)))"

definition query :: "(nat \<Rightarrow> database \<Rightarrow> 'a result) \<Rightarrow> 'a stmt" where
  "query f = (\<lambda>t d. (f t d, d))"

text \<open>\<open>QueryRow(...).Scan\<close>: the first row, or \<open>pgx.ErrNoRows\<close>.\<close>

definition first_row :: "'a list \<Rightarrow> 'a result" where
  "first_row rows = (case rows of [] \<Rightarrow> Inl ErrNoRows | r # _ \<Rightarrow> Inr r)"

definition rejected :: "env \<Rightarrow> nat \<Rightarrow> 'a result" where
  "rejected E t = Inl (ErrText (pg_msg E t))"

text \<open>Unordered rows, in the order the server happens to return them.\<close>

definition rows :: "env \<Rightarrow> nat \<Rightarrow> 'a list \<Rightarrow> 'a list" where
  "rows E t xs = permute (scan_order E t) xs"

lemma set_rows [simp]: "set (rows E t xs) = set xs"
  by (simp add: rows_def)

lemma mset_rows [simp]: "mset (rows E t xs) = mset xs"
  by (simp add: rows_def)

lemma rows_Nil_iff [simp]: "rows E t xs = [] \<longleftrightarrow> xs = []"
  by (simp add: rows_def)

definition wrapped :: "string \<Rightarrow> ('s, 'a result) state \<Rightarrow> ('s, 'a result) state" where
  "wrapped ctx m = do { r \<leftarrow> m; ret (case r of Inl e \<Rightarrow> Inl (wrap ctx e) | Inr x \<Rightarrow> Inr x) }"

section \<open>Transactions\<close>

text \<open>
  \<open>DBTX\<close>: the pool, or a transaction, which knows the tick it began at, because \<open>NOW()\<close> is constant
  in a transaction. Rolling back restores the tables as they were at \<open>Begin\<close>; sequence values drawn
  since stay drawn. A failing commit applies nothing.
\<close>

datatype dbtx = Pool | Tx nat

fun now_of :: "env \<Rightarrow> dbtx \<Rightarrow> nat \<Rightarrow> gotime" where
  "now_of E Pool t = clock E t"
| "now_of E (Tx t0) t = clock E t0"

definition tx_begin :: "env \<Rightarrow> (world, (dbtx \<times> database) result) state" where
  "tx_begin E = pg E (query (\<lambda>t d. Inr (Tx t, d)))"

definition tx_commit :: "env \<Rightarrow> (world, unit result) state" where
  "tx_commit E = pg E (query (\<lambda>t d. Inr ()))"

definition tx_rollback :: "database \<Rightarrow> (world, unit) state" where
  "tx_rollback snap = modify (\<lambda>w. w\<lparr>db := snap\<lparr>event_seq := event_seq (db w)\<rparr>\<rparr>)"

section \<open>Facts about statements\<close>

lemma run_next_tick [simp]: "run_state next_tick w = (tick w, w\<lparr>tick := Suc (tick w)\<rparr>)"
  by (simp add: next_tick_def)

lemma run_time_Now [simp]: "run_state (time_Now E) w = (clock E (tick w), w\<lparr>tick := Suc (tick w)\<rparr>)"
  by (simp add: time_Now_def)

lemma run_pg:
  "run_state (pg E q) w =
     (if db_fault E (tick w)
      then (Inl (ErrText (pg_msg E (tick w))), w\<lparr>tick := Suc (tick w), sql_errors := Suc (sql_errors w)\<rparr>)
      else (fst (q (tick w) (db w)),
            w\<lparr>tick := Suc (tick w), db := snd (q (tick w) (db w)),
              sql_errors := (if server_error (fst (q (tick w) (db w))) then Suc (sql_errors w)
                             else sql_errors w)\<rparr>))"
  by (simp add: pg_def Let_def split_beta)

lemma run_tx_rollback [simp]:
  "run_state (tx_rollback snap) w = ((), w\<lparr>db := snap\<lparr>event_seq := event_seq (db w)\<rparr>\<rparr>)"
  by (simp add: tx_rollback_def)

lemma first_row_Inr: "first_row xs = Inr x \<Longrightarrow> x \<in> set xs"
  by (auto simp: first_row_def split: list.splits)

lemma first_row_Inl: "first_row xs = Inl e \<longleftrightarrow> xs = [] \<and> e = ErrNoRows"
  by (auto simp: first_row_def split: list.splits)

text \<open>A relation between databases lifts to programs: it is enough that each statement respects it.\<close>

definition db_rel :: "(database \<Rightarrow> database \<Rightarrow> bool) \<Rightarrow> world \<Rightarrow> world \<Rightarrow> bool" where
  "db_rel R w w' \<longleftrightarrow> R (db w) (db w')"

locale table_relation = base: step_preorder R
  for R :: "database \<Rightarrow> database \<Rightarrow> bool"
begin

sublocale lifted: step_preorder "db_rel R"
  by unfold_locales (auto simp: db_rel_def intro: base.step_refl base.step_trans)

lemma io_pg: "(\<And>t d. R d (snd (q t d))) \<Longrightarrow> state_io_rel (db_rel R) (pg E q)"
  by (auto simp: state_io_rel_def db_rel_def run_pg base.step_refl)

lemma io_query: "state_io_rel (db_rel R) (pg E (query f))"
  by (rule io_pg) (simp add: query_def base.step_refl)

lemma io_wrapped: "state_io_rel (db_rel R) m \<Longrightarrow> state_io_rel (db_rel R) (wrapped ctx m)"
  unfolding wrapped_def by (intro lifted.io_bind lifted.io_ret)

lemma io_next_tick: "state_io_rel (db_rel R) next_tick"
  by (auto simp: state_io_rel_def db_rel_def base.step_refl)

lemma io_time_Now: "state_io_rel (db_rel R) (time_Now E)"
  by (auto simp: state_io_rel_def db_rel_def base.step_refl)

lemma io_outside: "(\<And>w. db (f w) = db w) \<Longrightarrow> state_io_rel (db_rel R) (modify f)"
  by (auto simp: state_io_rel_def db_rel_def base.step_refl)

lemmas io_basic = lifted.io_rules io_query io_wrapped io_next_tick io_time_Now

end

text \<open>Every statement counts its server error, and no statement uncounts one.\<close>

definition errors_grow :: "world \<Rightarrow> world \<Rightarrow> bool" where
  "errors_grow w w' \<longleftrightarrow> sql_errors w \<le> sql_errors w'"

interpretation erring: step_preorder errors_grow
  by unfold_locales (auto simp: errors_grow_def)

lemma errors_pg: "state_io_rel errors_grow (pg E q)"
  by (auto simp: state_io_rel_def errors_grow_def run_pg)

lemma errors_wrapped: "state_io_rel errors_grow m \<Longrightarrow> state_io_rel errors_grow (wrapped ctx m)"
  unfolding wrapped_def by (intro erring.io_bind erring.io_ret)

lemma errors_time_Now: "state_io_rel errors_grow (time_Now E)"
  by (auto simp: state_io_rel_def errors_grow_def)

lemma errors_modify: "(\<And>w. sql_errors (f w) = sql_errors w) \<Longrightarrow> state_io_rel errors_grow (modify f)"
  by (auto simp: state_io_rel_def errors_grow_def)

lemma errors_rollback: "state_io_rel errors_grow (tx_rollback snap)"
  by (auto simp: state_io_rel_def errors_grow_def)

lemmas errors_rules = erring.io_rules errors_pg errors_wrapped errors_time_Now errors_rollback

end
