(* ===== verification/Stores.thy ===== *)
theory Stores
  imports World
begin

text \<open>
  \<open>internal/store\<close>, the operations the workflow, the ingestion and the escalation engine use:
  \<open>discrepancy_store.go\<close>, \<open>discrepancy_escalation.go\<close>, \<open>discrepancy_resolved.go\<close>, \<open>event_store.go\<close>,
  \<open>notification_store.go\<close>. Each Go method is the SQL statement it sends, as a function of the tables,
  followed by the method itself. A row is a Go struct here; the theory of the scan functions relates it to the columns.
\<close>

section \<open>discrepancy\_store.go\<close>

definition nilIfZero :: "gotime \<Rightarrow> gotime option" where
  "nilIfZero t = (if t = zero_time then None else Some t)"

text \<open>A nullable \<open>DECIMAL(15,2)\<close> parameter.\<close>

definition decimal_ptr :: "env \<Rightarrow> rat option \<Rightarrow> rat option option" where
  "decimal_ptr E x = (case x of None \<Rightarrow> Some None | Some r \<Rightarrow> map_option Some (decimal_col E r))"

definition insert_discrepancy :: "env \<Rightarrow> uuid \<Rightarrow> discrepancy \<Rightarrow> discrepancy stmt" where
  "insert_discrepancy E tid x = (\<lambda>t d.
     case (decimal_ptr E (d_amount_expected x), decimal_ptr E (d_amount_actual x)) of
       (Some expected, Some actual) \<Rightarrow>
         (let now = clock E t;
              row = \<lparr>d_id = uuid_text E (gen_uuid E t), d_tenant_id = uuid_text E tid,
                     d_external_id = d_external_id x, d_source_system = d_source_system x,
                     d_discrepancy_type = d_discrepancy_type x, d_severity = d_severity x,
                     d_status = d_status x, d_title = d_title x, d_description = d_description x,
                     d_amount_expected = expected, d_amount_actual = actual,
                     d_currency = d_currency x, d_metadata = d_metadata x,
                     d_first_detected_at = (case nilIfZero (d_first_detected_at x) of None \<Rightarrow> now | Some f \<Rightarrow> f),
                     d_resolved_at = None, d_created_at = now, d_updated_at = now\<rparr>
          in if discrepancy_insertable d row
             then (Inr row, d\<lparr>discrepancies := discrepancies d @ [row]\<rparr>)
             else (rejected E t, d))
     | _ \<Rightarrow> (rejected E t, d))"

definition DiscrepancyStore_Create :: "env \<Rightarrow> uuid \<Rightarrow> discrepancy \<Rightarrow> (world, discrepancy result) state" where
  "DiscrepancyStore_Create E tid x = pg E (insert_discrepancy E tid x)"

definition discrepancy_by_id :: "env \<Rightarrow> uuid \<Rightarrow> uuid \<Rightarrow> database \<Rightarrow> discrepancy list" where
  "discrepancy_by_id E tid i d =
     filter (\<lambda>r. d_tenant_id r = uuid_text E tid \<and> d_id r = uuid_text E i) (discrepancies d)"

definition DiscrepancyStore_GetByID :: "env \<Rightarrow> uuid \<Rightarrow> uuid \<Rightarrow> (world, discrepancy result) state" where
  "DiscrepancyStore_GetByID E tid i =
     wrapped ''discrepancy_store.GetByID'' (pg E (query (\<lambda>t d. first_row (discrepancy_by_id E tid i d))))"

definition GetByIDWith :: "env \<Rightarrow> dbtx \<Rightarrow> uuid \<Rightarrow> uuid \<Rightarrow> (world, discrepancy result) state" where
  "GetByIDWith E c tid i =
     wrapped ''discrepancy_store.GetByIDWith'' (pg E (query (\<lambda>t d. first_row (discrepancy_by_id E tid i d))))"

definition GetByExternalID :: "env \<Rightarrow> uuid \<Rightarrow> string \<Rightarrow> (world, discrepancy result) state" where
  "GetByExternalID E tid ext =
     wrapped ''discrepancy_store.GetByExternalID''
       (pg E (query (\<lambda>t d. if \<not> text_ok ext then rejected E t else first_row
          (filter (\<lambda>r. d_tenant_id r = uuid_text E tid \<and> d_external_id r = ext) (discrepancies d)))))"

text \<open>
  \<open>UPDATE discrepancies SET ... WHERE tenant_id = .. AND id = ..\<close>: the CHECK constraints are tested on
  each row the update touches; the result is the number of rows.
\<close>

definition update_discrepancies ::
  "env \<Rightarrow> (discrepancy \<Rightarrow> bool) \<Rightarrow> (gotime \<Rightarrow> discrepancy \<Rightarrow> discrepancy) \<Rightarrow> dbtx \<Rightarrow> nat stmt" where
  "update_discrepancies E hit f c = (\<lambda>t d.
     let now = now_of E c t; old = filter hit (discrepancies d) in
     if (\<forall>r\<in>set old. discrepancy_check (f now r))
     then (Inr (length old),
           d\<lparr>discrepancies := map (\<lambda>r. if hit r then f now r else r) (discrepancies d)\<rparr>)
     else (rejected E t, d))"

definition is_row :: "env \<Rightarrow> uuid \<Rightarrow> uuid \<Rightarrow> discrepancy \<Rightarrow> bool" where
  "is_row E tid i r \<longleftrightarrow> d_tenant_id r = uuid_text E tid \<and> d_id r = uuid_text E i"

definition set_status :: "string \<Rightarrow> gotime option \<Rightarrow> gotime \<Rightarrow> discrepancy \<Rightarrow> discrepancy" where
  "set_status s resolved now r = r\<lparr>d_status := s, d_resolved_at := resolved, d_updated_at := now\<rparr>"

definition rows_or_not_found :: "string \<Rightarrow> (world, nat result) state \<Rightarrow> (world, unit result) state" where
  "rows_or_not_found ctx m = do {
     r \<leftarrow> m;
     ret (case r of Inl e \<Rightarrow> Inl (wrap ctx e)
          | Inr n \<Rightarrow> if n = 0 then Inl (ErrText (ctx @ '': not found'')) else Inr ())
   }"

definition UpdateStatusWith ::
  "env \<Rightarrow> dbtx \<Rightarrow> uuid \<Rightarrow> uuid \<Rightarrow> string \<Rightarrow> gotime option \<Rightarrow> (world, unit result) state" where
  "UpdateStatusWith E c tid i newStatus resolvedAt =
     rows_or_not_found ''discrepancy_store.UpdateStatus''
       (pg E (update_discrepancies E (is_row E tid i) (set_status newStatus resolvedAt) c))"

definition DiscrepancyStore_UpdateStatus ::
  "env \<Rightarrow> uuid \<Rightarrow> uuid \<Rightarrow> string \<Rightarrow> gotime option \<Rightarrow> (world, unit result) state" where
  "DiscrepancyStore_UpdateStatus E tid i newStatus resolvedAt =
     UpdateStatusWith E Pool tid i newStatus resolvedAt"

section \<open>discrepancy\_escalation.go and discrepancy\_resolved.go\<close>

definition ListForEscalation ::
  "env \<Rightarrow> uuid \<Rightarrow> string \<Rightarrow> string \<Rightarrow> gotime \<Rightarrow> (world, discrepancy list result) state" where
  "ListForEscalation E tid status severity olderThan =
     wrapped ''discrepancy_store.ListForEscalation'' (pg E (query (\<lambda>t d. Inr (rows E t (filter (\<lambda>r.
       d_tenant_id r = uuid_text E tid \<and> d_status r = status \<and> d_created_at r < olderThan \<and>
       (if severity \<noteq> ''*'' then d_severity r = severity else True)) (discrepancies d))))))"

definition UpdateSeverity :: "env \<Rightarrow> uuid \<Rightarrow> uuid \<Rightarrow> string \<Rightarrow> (world, unit result) state" where
  "UpdateSeverity E tid i newSeverity =
     rows_or_not_found ''discrepancy_store.UpdateSeverity''
       (pg E (update_discrepancies E (is_row E tid i)
                (\<lambda>now r. r\<lparr>d_severity := newSeverity, d_updated_at := now\<rparr>) Pool))"

text \<open>\<open>resolved_at >= $3\<close> is not true of a NULL.\<close>

definition ListAllResolvedSince :: "env \<Rightarrow> gotime \<Rightarrow> (world, discrepancy list result) state" where
  "ListAllResolvedSince E since =
     wrapped ''discrepancy_store.ListAllResolvedSince'' (pg E (query (\<lambda>t d. Inr
       (sort_key (\<lambda>r. case d_resolved_at r of None \<Rightarrow> 0 | Some x \<Rightarrow> x) (rows E t (filter (\<lambda>r.
         (d_status r = StatusResolved \<or> d_status r = StatusAutoClosed) \<and>
         (case d_resolved_at r of None \<Rightarrow> False | Some x \<Rightarrow> x \<ge> since)) (discrepancies d)))))))"

section \<open>event\_store.go\<close>

text \<open>
  \<open>domain.NewLedgerEvent\<close>: the generated identifier and the timestamp are not part of the INSERT
  below, which lets the server generate both.
\<close>

definition NewLedgerEvent ::
  "env \<Rightarrow> string \<Rightarrow> string \<Rightarrow> string \<Rightarrow> string \<Rightarrow> string \<Rightarrow> jobject \<Rightarrow> (world, ledger_event) state" where
  "NewLedgerEvent E tenantID discrepancyID eventType actor actorType payload = do {
     u \<leftarrow> next_tick;
     now \<leftarrow> time_Now E;
     ret \<lparr>e_id = uuid_text E (gen_uuid E u), e_tenant_id = tenantID, e_discrepancy_id = discrepancyID,
          e_event_type = eventType, e_actor = actor, e_actor_type = actorType, e_payload = payload,
          e_sequence_num = 0, e_created_at = now\<rparr>
   }"

definition insert_event :: "env \<Rightarrow> dbtx \<Rightarrow> uuid \<Rightarrow> ledger_event \<Rightarrow> ledger_event stmt" where
  "insert_event E c tid x = (\<lambda>t d.
     case pg_uuid E (e_discrepancy_id x) of
       None \<Rightarrow> (rejected E t, d)
     | Some disc \<Rightarrow>
         (let row = \<lparr>e_id = uuid_text E (gen_uuid E t), e_tenant_id = uuid_text E tid,
                     e_discrepancy_id = uuid_text E disc, e_event_type = e_event_type x,
                     e_actor = e_actor x, e_actor_type = e_actor_type x, e_payload = e_payload x,
                     e_sequence_num = event_seq d, e_created_at = now_of E c t\<rparr>;
              d' = d\<lparr>event_seq := event_seq d + 1\<rparr>
          in if event_insertable d row
             then (Inr row, d'\<lparr>ledger_events := ledger_events d @ [row]\<rparr>)
             else (rejected E t, d')))"

definition AppendWith :: "env \<Rightarrow> dbtx \<Rightarrow> uuid \<Rightarrow> ledger_event \<Rightarrow> (world, ledger_event result) state" where
  "AppendWith E c tid x = wrapped ''event_store.Append'' (pg E (insert_event E c tid x))"

definition EventStore_Append :: "env \<Rightarrow> uuid \<Rightarrow> ledger_event \<Rightarrow> (world, ledger_event result) state" where
  "EventStore_Append E tid x = AppendWith E Pool tid x"

definition events_of :: "env \<Rightarrow> uuid \<Rightarrow> uuid \<Rightarrow> database \<Rightarrow> ledger_event list" where
  "events_of E tid i d =
     filter (\<lambda>e. e_tenant_id e = uuid_text E tid \<and> e_discrepancy_id e = uuid_text E i) (ledger_events d)"

definition ListByDiscrepancy :: "env \<Rightarrow> uuid \<Rightarrow> uuid \<Rightarrow> (world, ledger_event list result) state" where
  "ListByDiscrepancy E tid i =
     wrapped ''event_store.ListByDiscrepancy''
       (pg E (query (\<lambda>t d. Inr (sort_key e_sequence_num (rows E t (events_of E tid i d))))))"

text \<open>\<open>SELECT MAX(sequence_num)\<close> gives NULL on no rows.\<close>

definition max_sequence :: "ledger_event list \<Rightarrow> int option" where
  "max_sequence es = (case map e_sequence_num es of [] \<Rightarrow> None | x # xs \<Rightarrow> Some (foldl max x xs))"

definition GetLatestSequenceWith :: "env \<Rightarrow> dbtx \<Rightarrow> uuid \<Rightarrow> uuid \<Rightarrow> (world, int result) state" where
  "GetLatestSequenceWith E c tid i =
     wrapped ''event_store.GetLatestSequence'' (pg E (query (\<lambda>t d. Inr
       (case max_sequence (rows E t (events_of E tid i d)) of None \<Rightarrow> 0 | Some seq \<Rightarrow> seq))))"

definition GetLatestSequence :: "env \<Rightarrow> uuid \<Rightarrow> uuid \<Rightarrow> (world, int result) state" where
  "GetLatestSequence E tid i = GetLatestSequenceWith E Pool tid i"

definition ExistsForDiscrepancy :: "env \<Rightarrow> uuid \<Rightarrow> uuid \<Rightarrow> string \<Rightarrow> (world, bool result) state" where
  "ExistsForDiscrepancy E tid i eventType =
     wrapped ''event_store.ExistsForDiscrepancy''
       (pg E (query (\<lambda>t d. Inr (\<exists>e\<in>set (events_of E tid i d). e_event_type e = eventType))))"

text \<open>\<open>GROUP BY event_type\<close>: one count for each event type that occurs.\<close>

definition CountByType :: "env \<Rightarrow> uuid \<Rightarrow> (world, (string \<Rightarrow> nat option) result) state" where
  "CountByType E tid =
     wrapped ''event_store.CountByType'' (pg E (query (\<lambda>t d. Inr (\<lambda>ty.
       let n = length (filter (\<lambda>e. e_tenant_id e = uuid_text E tid \<and> e_event_type e = ty) (ledger_events d))
       in if n = 0 then None else Some n))))"

section \<open>notification\_store.go\<close>

definition insert_notification ::
  "env \<Rightarrow> uuid \<Rightarrow> uuid \<Rightarrow> uuid option \<Rightarrow> string \<Rightarrow> string \<Rightarrow> notification_log stmt" where
  "insert_notification E tid disc rule channel recipient = (\<lambda>t d.
     let now = clock E t;
         row = \<lparr>n_id = uuid_text E (gen_uuid E t), n_tenant_id = uuid_text E tid,
                n_discrepancy_id = uuid_text E disc,
                n_escalation_rule_id = map_option (uuid_text E) rule, n_channel = channel,
                n_recipient = recipient, n_status = ''pending'', n_hub_response = None, n_attempts = 0,
                n_last_attempt_at = None, n_created_at = now, n_updated_at = now\<rparr>
     in if notification_insertable d row
        then (Inr row, d\<lparr>notification_logs := notification_logs d @ [row]\<rparr>)
        else (rejected E t, d))"

definition NotificationStore_Create ::
  "env \<Rightarrow> uuid \<Rightarrow> uuid \<Rightarrow> uuid option \<Rightarrow> string \<Rightarrow> string \<Rightarrow> (world, notification_log result) state" where
  "NotificationStore_Create E tid disc rule channel recipient =
     wrapped ''notification_store.Create'' (pg E (insert_notification E tid disc rule channel recipient))"

definition update_notifications ::
  "env \<Rightarrow> uuid \<Rightarrow> string \<Rightarrow> jobject \<Rightarrow> int \<Rightarrow> nat stmt" where
  "update_notifications E i status hubResponse attempts = (\<lambda>t d.
     let hit = (\<lambda>n. n_id n = uuid_text E i); now = clock E t;
         f = (\<lambda>n. n\<lparr>n_status := status, n_hub_response := hubResponse, n_attempts := attempts,
                    n_last_attempt_at := Some now, n_updated_at := now\<rparr>);
         old = filter hit (notification_logs d)
     in if (\<forall>n\<in>set old. notification_check (f n))
        then (Inr (length old),
              d\<lparr>notification_logs := map (\<lambda>n. if hit n then f n else n) (notification_logs d)\<rparr>)
        else (rejected E t, d))"

definition NotificationStore_UpdateStatus ::
  "env \<Rightarrow> uuid \<Rightarrow> string \<Rightarrow> jobject \<Rightarrow> int \<Rightarrow> (world, unit result) state" where
  "NotificationStore_UpdateStatus E i status hubResponse attempts =
     rows_or_not_found ''notification_store.UpdateStatus''
       (pg E (update_notifications E i status hubResponse attempts))"

definition NotificationStore_GetByID :: "env \<Rightarrow> uuid \<Rightarrow> (world, notification_log result) state" where
  "NotificationStore_GetByID E i =
     wrapped ''notification_store.GetByID''
       (pg E (query (\<lambda>t d. first_row (filter (\<lambda>n. n_id n = uuid_text E i) (notification_logs d)))))"

definition pending_retry :: "int \<Rightarrow> notification_log \<Rightarrow> bool" where
  "pending_retry maxAttempts n \<longleftrightarrow>
     (n_status n = ''failed'' \<or> n_status n = ''retrying'') \<and> n_attempts n < maxAttempts"

definition ListPendingRetries :: "env \<Rightarrow> int \<Rightarrow> (world, notification_log list result) state" where
  "ListPendingRetries E maxAttempts =
     wrapped ''notification_store.ListPendingRetries'' (pg E (query (\<lambda>t d.
       if \<not> int4 maxAttempts then rejected E t
       else Inr (sort_key n_created_at (rows E t (filter (pending_retry maxAttempts) (notification_logs d)))))))"

text \<open>The Go method returns \<open>nil, nil\<close> when there is no row: \<open>Inr None\<close>.\<close>

definition GetByRuleAndDiscrepancy ::
  "env \<Rightarrow> uuid \<Rightarrow> uuid \<Rightarrow> (world, notification_log option result) state" where
  "GetByRuleAndDiscrepancy E rule disc = do {
     r \<leftarrow> pg E (query (\<lambda>t d. first_row (rows E t (filter (\<lambda>n.
            n_escalation_rule_id n = Some (uuid_text E rule) \<and> n_discrepancy_id n = uuid_text E disc)
            (notification_logs d)))));
     ret (case r of
            Inl ErrNoRows \<Rightarrow> Inr None
          | Inl e \<Rightarrow> Inl (wrap ''notification_store.GetByRuleAndDiscrepancy'' e)
          | Inr n \<Rightarrow> Inr (Some n))
   }"

section \<open>Numbered arguments\<close>

text \<open>
  The arguments of a statement whose text is built dynamically; the placeholder \<open>$i\<close> stands for
  argument number \<open>i\<close>, counting from 1.
\<close>

datatype sql_arg = AText string | AInt int | ABool bool | AJson jobject | AUuid uuid | ATime gotime

definition arg_at :: "sql_arg list \<Rightarrow> nat \<Rightarrow> sql_arg option" where
  "arg_at args i = (if 1 \<le> i \<and> i \<le> length args then Some (args ! (i - 1)) else None)"

fun arg_ok :: "sql_arg \<Rightarrow> bool" where
  "arg_ok (AText s) = text_ok s"
| "arg_ok (AInt i) = int4 i"
| "arg_ok (ABool b) = True"
| "arg_ok (AJson m) = jsonb_ok m"
| "arg_ok (AUuid u) = True"
| "arg_ok (ATime x) = True"

section \<open>Reading keeps every relation between tables\<close>

context table_relation begin

lemma io_read_discrepancies:
  "state_io_rel (db_rel R) (DiscrepancyStore_GetByID E tid i)"
  "state_io_rel (db_rel R) (GetByIDWith E c tid i)"
  "state_io_rel (db_rel R) (GetByExternalID E tid ext)"
  "state_io_rel (db_rel R) (ListForEscalation E tid status sev cutoff)"
  "state_io_rel (db_rel R) (ListAllResolvedSince E since)"
  unfolding DiscrepancyStore_GetByID_def GetByIDWith_def GetByExternalID_def ListForEscalation_def
    ListAllResolvedSince_def
  by (intro io_wrapped io_query)+

lemma io_read_events:
  "state_io_rel (db_rel R) (ListByDiscrepancy E tid i)"
  "state_io_rel (db_rel R) (GetLatestSequenceWith E c tid i)"
  "state_io_rel (db_rel R) (GetLatestSequence E tid i)"
  "state_io_rel (db_rel R) (ExistsForDiscrepancy E tid i ty)"
  "state_io_rel (db_rel R) (CountByType E tid)"
  "state_io_rel (db_rel R) (NewLedgerEvent E ten disc ty actor aty payload)"
  unfolding ListByDiscrepancy_def GetLatestSequenceWith_def GetLatestSequence_def
    ExistsForDiscrepancy_def CountByType_def NewLedgerEvent_def
  by (intro io_basic)+

lemma io_read_notifications:
  "state_io_rel (db_rel R) (NotificationStore_GetByID E i)"
  "state_io_rel (db_rel R) (ListPendingRetries E m)"
  "state_io_rel (db_rel R) (GetByRuleAndDiscrepancy E rule disc)"
  unfolding NotificationStore_GetByID_def ListPendingRetries_def GetByRuleAndDiscrepancy_def
  by (intro io_basic)+

lemma io_transactions:
  "state_io_rel (db_rel R) (tx_begin E)" "state_io_rel (db_rel R) (tx_commit E)"
  unfolding tx_begin_def tx_commit_def by (intro io_query)+

lemmas io_reads = io_read_discrepancies io_read_events io_read_notifications io_transactions

end

end
