(* ===== verification/GoText.thy ===== *)
theory GoText
  imports Json
begin

text \<open>
  Functions of Go's standard library that the configuration, the middleware and the handlers apply
  to strings: \<open>strings.TrimSpace\<close>, \<open>strings.SplitN\<close> at a comma, \<open>net.SplitHostPort\<close>,
  \<open>hex.EncodeToString\<close>, \<open>strconv.Atoi\<close> and \<open>strconv.ParseBool\<close>. Strings are lists of bytes.
\<close>

section \<open>Trimming\<close>

text \<open>The UTF-8 encodings of the runes that \<open>unicode.IsSpace\<close> accepts.\<close>

definition space_runes :: "string list" where
  "space_runes =
     [[CHR 0x09], [CHR 0x0A], [CHR 0x0B], [CHR 0x0C], [CHR 0x0D], [CHR 0x20],
      [CHR 0xC2, CHR 0x85], [CHR 0xC2, CHR 0xA0], [CHR 0xE1, CHR 0x9A, CHR 0x80],
      [CHR 0xE2, CHR 0x80, CHR 0x80], [CHR 0xE2, CHR 0x80, CHR 0x81], [CHR 0xE2, CHR 0x80, CHR 0x82],
      [CHR 0xE2, CHR 0x80, CHR 0x83], [CHR 0xE2, CHR 0x80, CHR 0x84], [CHR 0xE2, CHR 0x80, CHR 0x85],
      [CHR 0xE2, CHR 0x80, CHR 0x86], [CHR 0xE2, CHR 0x80, CHR 0x87], [CHR 0xE2, CHR 0x80, CHR 0x88],
      [CHR 0xE2, CHR 0x80, CHR 0x89], [CHR 0xE2, CHR 0x80, CHR 0x8A], [CHR 0xE2, CHR 0x80, CHR 0xA8],
      [CHR 0xE2, CHR 0x80, CHR 0xA9], [CHR 0xE2, CHR 0x80, CHR 0xAF], [CHR 0xE2, CHR 0x81, CHR 0x9F],
      [CHR 0xE3, CHR 0x80, CHR 0x80]]"

text \<open>Drops prefixes of \<open>s\<close> that are in the list \<open>ps\<close>, as long as there is one.\<close>

function drop_prefixes :: "string list \<Rightarrow> string \<Rightarrow> string" where
  "drop_prefixes ps s =
     (case find (\<lambda>p. p \<noteq> [] \<and> starts_with p s) ps of
        None \<Rightarrow> s
      | Some p \<Rightarrow> drop_prefixes ps (drop (length p) s))"
  by pat_completeness auto

termination
proof (relation "measure (\<lambda>(ps, s). length s)", goal_cases)
  case (2 ps s p)
  then have "p \<noteq> []" and "take (length p) s = p"
    by (auto simp: find_Some_iff starts_with_def)
  then have "0 < length p \<and> s \<noteq> []" by auto
  then show ?case by simp
qed simp

declare drop_prefixes.simps [simp del]

definition TrimSpace :: "string \<Rightarrow> string" where
  "TrimSpace s = rev (drop_prefixes (map rev space_runes) (rev (drop_prefixes space_runes s)))"

lemma drop_prefixes_suffix: "\<exists>k. drop_prefixes ps s = drop k s"
proof (induction ps s rule: drop_prefixes.induct)
  case (1 ps s)
  show ?case
  proof (cases "find (\<lambda>p. p \<noteq> [] \<and> starts_with p s) ps")
    case None
    then show ?thesis by (subst drop_prefixes.simps) (auto intro: exI [of _ 0])
  next
    case (Some p)
    with 1 obtain k where "drop_prefixes ps (drop (length p) s) = drop k (drop (length p) s)" by blast
    with Some show ?thesis by (subst drop_prefixes.simps) auto
  qed
qed

lemma length_TrimSpace: "length (TrimSpace s) \<le> length s"
proof -
  have "length (drop_prefixes ps u) \<le> length u" for ps u
    using drop_prefixes_suffix [of ps u] by auto
  then show ?thesis unfolding TrimSpace_def by (metis length_rev order_trans)
qed

text \<open>Nothing is left to trim at the front.\<close>

lemma drop_prefixes_done: "p \<in> set ps \<Longrightarrow> p \<noteq> [] \<Longrightarrow> \<not> starts_with p (drop_prefixes ps s)"
proof (induction ps s rule: drop_prefixes.induct)
  case (1 ps s)
  then show ?case
    by (subst drop_prefixes.simps) (auto simp: find_None_iff split: option.split)
qed

section \<open>Splitting\<close>

text \<open>\<open>strings.SplitN(s, ",", 2)[0]\<close>.\<close>

definition before_comma :: "string \<Rightarrow> string" where
  "before_comma s = takeWhile (\<lambda>c. c \<noteq> CHR '','') s"

text \<open>The index of the first and of the last occurrence of a byte.\<close>

definition index_byte :: "char \<Rightarrow> string \<Rightarrow> nat option" where
  "index_byte c s = (let k = length (takeWhile (\<lambda>x. x \<noteq> c) s) in if k < length s then Some k else None)"

definition last_index_byte :: "char \<Rightarrow> string \<Rightarrow> nat option" where
  "last_index_byte c s = map_option (\<lambda>k. length s - 1 - k) (index_byte c (rev s))"

text \<open>\<open>net.SplitHostPort\<close>: the host, or \<open>None\<close> on an error.\<close>

definition split_host :: "string \<Rightarrow> string option" where
  "split_host hostport =
     (case last_index_byte (CHR '':'') hostport of
        None \<Rightarrow> None
      | Some i \<Rightarrow>
          if hostport ! 0 = CHR ''[''
          then (case index_byte (CHR '']'') hostport of
              None \<Rightarrow> None
            | Some e \<Rightarrow>
                if e + 1 = length hostport then None
                else if e + 1 \<noteq> i then None
                else if index_byte (CHR ''['') (drop 1 hostport) \<noteq> None then None
                else if index_byte (CHR '']'') (drop (e + 1) hostport) \<noteq> None then None
                else Some (drop 1 (take e hostport)))
          else if index_byte (CHR '':'') (take i hostport) \<noteq> None then None
          else if index_byte (CHR ''['') hostport \<noteq> None then None
          else if index_byte (CHR '']'') hostport \<noteq> None then None
          else Some (take i hostport))"

section \<open>Numbers and booleans\<close>

definition is_digit :: "char \<Rightarrow> bool" where
  "is_digit c \<longleftrightarrow> c \<in> set ''0123456789''"

definition digit_val :: "char \<Rightarrow> int" where
  "digit_val c = int (of_char c) - 48"

definition digits_val :: "string \<Rightarrow> int" where
  "digits_val s = foldl (\<lambda>n c. 10 * n + digit_val c) 0 s"

text \<open>
  \<open>strconv.Atoi\<close> on a 64-bit platform: an optional sign, at least one decimal digit and nothing else,
  in the range of \<open>int\<close>.
\<close>

definition Atoi :: "string \<Rightarrow> int option" where
  "Atoi s =
     (let neg = (s \<noteq> [] \<and> s ! 0 = CHR ''-'');
          ds = (if s \<noteq> [] \<and> (s ! 0 = CHR ''-'' \<or> s ! 0 = CHR ''+'') then drop 1 s else s)
      in if ds = [] \<or> \<not> list_all is_digit ds then None
         else (let n = (if neg then - digits_val ds else digits_val ds) in
               if - (2 ^ 63) \<le> n \<and> n < 2 ^ 63 then Some n else None))"

definition ParseBool :: "string \<Rightarrow> bool option" where
  "ParseBool s =
     (if s \<in> set [''1'', ''t'', ''T'', ''TRUE'', ''true'', ''True''] then Some True
      else if s \<in> set [''0'', ''f'', ''F'', ''FALSE'', ''false'', ''False''] then Some False
      else None)"

definition hex_digit :: "nat \<Rightarrow> char" where
  "hex_digit n = ''0123456789abcdef'' ! n"

text \<open>\<open>hex.EncodeToString\<close>.\<close>

definition hex_encode :: "string \<Rightarrow> string" where
  "hex_encode s = concat (map (\<lambda>c. [hex_digit (of_char c div 16), hex_digit (of_char c mod 16)]) s)"

lemma length_hex_encode: "length (hex_encode s) = 2 * length s"
  by (induction s) (simp_all add: hex_encode_def)

lemma hex_digit_set: "n < 16 \<Longrightarrow> hex_digit n \<in> set ''0123456789abcdef''"
  unfolding hex_digit_def by (rule nth_mem) simp

lemma set_hex_encode: "set (hex_encode s) \<subseteq> set ''0123456789abcdef''"
proof (induction s)
  case (Cons c s)
  have "(of_char c :: nat) < 256" by simp
  then have "hex_digit (of_char c div 16) \<in> set ''0123456789abcdef''"
    and "hex_digit (of_char c mod 16) \<in> set ''0123456789abcdef''"
    by (intro hex_digit_set; simp add: less_mult_imp_div_less)+
  with Cons show ?case unfolding hex_encode_def by simp
qed (simp add: hex_encode_def)

text \<open>A round trip: \<open>Atoi\<close> reads what \<open>%d\<close> prints.\<close>

lemma digits_val_show_nat: "digits_val (show_nat n) = int n"
proof (induction n rule: show_nat.induct)
  case (1 n)
  have digit: "digit_val (char_of (48 + k)) = int k" if "k < 10" for k
    using that by (simp add: digit_val_def)
  show ?case
  proof (cases "n < 10")
    case True
    then show ?thesis by (simp add: show_nat.simps digits_val_def digit)
  next
    case False
    then have "digits_val (show_nat (n div 10)) = int (n div 10)" using 1 by simp
    then show ?thesis
      using False digit [of "n mod 10"]
      by (simp add: show_nat.simps [of n] digits_val_def) (simp add: of_nat_div of_nat_mod)
  qed
qed

lemma is_digit_char: "k < 10 \<Longrightarrow> is_digit (char_of (48 + k :: nat))"
proof -
  assume "k < 10"
  moreover have "list_all (\<lambda>k :: nat. is_digit (char_of (48 + k))) [0..<10]" by code_simp
  ultimately show ?thesis by (simp add: list_all_iff)
qed

lemma show_nat_digits: "list_all is_digit (show_nat n) \<and> show_nat n \<noteq> []"
proof (induction n rule: show_nat.induct)
  case (1 n)
  then show ?case by (subst (1 2) show_nat.simps) (auto simp: is_digit_char)
qed

end
