(* ===== verification/Http.thy ===== *)
theory Http
  imports World GoText
begin

text \<open>
  HTTP requests and responses as the handlers and the middleware see them: the response helpers of
  \<open>internal/api/handlers/errors.go\<close>, the request context of \<open>internal/ctxutil\<close>, the parsing of the
  tenant and of URL parameters in \<open>rules.go\<close>, and the memory of the process. Routing and the parsing of HTTP are \<open>chi\<close> and \<open>net/http\<close>.
\<close>

section \<open>Requests\<close>

text \<open>
  \<open>ctx_tenant\<close> and \<open>ctx_request_id\<close> are the values of the request context under the two keys of
  \<open>ctxutil\<close> (absent is the empty string, which is what the accessors make of it), \<open>url_id\<close> is the URL
  parameter \<open>id\<close>, \<open>url_query\<close> the parsed query, \<open>headers\<close> the headers by canonical name, \<open>body\<close> the
  JSON value of the body, \<open>None\<close> when it is not JSON, and \<open>body_read\<close> how many bytes a decoder reads
  until it has the first value of the body.
\<close>

record request =
  ctx_tenant :: string
  url_id :: string
  url_query :: "(string \<times> string) list"
  body :: "json option"
  ctx_request_id :: string
  headers :: "(string \<times> string) list"
  RemoteAddr :: string
  Method :: string
  URL_Path :: string
  body_read :: nat

definition GetTenantID :: "request \<Rightarrow> string" where
  "GetTenantID r = ctx_tenant r"

definition SetTenantID :: "request \<Rightarrow> string \<Rightarrow> request" where
  "SetTenantID r tenantID = r\<lparr>ctx_tenant := tenantID\<rparr>"

definition GetRequestID :: "request \<Rightarrow> string" where
  "GetRequestID r = ctx_request_id r"

definition SetRequestID :: "request \<Rightarrow> string \<Rightarrow> request" where
  "SetRequestID r requestID = r\<lparr>ctx_request_id := requestID\<rparr>"

text \<open>\<open>r.Header.Get\<close> and \<open>r.URL.Query().Get\<close>: the first value, or the empty string.\<close>

definition first_value :: "(string \<times> string) list \<Rightarrow> string \<Rightarrow> string" where
  "first_value kvs k = (case map_of kvs k of None \<Rightarrow> [] | Some v \<Rightarrow> v)"

definition Header_Get :: "request \<Rightarrow> string \<Rightarrow> string" where
  "Header_Get r k = first_value (headers r) k"

definition Query_Get :: "request \<Rightarrow> string \<Rightarrow> string" where
  "Query_Get r k = first_value (url_query r) k"

section \<open>Responses\<close>

text \<open>
  \<open>RespondError(w, status, code, message)\<close>, \<open>RespondJSON(w, status, data)\<close>, or a panic in the
  handler, which \<open>chi\<close>'s \<open>Recoverer\<close> answers.
\<close>

datatype 'b response = Error nat string string | Reply nat 'b | Panic

definition RespondError :: "nat \<Rightarrow> string \<Rightarrow> string \<Rightarrow> 'b response" where
  "RespondError status code message = Error status code message"

definition RespondJSON :: "nat \<Rightarrow> 'b \<Rightarrow> 'b response" where
  "RespondJSON status data = Reply status data"

definition parseTenantID :: "env \<Rightarrow> request \<Rightarrow> 'b response + uuid" where
  "parseTenantID E r =
     (let tenantID = GetTenantID r in
      if tenantID = [] then Inl (RespondError 401 ''MISSING_TENANT'' ''Tenant ID not found in context'')
      else case uuid_parse E tenantID of
        None \<Rightarrow> Inl (RespondError 400 ''INVALID_TENANT'' ''Invalid tenant ID format'')
      | Some tid \<Rightarrow> Inr tid)"

text \<open>The context names the tenant \<open>tid\<close>.\<close>

definition tenant_of :: "env \<Rightarrow> request \<Rightarrow> uuid \<Rightarrow> bool" where
  "tenant_of E r tid \<longleftrightarrow> ctx_tenant r \<noteq> [] \<and> uuid_parse E (ctx_tenant r) = Some tid"

lemma parseTenantID_Inr: "parseTenantID E r = Inr tid \<longleftrightarrow> tenant_of E r tid"
  by (auto simp: parseTenantID_def tenant_of_def GetTenantID_def Let_def split: option.splits)

lemma parseTenantID_of [simp]: "tenant_of E r tid \<Longrightarrow> parseTenantID E r = Inr tid"
  by (simp add: parseTenantID_Inr)

text \<open>The parameter is \<open>id\<close> in every call.\<close>

definition parseURLParamUUID :: "env \<Rightarrow> request \<Rightarrow> 'b response + uuid" where
  "parseURLParamUUID E r =
     (case uuid_parse E (url_id r) of
        None \<Rightarrow> Inl (RespondError 400 ''INVALID_ID'' ''Invalid id format'')
      | Some i \<Rightarrow> Inr i)"

section \<open>The memory of the process\<close>

record ipRecord =
  ip_count :: int
  windowEnd :: gotime

record tenantCacheEntry =
  c_tenantID :: string
  c_isActive :: bool
  cachedAt :: gotime

text \<open>
  A line of the access log, and the process: the backend, the tables of the middleware, the files of
  the reports, the goroutines the report handler started, and the access log.
\<close>

record log_entry =
  l_method :: string
  l_path :: string
  l_status :: nat
  l_tenant :: string
  l_request_id :: string

record server =
  backend :: world
  limiter :: "string \<Rightarrow> ipRecord option"
  tenant_cache :: "string \<Rightarrow> tenantCacheEntry option"
  stored_files :: "string \<Rightarrow> string option"
  started_jobs :: "(uuid \<times> report) list"
  access_log :: "log_entry list"

text \<open>Running a program of the world inside the process.\<close>

definition on_backend :: "(world, 'a) state \<Rightarrow> (server, 'a) state" where
  "on_backend m = State (\<lambda>s. case run_state m (backend s) of (x, w) \<Rightarrow> (x, s\<lparr>backend := w\<rparr>))"

lemma run_on_backend [simp]:
  "run_state (on_backend m) s =
     (fst (run_state m (backend s)), s\<lparr>backend := snd (run_state m (backend s))\<rparr>)"
  by (simp add: on_backend_def split_beta)

type_synonym 'b handler = "request \<Rightarrow> (server, 'b response) state"

text \<open>A handler that keeps no state of its own.\<close>

definition plain :: "(request \<Rightarrow> (world, 'b response) state) \<Rightarrow> 'b handler" where
  "plain h r = on_backend (h r)"

end
