(* ===== verification/Samples.thy ===== *)
theory Samples
  imports Http
begin

text \<open>
  A concrete outside and small concrete tables, on which the properties are instantiated: an
  environment in which nothing fails, identifiers are printed in decimal, and the clock advances
  one second with each call; one that fails at chosen ticks; one tenant with one discrepancy.
\<close>

definition read_nat :: "string \<Rightarrow> nat" where
  "read_nat s = foldl (\<lambda>n c. 10 * n + (of_char c - 48)) 0 s"

lemma read_show_nat: "read_nat (show_nat n) = n"
proof (induction n rule: show_nat.induct)
  case (1 n)
  have digit: "(of_char (char_of (48 + k) :: char) :: nat) = 48 + k" if "k < 10" for k :: nat
    using that by simp
  show ?case
  proof (cases "n < 10")
    case True
    then show ?thesis by (simp add: show_nat.simps read_nat_def digit del: of_char_of)
  next
    case False
    then show ?thesis
      using 1 digit [of "n mod 10"] by (simp add: show_nat.simps [of n] read_nat_def del: of_char_of)
  qed
qed

definition text_of_uuid :: "uuid \<Rightarrow> string" where
  "text_of_uuid u = show_nat (unat u)"

lemma text_of_uuid_code [code]: "text_of_uuid u = show_pos (uint u)"
  by (simp add: text_of_uuid_def show_pos_int [symmetric])

definition uuid_of_text :: "string \<Rightarrow> uuid option" where
  "uuid_of_text s =
     (if s \<noteq> [] \<and> list_all (\<lambda>c. 48 \<le> (of_char c :: nat) \<and> (of_char c :: nat) \<le> 57) s
      then Some (word_of_nat (read_nat s)) else None)"

lemma digits_show_nat: "list_all (\<lambda>c. 48 \<le> (of_char c :: nat) \<and> (of_char c :: nat) \<le> 57) (show_nat n)"
proof (induction n rule: show_nat.induct)
  case (1 n)
  then show ?case by (subst show_nat.simps) auto
qed

lemma show_nat_not_Nil [simp]: "show_nat n \<noteq> []"
  by (subst show_nat.simps) simp

lemma uuid_of_text_of_uuid: "uuid_of_text (text_of_uuid u) = Some u"
  by (simp add: uuid_of_text_def text_of_uuid_def digits_show_nat read_show_nat)

definition calm :: env where
  "calm = \<lparr>clock = (\<lambda>t. (1700000000 + int t) * 10 ^ 9), db_fault = (\<lambda>t. False), pg_msg = (\<lambda>t. ''ERROR''),
     gen_uuid = (\<lambda>t. word_of_nat (1000 + t)), uuid_parse = uuid_of_text, uuid_text = text_of_uuid,
     pg_uuid = uuid_of_text, scan_order = (\<lambda>t. []), decimal_col = Some, float_oob = (\<lambda>x. 0),
     ctx_done = (\<lambda>t. False)\<rparr>"

text \<open>The same, but the statements at the given ticks fail.\<close>

definition failing :: "nat list \<Rightarrow> env" where
  "failing ts = calm\<lparr>db_fault := (\<lambda>t. t \<in> set ts)\<rparr>"

lemma codec_calm [simp]: "uuid_codec calm"
  by (simp add: uuid_codec_def calm_def uuid_of_text_of_uuid)

lemma codec_failing [simp]: "uuid_codec (failing ts)"
  by (simp add: uuid_codec_def failing_def calm_def uuid_of_text_of_uuid)

lemma calm_simps [simp]:
  "db_fault calm t = False" "uuid_parse calm = uuid_of_text" "uuid_text calm = text_of_uuid"
  "pg_uuid calm = uuid_of_text" "scan_order calm t = []" "ctx_done calm t = False"
  "gen_uuid calm t = word_of_nat (1000 + t)" "decimal_col calm = Some"
  by (simp_all add: calm_def)

lemma failing_simps [simp]:
  "db_fault (failing ts) t = (t \<in> set ts)" "uuid_parse (failing ts) = uuid_of_text"
  "uuid_text (failing ts) = text_of_uuid" "pg_uuid (failing ts) = uuid_of_text"
  "scan_order (failing ts) t = []" "ctx_done (failing ts) t = False"
  "gen_uuid (failing ts) t = word_of_nat (1000 + t)"
  by (simp_all add: failing_def)

lemma permute_none [simp]: "permute [] xs = xs"
  by (cases xs) (simp_all add: permute_def)

definition acme :: tenant where
  "acme = \<lparr>t_id = text_of_uuid 5, t_name = ''Acme'', t_api_key = ''key'', t_is_active = True,
     t_settings = None, t_created_at = 0, t_updated_at = 0\<rparr>"

definition sample_row :: "string \<Rightarrow> gotime option \<Rightarrow> discrepancy" where
  "sample_row st res =
     \<lparr>d_id = text_of_uuid 7, d_tenant_id = text_of_uuid 5, d_external_id = ''ext-1'',
      d_source_system = ''bank'', d_discrepancy_type = TypeMismatch, d_severity = SeverityHigh,
      d_status = st, d_title = ''T'', d_description = None, d_amount_expected = None,
      d_amount_actual = None, d_currency = ''EUR'', d_metadata = None, d_first_detected_at = 0,
      d_resolved_at = res, d_created_at = 0, d_updated_at = 0\<rparr>"

definition sample_db :: "discrepancy list \<Rightarrow> ledger_event list \<Rightarrow> database" where
  "sample_db ds es =
     \<lparr>tenants = [acme], discrepancies = ds, ledger_events = es, event_seq = 1 + int (length es),
      escalation_rules = [], reports = [], notification_logs = []\<rparr>"

definition sample_world :: "database \<Rightarrow> world" where
  "sample_world d = \<lparr>db = d, tick = 0, sql_errors = 0, posts = [], sleeps = [], replies = []\<rparr>"

lemma sample_world_simps [simp]:
  "db (sample_world d) = d" "tick (sample_world d) = 0" "sql_errors (sample_world d) = 0"
  "posts (sample_world d) = []" "sleeps (sample_world d) = []" "replies (sample_world d) = []"
  by (simp_all add: sample_world_def)

lemma text_of_uuid_simps [simp]:
  "text_of_uuid 5 = ''5''" "text_of_uuid 7 = ''7''"
  by (simp_all add: text_of_uuid_def show_nat.simps, code_simp+)

lemma uuid_of_text_simps [simp]:
  "uuid_of_text ''5'' = Some 5" "uuid_of_text ''7'' = Some 7"
  by (simp_all add: uuid_of_text_def read_nat_def of_char_def)

definition sample_rule :: "string \<Rightarrow> string \<Rightarrow> int \<Rightarrow> escalation_rule" where
  "sample_rule status action hrs =
     \<lparr>r_id = text_of_uuid 7, r_tenant_id = text_of_uuid 5, r_name = ''rule'', r_severity_match = ''*'',
      r_trigger_after_hrs = hrs, r_trigger_status = status, r_action = action, r_action_config = None,
      r_is_active = True, r_priority = 0, r_created_at = 0, r_updated_at = 0\<rparr>"

definition sample_notification :: "string \<Rightarrow> int \<Rightarrow> notification_log" where
  "sample_notification status attempts =
     \<lparr>n_id = text_of_uuid 7, n_tenant_id = text_of_uuid 5, n_discrepancy_id = text_of_uuid 7,
      n_escalation_rule_id = Some (text_of_uuid 7), n_channel = ChannelInApp,
      n_recipient = ''escalation-engine'', n_status = status, n_hub_response = None,
      n_attempts = attempts, n_last_attempt_at = None, n_created_at = 0, n_updated_at = 0\<rparr>"

definition sample_server :: "database \<Rightarrow> server" where
  "sample_server d = \<lparr>backend = sample_world d, limiter = Map.empty, tenant_cache = Map.empty,
     stored_files = Map.empty, started_jobs = [], access_log = []\<rparr>"

definition header_request :: "string \<Rightarrow> string \<Rightarrow> request" where
  "header_request k v =
     \<lparr>ctx_tenant = [], url_id = [], url_query = [], body = None, ctx_request_id = [], headers = [(k, v)],
      RemoteAddr = ''10.0.0.1:4711'', Method = ''GET'', URL_Path = [], body_read = 0\<rparr>"

text \<open>A request without a header, of the given tenant.\<close>

definition sample_get :: "string \<Rightarrow> request" where
  "sample_get tenantID = (header_request [] [])\<lparr>ctx_tenant := tenantID\<rparr>"

lemma sample_server_simps [simp]:
  "backend (sample_server d) = sample_world d" "limiter (sample_server d) = Map.empty"
  "tenant_cache (sample_server d) = Map.empty"
  by (simp_all add: sample_server_def)

lemma header_request_Get [simp]: "Header_Get (header_request k v) k' = (if k' = k then v else [])"
  by (simp add: Header_Get_def header_request_def first_value_def)

end
