(* ===== verification/Ledger.thy ===== *)
theory Ledger
  imports Stores Samples
begin

text \<open>
  What the tables keep: the relations and invariants the properties of the development speak
  about, and what each store operation does to them, one lemma per operation and outcome. The
  handlers and the engine are proved over these facts, never over the statements.
\<close>

section \<open>Outcomes of the store operations\<close>

lemma run_wrapped:
  "run_state (wrapped ctx m) w =
     (case run_state m w of (r, w') \<Rightarrow> (case r of Inl e \<Rightarrow> Inl (wrap ctx e) | Inr x \<Rightarrow> Inr x, w'))"
  by (simp add: wrapped_def)

lemma run_query_db: "run_state (pg E (query f)) w = (r, w') \<Longrightarrow> db w' = db w"
  by (auto simp: run_pg query_def split: if_splits)

lemma wrapped_query_db: "run_state (wrapped ctx (pg E (query f))) w = (r, w') \<Longrightarrow> db w' = db w"
  by (auto simp: run_wrapped dest!: run_query_db split: prod.splits)

lemma wrapped_query_Inr:
  "run_state (wrapped ctx (pg E (query f))) w = (Inr x, w') \<Longrightarrow>
     db w' = db w \<and> f (tick w) (db w) = Inr x \<and> \<not> db_fault E (tick w)"
  by (auto simp: run_wrapped run_pg query_def split: prod.splits sum.splits if_splits)

lemma GetByIDWith_Inl: "run_state (GetByIDWith E c tid i) w = (Inl e, w') \<Longrightarrow> db w' = db w"
  unfolding GetByIDWith_def by (rule wrapped_query_db)

lemma GetByIDWith_Inr:
  "run_state (GetByIDWith E c tid i) w = (Inr r, w') \<Longrightarrow>
     db w' = db w \<and> r \<in> set (discrepancies (db w)) \<and> is_row E tid i r"
  unfolding GetByIDWith_def
  by (drule wrapped_query_Inr) (auto simp: discrepancy_by_id_def is_row_def dest: first_row_Inr)

lemma GetByID_Inl: "run_state (DiscrepancyStore_GetByID E tid i) w = (Inl e, w') \<Longrightarrow> db w' = db w"
  unfolding DiscrepancyStore_GetByID_def by (rule wrapped_query_db)

lemma GetByID_Inr:
  "run_state (DiscrepancyStore_GetByID E tid i) w = (Inr r, w') \<Longrightarrow>
     db w' = db w \<and> r \<in> set (discrepancies (db w)) \<and> is_row E tid i r"
  unfolding DiscrepancyStore_GetByID_def
  by (drule wrapped_query_Inr) (auto simp: discrepancy_by_id_def is_row_def dest: first_row_Inr)

text \<open>The rows an update leaves behind.\<close>

definition updated :: "(discrepancy \<Rightarrow> bool) \<Rightarrow> (discrepancy \<Rightarrow> discrepancy) \<Rightarrow> database \<Rightarrow> database" where
  "updated hit f d = d\<lparr>discrepancies := map (\<lambda>r. if hit r then f r else r) (discrepancies d)\<rparr>"

lemma updated_none: "(\<And>r. r \<in> set (discrepancies d) \<Longrightarrow> \<not> hit r) \<Longrightarrow> updated hit f d = d"
  unfolding updated_def by (subst map_idI) auto

lemma update_stmt:
  "update_discrepancies E hit f c t d =
     (if \<forall>x\<in>set (discrepancies d). hit x \<longrightarrow> discrepancy_check (f (now_of E c t) x)
      then (Inr (length (filter hit (discrepancies d))), updated hit (f (now_of E c t)) d)
      else (Inl (ErrText (pg_msg E t)), d))"
  by (auto simp: update_discrepancies_def updated_def rejected_def Let_def)

lemma update_rows_run:
  assumes "run_state (rows_or_not_found ctx (pg E (update_discrepancies E hit f c))) w = (r, w')"
  shows "case r of
      Inl e \<Rightarrow> db w' = db w
    | Inr u \<Rightarrow> (\<exists>now. db w' = updated hit (f now) (db w) \<and>
        (\<forall>x\<in>set (discrepancies (db w)). hit x \<longrightarrow> discrepancy_check (f now x))) \<and>
        (\<exists>x\<in>set (discrepancies (db w)). hit x)"
proof -
  let ?now = "now_of E c (tick w)" and ?old = "filter hit (discrepancies (db w))"
  consider (err) "db_fault E (tick w) \<or> \<not> (\<forall>x\<in>set (discrepancies (db w)). hit x \<longrightarrow> discrepancy_check (f ?now x))"
    | (ok) "\<not> db_fault E (tick w)" "\<forall>x\<in>set (discrepancies (db w)). hit x \<longrightarrow> discrepancy_check (f ?now x)"
    by blast
  then show ?thesis
  proof cases
    case err
    with assms have "(\<exists>e. r = Inl e) \<and> db w' = db w"
      by (auto simp: rows_or_not_found_def run_pg update_stmt split: if_splits)
    then show ?thesis by auto
  next
    case ok
    then have stmt: "run_state (pg E (update_discrepancies E hit f c)) w =
        (Inr (length ?old), w\<lparr>tick := Suc (tick w), db := updated hit (f ?now) (db w)\<rparr>)"
      by (simp add: run_pg update_stmt)
    show ?thesis
    proof (cases "?old = []")
      case True
      then have "updated hit (f ?now) (db w) = db w"
        by (intro updated_none) (simp add: filter_empty_conv)
      with assms stmt True show ?thesis by (auto simp: rows_or_not_found_def)
    next
      case False
      then have "\<exists>x\<in>set (discrepancies (db w)). hit x" by (simp add: filter_empty_conv)
      moreover have "r = Inr ()" and "db w' = updated hit (f ?now) (db w)"
        using assms stmt False by (auto simp: rows_or_not_found_def)
      ultimately show ?thesis using ok(2) by auto
    qed
  qed
qed

lemma UpdateStatusWith_Inl:
  "run_state (UpdateStatusWith E c tid i s res) w = (Inl e, w') \<Longrightarrow> db w' = db w"
  unfolding UpdateStatusWith_def by (drule update_rows_run) simp

lemma UpdateStatusWith_Inr:
  assumes "run_state (UpdateStatusWith E c tid i s res) w = (Inr u, w')"
  obtains now where "db w' = updated (is_row E tid i) (set_status s res now) (db w)"
    and "\<And>x. x \<in> set (discrepancies (db w)) \<Longrightarrow> is_row E tid i x \<Longrightarrow> discrepancy_check (set_status s res now x)"
  using update_rows_run [OF assms [unfolded UpdateStatusWith_def]] by auto

lemma UpdateSeverity_Inl:
  "run_state (UpdateSeverity E tid i s) w = (Inl e, w') \<Longrightarrow> db w' = db w"
  unfolding UpdateSeverity_def by (drule update_rows_run) simp

lemma UpdateSeverity_Inr:
  assumes "run_state (UpdateSeverity E tid i s) w = (Inr u, w')"
  obtains now where "db w' = updated (is_row E tid i) (\<lambda>r. r\<lparr>d_severity := s, d_updated_at := now\<rparr>) (db w)"
    and "\<And>x. x \<in> set (discrepancies (db w)) \<Longrightarrow> is_row E tid i x \<Longrightarrow>
           discrepancy_check (x\<lparr>d_severity := s, d_updated_at := now\<rparr>)"
  using update_rows_run [OF assms [unfolded UpdateSeverity_def]] by auto

text \<open>The tables after an event has been appended.\<close>

definition appended :: "ledger_event \<Rightarrow> database \<Rightarrow> database" where
  "appended e d = d\<lparr>event_seq := event_seq d + 1, ledger_events := ledger_events d @ [e]\<rparr>"

lemma appended_simps [simp]:
  "ledger_events (appended e d) = ledger_events d @ [e]"
  "event_seq (appended e d) = event_seq d + 1"
  "discrepancies (appended e d) = discrepancies d"
  "tenants (appended e d) = tenants d"
  "escalation_rules (appended e d) = escalation_rules d"
  "notification_logs (appended e d) = notification_logs d"
  "reports (appended e d) = reports d"
  by (simp_all add: appended_def)

lemma updated_simps [simp]:
  "ledger_events (updated hit f d) = ledger_events d"
  "event_seq (updated hit f d) = event_seq d"
  "discrepancies (updated hit f d) = map (\<lambda>r. if hit r then f r else r) (discrepancies d)"
  "tenants (updated hit f d) = tenants d"
  "escalation_rules (updated hit f d) = escalation_rules d"
  "notification_logs (updated hit f d) = notification_logs d"
  "reports (updated hit f d) = reports d"
  by (simp_all add: updated_def)

lemma AppendWith_Inl:
  assumes "run_state (AppendWith E c tid x) w = (Inl e, w')"
  obtains seq where "event_seq (db w) \<le> seq" and "db w' = (db w)\<lparr>event_seq := seq\<rparr>"
proof -
  have "db w' = (db w)\<lparr>event_seq := event_seq (db w)\<rparr> \<or>
        db w' = (db w)\<lparr>event_seq := event_seq (db w) + 1\<rparr>"
    using assms
    by (auto simp: AppendWith_def run_wrapped run_pg insert_event_def rejected_def Let_def
             split: if_splits option.splits)
  then show thesis by (rule disjE) (auto intro: that [of "event_seq (db w)"] that [of "event_seq (db w) + 1"])
qed

lemma AppendWith_Inr:
  assumes "run_state (AppendWith E c tid x) w = (Inr e, w')"
  obtains disc where "pg_uuid E (e_discrepancy_id x) = Some disc"
    and "e = \<lparr>e_id = uuid_text E (gen_uuid E (tick w)), e_tenant_id = uuid_text E tid,
              e_discrepancy_id = uuid_text E disc, e_event_type = e_event_type x, e_actor = e_actor x,
              e_actor_type = e_actor_type x, e_payload = e_payload x,
              e_sequence_num = event_seq (db w), e_created_at = now_of E c (tick w)\<rparr>"
    and "event_insertable (db w) e" and "db w' = appended e (db w)"
  using assms
  by (auto simp: AppendWith_def run_wrapped run_pg insert_event_def rejected_def appended_def Let_def
           split: if_splits option.splits)

lemma run_NewLedgerEvent:
  "run_state (NewLedgerEvent E ten disc ty actor aty payload) w =
     (\<lparr>e_id = uuid_text E (gen_uuid E (tick w)), e_tenant_id = ten, e_discrepancy_id = disc,
       e_event_type = ty, e_actor = actor, e_actor_type = aty, e_payload = payload,
       e_sequence_num = 0, e_created_at = clock E (Suc (tick w))\<rparr>, w\<lparr>tick := Suc (Suc (tick w))\<rparr>)"
  by (simp add: NewLedgerEvent_def)

lemma Create_Inl:
  "run_state (DiscrepancyStore_Create E tid x) w = (Inl e, w') \<Longrightarrow> db w' = db w"
  by (auto simp: DiscrepancyStore_Create_def run_pg insert_discrepancy_def rejected_def Let_def
           split: if_splits option.splits)

lemma Create_Inr:
  assumes "run_state (DiscrepancyStore_Create E tid x) w = (Inr row, w')"
  shows "db w' = (db w)\<lparr>discrepancies := discrepancies (db w) @ [row]\<rparr> \<and>
         discrepancy_insertable (db w) row \<and> d_id row = uuid_text E (gen_uuid E (tick w)) \<and>
         d_tenant_id row = uuid_text E tid \<and> d_external_id row = d_external_id x \<and>
         d_status row = d_status x \<and> d_resolved_at row = None"
  using assms
  by (auto simp: DiscrepancyStore_Create_def run_pg insert_discrepancy_def rejected_def Let_def
           split: if_splits option.splits)

section \<open>The event log only grows\<close>

definition append_only :: "database \<Rightarrow> database \<Rightarrow> bool" where
  "append_only d d' \<longleftrightarrow> (\<exists>es. ledger_events d' = ledger_events d @ es)"

interpretation append_only: step_preorder append_only
  by unfold_locales (auto simp: append_only_def)

interpretation log: table_relation append_only ..

lemma append_only_same [simp]: "ledger_events d' = ledger_events d \<Longrightarrow> append_only d d'"
  by (simp add: append_only_def)

lemma append_only_appended [simp]: "append_only d (appended e d)"
  by (simp add: append_only_def)

text \<open>The sequence behind \<open>sequence_num\<close> never goes back.\<close>

definition seq_grows :: "database \<Rightarrow> database \<Rightarrow> bool" where
  "seq_grows d d' \<longleftrightarrow> event_seq d \<le> event_seq d'"

interpretation seq_grows: step_preorder seq_grows
  by unfold_locales (auto simp: seq_grows_def)

interpretation sequence: table_relation seq_grows ..

text \<open>The three writes of the transition, the ingestion and the engine, under both relations.\<close>

lemma insert_event_grows:
  "append_only d (snd (insert_event E c tid x t d))" "seq_grows d (snd (insert_event E c tid x t d))"
  by (auto simp: insert_event_def append_only_def seq_grows_def Let_def split: option.splits)

lemma update_discrepancies_grows:
  "append_only d (snd (update_discrepancies E hit f c t d))"
  "seq_grows d (snd (update_discrepancies E hit f c t d))"
  by (auto simp: update_stmt seq_grows_def)

lemma insert_discrepancy_grows:
  "append_only d (snd (insert_discrepancy E tid x t d))" "seq_grows d (snd (insert_discrepancy E tid x t d))"
  by (auto simp: insert_discrepancy_def seq_grows_def Let_def split: option.splits)

section \<open>Invariants of the tables\<close>

text \<open>The constraints of migration 002, as they hold of the whole table.\<close>

definition schema_ok :: "database \<Rightarrow> bool" where
  "schema_ok d \<longleftrightarrow>
     distinct (map d_id (discrepancies d)) \<and>
     distinct (map (\<lambda>r. (d_tenant_id r, d_external_id r)) (discrepancies d)) \<and>
     (\<forall>r\<in>set (discrepancies d). discrepancy_check r \<and> tenant_exists d (d_tenant_id r))"

text \<open>\<open>resolved_at\<close> is set exactly in the terminal statuses.\<close>

definition closed_ok :: "database \<Rightarrow> bool" where
  "closed_ok d \<longleftrightarrow>
     (\<forall>r\<in>set (discrepancies d). terminal (d_status r) \<longleftrightarrow> d_resolved_at r \<noteq> None)"

text \<open>Sequence numbers grow along the log, and every event belongs to a discrepancy of its tenant.\<close>

definition log_ok :: "database \<Rightarrow> bool" where
  "log_ok d \<longleftrightarrow>
     sorted_wrt (<) (map e_sequence_num (ledger_events d)) \<and>
     (\<forall>e\<in>set (ledger_events d). e_sequence_num e < event_seq d \<and>
        (\<exists>r\<in>set (discrepancies d). d_id r = e_discrepancy_id e \<and> d_tenant_id r = e_tenant_id e))"

text \<open>The history of a discrepancy, and: every status is what its history replays to.\<close>

definition history :: "database \<Rightarrow> string \<Rightarrow> ledger_event list" where
  "history d i = filter (\<lambda>e. e_discrepancy_id e = i) (ledger_events d)"

definition consistent :: "database \<Rightarrow> bool" where
  "consistent d \<longleftrightarrow> (\<forall>r\<in>set (discrepancies d). replay (history d (d_id r)) = Some (d_status r))"

definition ledger_inv :: "database \<Rightarrow> bool" where
  "ledger_inv d \<longleftrightarrow> schema_ok d \<and> closed_ok d \<and> log_ok d \<and> consistent d"

lemma history_appended [simp]:
  "history (appended e d) i = (if e_discrepancy_id e = i then history d i @ [e] else history d i)"
  by (simp add: history_def)

lemma history_updated [simp]: "history (updated hit f d) i = history d i"
  by (simp add: history_def)

lemma tenant_exists_frame [simp]:
  "tenant_exists (appended e d) t = tenant_exists d t"
  "tenant_exists (updated hit f d) t = tenant_exists d t"
  "tenant_exists (d\<lparr>discrepancies := ds\<rparr>) t = tenant_exists d t"
  "tenant_exists (d\<lparr>event_seq := seq\<rparr>) t = tenant_exists d t"
  by (simp_all add: tenant_exists_def)

text \<open>The invariants do not look at the sequence's next value, except for its lower bound.\<close>

lemma ledger_inv_seq:
  assumes "ledger_inv d" and "event_seq d \<le> seq"
  shows "ledger_inv (d\<lparr>event_seq := seq\<rparr>)"
  using assms
  by (auto simp: ledger_inv_def schema_ok_def closed_ok_def log_ok_def consistent_def history_def)

lemma schema_ok_updated:
  assumes "schema_ok d"
    and "\<And>r. r \<in> set (discrepancies d) \<Longrightarrow> hit r \<Longrightarrow> discrepancy_check (f r)"
    and "\<And>r. d_id (f r) = d_id r \<and> d_tenant_id (f r) = d_tenant_id r \<and> d_external_id (f r) = d_external_id r"
  shows "schema_ok (updated hit f d)"
proof -
  have ids: "map d_id (discrepancies (updated hit f d)) = map d_id (discrepancies d)"
    and exts: "map (\<lambda>r. (d_tenant_id r, d_external_id r)) (discrepancies (updated hit f d)) =
         map (\<lambda>r. (d_tenant_id r, d_external_id r)) (discrepancies d)"
    using assms(3) by simp_all
  have "discrepancy_check r \<and> tenant_exists (updated hit f d) (d_tenant_id r)"
    if "r \<in> set (discrepancies (updated hit f d))" for r
    using that assms by (auto simp: schema_ok_def)
  then show ?thesis
    using assms(1) unfolding schema_ok_def ids exts by blast
qed

lemma log_ok_updated:
  assumes "log_ok d"
    and f: "\<And>r. d_id (f r) = d_id r \<and> d_tenant_id (f r) = d_tenant_id r"
  shows "log_ok (updated hit f d)"
proof -
  have "\<exists>r\<in>set (discrepancies (updated hit f d)). d_id r = i \<and> d_tenant_id r = t"
    if "\<exists>r\<in>set (discrepancies d). d_id r = i \<and> d_tenant_id r = t" for i t
  proof -
    from that obtain r where r: "r \<in> set (discrepancies d)" "d_id r = i" "d_tenant_id r = t" by blast
    then have "(if hit r then f r else r) \<in> set (discrepancies (updated hit f d))" by simp
    moreover have "d_id (if hit r then f r else r) = i" "d_tenant_id (if hit r then f r else r) = t"
      using r f by simp_all
    ultimately show ?thesis by blast
  qed
  then show ?thesis using assms(1) unfolding log_ok_def by simp
qed

lemma log_ok_appended:
  assumes "log_ok d" and "e_sequence_num e = event_seq d"
    and "r \<in> set (discrepancies d)" "d_id r = e_discrepancy_id e" "d_tenant_id r = e_tenant_id e"
  shows "log_ok (appended e d)"
  using assms by (auto simp: log_ok_def sorted_wrt_append intro: less_trans)

lemma schema_ok_appended [simp]: "schema_ok (appended e d) = schema_ok d"
  by (simp add: schema_ok_def)

lemma closed_ok_appended [simp]: "closed_ok (appended e d) = closed_ok d"
  by (simp add: closed_ok_def)

lemma closed_ok_updated:
  assumes "closed_ok d"
    and "\<And>r. r \<in> set (discrepancies d) \<Longrightarrow> hit r \<Longrightarrow> terminal (d_status (f r)) \<longleftrightarrow> d_resolved_at (f r) \<noteq> None"
  shows "closed_ok (updated hit f d)"
  using assms by (auto simp: closed_ok_def)

text \<open>In a table with distinct identifiers a row is determined by its identifier.\<close>

lemma same_id:
  "schema_ok d \<Longrightarrow> r \<in> set (discrepancies d) \<Longrightarrow> r' \<in> set (discrepancies d) \<Longrightarrow> d_id r = d_id r' \<Longrightarrow> r = r'"
  by (auto simp: schema_ok_def distinct_map dest: inj_onD)

section \<open>The two writes of a transition, as one\<close>

text \<open>
  A status change and its event together, the step the abstract ledger takes: the row \<open>r\<close> gets the
  status \<open>s\<close> and the log the event \<open>e\<close> that records it.
\<close>

definition transitioned ::
  "env \<Rightarrow> uuid \<Rightarrow> uuid \<Rightarrow> string \<Rightarrow> gotime option \<Rightarrow> gotime \<Rightarrow> ledger_event \<Rightarrow> database \<Rightarrow> database" where
  "transitioned E tid i s res now e d =
     appended e (updated (is_row E tid i) (set_status s res now) d)"

lemma transitioned_inv:
  assumes inv: "ledger_inv d"
    and r: "r \<in> set (discrepancies d)" "is_row E tid i r"
    and step: "ValidTransition (d_status r) s"
    and target: "event_target (e_event_type e) = Some s"
    and e: "e_discrepancy_id e = uuid_text E i" "e_tenant_id e = uuid_text E tid"
           "e_sequence_num e = event_seq d"
    and check: "\<And>x. x \<in> set (discrepancies d) \<Longrightarrow> is_row E tid i x \<Longrightarrow> discrepancy_check (set_status s res now x)"
    and closed: "terminal s \<longleftrightarrow> res \<noteq> None"
  shows "ledger_inv (transitioned E tid i s res now e d)"
proof -
  let ?u = "updated (is_row E tid i) (set_status s res now) d"
  have schema: "schema_ok d" and "closed_ok d" "log_ok d" and cons: "consistent d"
    using inv by (auto simp: ledger_inv_def)
  have "schema_ok ?u"
    by (rule schema_ok_updated [OF schema]) (simp_all add: check, simp add: set_status_def)
  moreover have "closed_ok ?u"
    by (rule closed_ok_updated [OF \<open>closed_ok d\<close>]) (auto simp: set_status_def closed)
  moreover have "log_ok (appended e ?u)"
  proof (rule log_ok_appended)
    show "log_ok ?u" by (rule log_ok_updated [OF \<open>log_ok d\<close>]) (simp add: set_status_def)
    show "e_sequence_num e = event_seq ?u" using e by simp
    show "set_status s res now r \<in> set (discrepancies ?u)" using r by (force simp: image_iff)
    show "d_id (set_status s res now r) = e_discrepancy_id e"
      and "d_tenant_id (set_status s res now r) = e_tenant_id e"
      using r e by (simp_all add: set_status_def is_row_def)
  qed
  moreover have "consistent (appended e ?u)"
    unfolding consistent_def
  proof
    fix x
    assume "x \<in> set (discrepancies (appended e ?u))"
    then obtain y where y: "y \<in> set (discrepancies d)"
      and x: "x = (if is_row E tid i y then set_status s res now y else y)" by auto
    have hist: "replay (history d (d_id y)) = Some (d_status y)"
      using cons y by (auto simp: consistent_def)
    have ids: "d_id x = d_id y" using x by (simp add: set_status_def)
    show "replay (history (appended e ?u) (d_id x)) = Some (d_status x)"
    proof (cases "is_row E tid i y")
      case True
      then have "y = r" using same_id [OF schema y r(1)] r(2) by (simp add: is_row_def)
      with True x ids hist step target e r show ?thesis
        by (simp add: set_status_def is_row_def)
    next
      case False
      have "d_id y \<noteq> uuid_text E i"
        using False same_id [OF schema y r(1)] r(2) by (auto simp: is_row_def)
      with False x ids hist e show ?thesis by simp
    qed
  qed
  ultimately show ?thesis
    by (simp add: ledger_inv_def transitioned_def)
qed

text \<open>An event that records no status change, for a discrepancy that is there.\<close>

lemma appended_inv:
  assumes inv: "ledger_inv d"
    and r: "r \<in> set (discrepancies d)" "d_id r = e_discrepancy_id e" "d_tenant_id r = e_tenant_id e"
    and e: "event_target (e_event_type e) = None" "e_sequence_num e = event_seq d"
  shows "ledger_inv (appended e d)"
proof -
  have "log_ok (appended e d)"
    using inv r e by (intro log_ok_appended) (auto simp: ledger_inv_def)
  moreover have "consistent (appended e d)"
    using inv e by (auto simp: ledger_inv_def consistent_def)
  ultimately show ?thesis using inv by (simp add: ledger_inv_def)
qed

text \<open>A severity change.\<close>

lemma severity_inv:
  assumes inv: "ledger_inv d"
    and "\<And>x. x \<in> set (discrepancies d) \<Longrightarrow> hit x \<Longrightarrow> discrepancy_check (x\<lparr>d_severity := s, d_updated_at := now\<rparr>)"
  shows "ledger_inv (updated hit (\<lambda>r. r\<lparr>d_severity := s, d_updated_at := now\<rparr>) d)"
proof -
  let ?d = "updated hit (\<lambda>r. r\<lparr>d_severity := s, d_updated_at := now\<rparr>) d"
  have "schema_ok ?d" "log_ok ?d" "closed_ok ?d"
    using inv assms(2)
    by (auto simp: ledger_inv_def closed_ok_def intro!: schema_ok_updated log_ok_updated)
  moreover have "consistent ?d"
    using inv by (auto simp: ledger_inv_def consistent_def)
  ultimately show ?thesis by (simp add: ledger_inv_def)
qed

text \<open>A new discrepancy, open and without events.\<close>

lemma created_inv:
  assumes inv: "ledger_inv d" and ins: "discrepancy_insertable d row"
    and row: "d_status row = StatusOpen" "d_resolved_at row = None"
  shows "ledger_inv (d\<lparr>discrepancies := discrepancies d @ [row]\<rparr>)"
proof -
  have new: "\<And>r. r \<in> set (discrepancies d) \<Longrightarrow> d_id r \<noteq> d_id row"
    using ins by (auto simp: discrepancy_insertable_def)
  let ?d = "d\<lparr>discrepancies := discrepancies d @ [row]\<rparr>"
  have "history d (d_id row) = []"
    using inv new by (fastforce simp: history_def filter_empty_conv ledger_inv_def log_ok_def)
  then have "consistent ?d"
    using inv row by (auto simp: ledger_inv_def consistent_def history_def)
  moreover have "closed_ok ?d"
    using inv row by (auto simp: ledger_inv_def closed_ok_def terminal_def go_consts)
  moreover have "log_ok ?d"
    using inv by (auto simp: ledger_inv_def log_ok_def)
  moreover have "schema_ok ?d"
    using inv ins by (auto simp: ledger_inv_def schema_ok_def discrepancy_insertable_def)
  ultimately show ?thesis by (simp add: ledger_inv_def)
qed

end
