(* ===== verification/LedgerSpec.thy ===== *)
theory LedgerSpec
  imports Ledger
begin

text \<open>
  The abstract ledger: the atomic changes of the tables that the service may make, as an inductive
  step relation. The handlers, the ingestion and the engine are shown to make only such steps (the
  refinement), and the invariants are proved once, for the steps.
\<close>

section \<open>The steps\<close>

text \<open>
  \<open>draw\<close>: a statement failed after it drew a sequence value; \<open>create\<close>: a new open discrepancy;
  \<open>append\<close>: an event that does not change a status; \<open>transition\<close>: a status change and its event,
  together; \<open>severity\<close>: a severity change; \<open>elsewhere\<close>: the tables beside the ledger.
\<close>

inductive ledger_step :: "env \<Rightarrow> database \<Rightarrow> database \<Rightarrow> bool" for E where
  draw: "event_seq d \<le> seq \<Longrightarrow> ledger_step E d (d\<lparr>event_seq := seq\<rparr>)"
| create: "discrepancy_insertable d row \<Longrightarrow> d_status row = StatusOpen \<Longrightarrow> d_resolved_at row = None \<Longrightarrow>
     d_id row = uuid_text E u \<Longrightarrow>
     ledger_step E d (d\<lparr>discrepancies := discrepancies d @ [row]\<rparr>)"
| append: "r \<in> set (discrepancies d) \<Longrightarrow> d_id r = e_discrepancy_id e \<Longrightarrow> d_tenant_id r = e_tenant_id e \<Longrightarrow>
     event_target (e_event_type e) = None \<Longrightarrow> e_sequence_num e = event_seq d \<Longrightarrow>
     ledger_step E d (appended e d)"
| transition: "r \<in> set (discrepancies d) \<Longrightarrow> is_row E tid i r \<Longrightarrow> ValidTransition (d_status r) s \<Longrightarrow>
     event_target (e_event_type e) = Some s \<Longrightarrow> e_discrepancy_id e = uuid_text E i \<Longrightarrow>
     e_tenant_id e = uuid_text E tid \<Longrightarrow> e_sequence_num e = event_seq d \<Longrightarrow>
     (\<And>x. x \<in> set (discrepancies d) \<Longrightarrow> is_row E tid i x \<Longrightarrow> discrepancy_check (set_status s res now x)) \<Longrightarrow>
     (terminal s \<longleftrightarrow> res \<noteq> None) \<Longrightarrow>
     ledger_step E d (transitioned E tid i s res now e d)"
| severity: "(\<And>x. x \<in> set (discrepancies d) \<Longrightarrow> is_row E tid i x \<Longrightarrow>
       discrepancy_check (x\<lparr>d_severity := s, d_updated_at := now\<rparr>)) \<Longrightarrow>
     ledger_step E d (updated (is_row E tid i) (\<lambda>r. r\<lparr>d_severity := s, d_updated_at := now\<rparr>) d)"
| elsewhere: "ledger_step E d (d\<lparr>escalation_rules := rs, reports := ps, notification_logs := ns\<rparr>)"

inductive_cases ledger_stepE: "ledger_step E d d'"

abbreviation ledger_steps :: "env \<Rightarrow> database \<Rightarrow> database \<Rightarrow> bool" where
  "ledger_steps E \<equiv> (ledger_step E)\<^sup>*\<^sup>*"

interpretation ledger_steps: step_preorder "ledger_steps E" for E
  by unfold_locales auto

interpretation spec: table_relation "ledger_steps E" for E ..

lemma db_relI:
  assumes "\<And>w out w'. run_state m w = (out, w') \<Longrightarrow> R (db w) (db w')"
  shows "state_io_rel (db_rel R) m"
  unfolding state_io_rel_def db_rel_def using assms by (metis prod.collapse)

lemma one_step: "ledger_step E d d' \<Longrightarrow> ledger_steps E d d'"
  by (rule r_into_rtranclp)

lemma elsewhere_simps:
  "ledger_step E d (d\<lparr>escalation_rules := rs\<rparr>)"
  "ledger_step E d (d\<lparr>reports := ps\<rparr>)"
  "ledger_step E d (d\<lparr>notification_logs := ns\<rparr>)"
  using elsewhere [where E = E and d = d and rs = rs and ps = "reports d" and ns = "notification_logs d"]
    elsewhere [where E = E and d = d and rs = "escalation_rules d" and ps = ps and ns = "notification_logs d"]
    elsewhere [where E = E and d = d and rs = "escalation_rules d" and ps = "reports d" and ns = ns]
  by simp_all

section \<open>The invariants, step by step\<close>

text \<open>The identifiers of the rows are what the server prints for a UUID.\<close>

definition ids_ok :: "env \<Rightarrow> database \<Rightarrow> bool" where
  "ids_ok E d \<longleftrightarrow> (\<forall>r\<in>set (discrepancies d). \<exists>u. d_id r = uuid_text E u)"

definition sound :: "env \<Rightarrow> database \<Rightarrow> bool" where
  "sound E d \<longleftrightarrow> ledger_inv d \<and> ids_ok E d"

lemma ledger_inv_elsewhere:
  "ledger_inv (d\<lparr>escalation_rules := rs, reports := ps, notification_logs := ns\<rparr>) = ledger_inv d"
  by (simp add: ledger_inv_def schema_ok_def closed_ok_def log_ok_def consistent_def history_def
      tenant_exists_def)

lemma step_inv:
  assumes "ledger_step E d d'" and "sound E d"
  shows "sound E d'"
  using assms
proof cases
  case (draw seq)
  then show ?thesis using assms(2) by (simp add: sound_def ids_ok_def ledger_inv_seq)
next
  case (create row u)
  then show ?thesis using assms(2) by (auto simp: sound_def ids_ok_def intro: created_inv)
next
  case (append r e)
  then show ?thesis using assms(2) by (auto simp: sound_def ids_ok_def intro: appended_inv)
next
  case (transition r tid i s e res now)
  then show ?thesis
    using assms(2)
    by (auto simp: sound_def ids_ok_def intro: transitioned_inv) (auto simp: transitioned_def set_status_def)
next
  case (severity tid i s now)
  then show ?thesis using assms(2) by (auto simp: sound_def ids_ok_def intro: severity_inv)
next
  case (elsewhere rs ps ns)
  then show ?thesis using assms(2) by (simp add: sound_def ids_ok_def ledger_inv_elsewhere)
qed

lemma steps_inv: "ledger_steps E d d' \<Longrightarrow> sound E d \<Longrightarrow> sound E d'"
  by (induction rule: rtranclp_induct) (auto intro: step_inv)

lemma step_append_only: "ledger_step E d d' \<Longrightarrow> append_only d d' \<and> seq_grows d d'"
  by (cases rule: ledger_step.cases) (auto simp: append_only_def seq_grows_def transitioned_def)

lemma steps_append_only: "ledger_steps E d d' \<Longrightarrow> append_only d d' \<and> seq_grows d d'"
  by (induction rule: rtranclp_induct)
     (auto dest: step_append_only intro: append_only.step_trans seq_grows.step_trans
       simp: append_only.step_refl seq_grows.step_refl)

section \<open>Rows only move along the machine\<close>

text \<open>
  Every row stays, with its identity, and its status only moves along arrows of \<open>ValidTransition\<close>.
\<close>

definition same_identity :: "discrepancy \<Rightarrow> discrepancy \<Rightarrow> bool" where
  "same_identity r r' \<longleftrightarrow>
     d_id r' = d_id r \<and> d_tenant_id r' = d_tenant_id r \<and> d_external_id r' = d_external_id r \<and>
     d_source_system r' = d_source_system r \<and> d_discrepancy_type r' = d_discrepancy_type r \<and>
     d_title r' = d_title r \<and> d_created_at r' = d_created_at r"

definition follows :: "discrepancy \<Rightarrow> discrepancy \<Rightarrow> bool" where
  "follows r r' \<longleftrightarrow> same_identity r r' \<and> ValidTransition\<^sup>*\<^sup>* (d_status r) (d_status r')"

definition moves :: "database \<Rightarrow> database \<Rightarrow> bool" where
  "moves d d' \<longleftrightarrow> (\<forall>r\<in>set (discrepancies d). \<exists>r'\<in>set (discrepancies d'). follows r r')"

lemma follows_refl [simp]: "follows r r"
  by (simp add: follows_def same_identity_def)

lemma follows_trans: "follows r r' \<Longrightarrow> follows r' r'' \<Longrightarrow> follows r r''"
  by (auto simp: follows_def same_identity_def)

interpretation moves: step_preorder moves
proof
  show "moves s s" for s by (auto simp: moves_def intro: follows_refl)
  show "moves s u" if "moves s t" "moves t u" for s t u
    using that unfolding moves_def by (meson follows_trans)
qed

lemma moves_updated:
  assumes "\<And>r. r \<in> set (discrepancies d) \<Longrightarrow> hit r \<Longrightarrow> follows r (f r)"
  shows "moves d (updated hit f d)"
  unfolding moves_def
proof
  fix r
  assume r: "r \<in> set (discrepancies d)"
  then have "(if hit r then f r else r) \<in> set (discrepancies (updated hit f d))" by simp
  moreover have "follows r (if hit r then f r else r)" using assms r by simp
  ultimately show "\<exists>r'\<in>set (discrepancies (updated hit f d)). follows r r'" by blast
qed

lemma moves_same: "discrepancies d' = discrepancies d @ rs \<Longrightarrow> moves d d'"
  unfolding moves_def by (metis UnI1 follows_refl set_append)

lemma step_moves:
  assumes "ledger_step E d d'" and "sound E d"
  shows "moves d d'"
  using assms(1)
proof cases
  case (transition r tid i s e res now)
  have "moves d (updated (is_row E tid i) (set_status s res now) d)"
  proof (rule moves_updated)
    fix x
    assume "x \<in> set (discrepancies d)" and "is_row E tid i x"
    then have "x = r"
      using assms(2) transition same_id [of d x r] by (auto simp: sound_def ledger_inv_def is_row_def)
    then show "follows x (set_status s res now x)"
      using transition by (auto simp: follows_def same_identity_def set_status_def)
  qed
  then show ?thesis using transition by (simp add: transitioned_def moves_def)
next
  case (severity tid i s now)
  then show ?thesis by (auto simp: follows_def same_identity_def intro!: moves_updated)
qed (auto intro!: moves_same)

lemma steps_moves: "ledger_steps E d d' \<Longrightarrow> sound E d \<Longrightarrow> moves d d'"
  by (induction rule: rtranclp_induct)
     (auto intro: moves.step_trans step_moves steps_inv simp: moves.step_refl)

text \<open>A closed row keeps its status for good.\<close>

lemma terminal_stays: "ValidTransition\<^sup>*\<^sup>* s t \<Longrightarrow> terminal s \<Longrightarrow> t = s"
  by (induction rule: converse_rtranclp_induct) (auto dest: terminal_no_transition)

section \<open>Tenants do not see each other's writes\<close>

definition isolates :: "string \<Rightarrow> database \<Rightarrow> database \<Rightarrow> bool" where
  "isolates t d d' \<longleftrightarrow> tenants d' = tenants d \<and> (\<forall>t'. t' \<noteq> t \<longrightarrow>
     filter (\<lambda>r. d_tenant_id r = t') (discrepancies d') = filter (\<lambda>r. d_tenant_id r = t') (discrepancies d) \<and>
     filter (\<lambda>e. e_tenant_id e = t') (ledger_events d') = filter (\<lambda>e. e_tenant_id e = t') (ledger_events d) \<and>
     filter (\<lambda>r. r_tenant_id r = t') (escalation_rules d') = filter (\<lambda>r. r_tenant_id r = t') (escalation_rules d) \<and>
     filter (\<lambda>r. p_tenant_id r = t') (reports d') = filter (\<lambda>r. p_tenant_id r = t') (reports d))"

interpretation isolates: step_preorder "isolates t" for t
  by unfold_locales (simp_all add: isolates_def)

interpretation isolating: table_relation "isolates t" for t ..

lemma isolates_same [simp]:
  "tenants d' = tenants d \<Longrightarrow> discrepancies d' = discrepancies d \<Longrightarrow> ledger_events d' = ledger_events d \<Longrightarrow>
     escalation_rules d' = escalation_rules d \<Longrightarrow> reports d' = reports d \<Longrightarrow> isolates t d d'"
  by (simp add: isolates_def)

lemma isolates_appended: "e_tenant_id e = t \<Longrightarrow> isolates t d (appended e d)"
  by (simp add: isolates_def)

lemma filter_map_other:
  assumes "\<And>r. P r \<Longrightarrow> \<not> hit r" and "\<And>r. hit r \<Longrightarrow> \<not> P (f r)"
  shows "filter P (map (\<lambda>r. if hit r then f r else r) xs) = filter P xs"
  using assms by (induction xs) auto

lemma isolates_updated:
  assumes "\<And>r. hit r \<Longrightarrow> d_tenant_id r = t" and "\<And>r. d_tenant_id (f r) = d_tenant_id r"
  shows "isolates t d (updated hit f d)"
  unfolding isolates_def using assms by (auto simp: intro!: filter_map_other)

lemma isolating_statements:
  "isolates (uuid_text E tid) d (snd (insert_event E c tid x t d))"
  "isolates (uuid_text E tid) d (snd (insert_discrepancy E tid y t d))"
  "isolates (uuid_text E tid) d (snd (update_discrepancies E (is_row E tid i) (set_status s res) c t d))"
  "isolates (uuid_text E tid) d (snd (update_discrepancies E (is_row E tid i)
     (\<lambda>now r. r\<lparr>d_severity := sev, d_updated_at := now\<rparr>) c t d))"
  "isolates (uuid_text E tid) d (snd (insert_notification E tid disc rule ch rc t d))"
  "isolates u d (snd (update_notifications E n st resp att t d))"
  by (auto simp: update_stmt insert_event_def insert_discrepancy_def insert_notification_def
      update_notifications_def Let_def is_row_def set_status_def isolates_def
      intro!: filter_map_other split: option.split)

lemma isolating_writes:
  "state_io_rel (db_rel (isolates (uuid_text E tid))) (AppendWith E c tid x)"
  "state_io_rel (db_rel (isolates (uuid_text E tid))) (EventStore_Append E tid x)"
  "state_io_rel (db_rel (isolates (uuid_text E tid))) (DiscrepancyStore_Create E tid y)"
  "state_io_rel (db_rel (isolates (uuid_text E tid))) (UpdateStatusWith E c tid i s res)"
  "state_io_rel (db_rel (isolates (uuid_text E tid))) (DiscrepancyStore_UpdateStatus E tid i s res)"
  "state_io_rel (db_rel (isolates (uuid_text E tid))) (UpdateSeverity E tid i sev)"
  "state_io_rel (db_rel (isolates (uuid_text E tid))) (NotificationStore_Create E tid disc rule ch rc)"
  "state_io_rel (db_rel (isolates (uuid_text E tid))) (NotificationStore_UpdateStatus E n st resp att)"
  unfolding AppendWith_def EventStore_Append_def DiscrepancyStore_Create_def UpdateStatusWith_def
    DiscrepancyStore_UpdateStatus_def UpdateSeverity_def NotificationStore_Create_def
    NotificationStore_UpdateStatus_def rows_or_not_found_def
  by (auto intro!: isolating.io_basic isolating.io_pg isolating_statements)

section \<open>Runs without a failed statement\<close>

text \<open>
  The engine changes a status and appends its event in two statements without a transaction, so it
  refines the abstract ledger in the runs in which no statement fails: \<open>quiet\<close> relates two worlds
  when, if the count of failed statements has not grown and the invariant holds before, the tables
  went from one to the other by abstract steps.
\<close>

definition quiet :: "env \<Rightarrow> world \<Rightarrow> world \<Rightarrow> bool" where
  "quiet E w w' \<longleftrightarrow> sql_errors w \<le> sql_errors w' \<and>
     (sql_errors w' = sql_errors w \<longrightarrow> sound E (db w) \<longrightarrow> ledger_steps E (db w) (db w'))"

interpretation quiet: step_preorder "quiet E" for E
proof
  show "quiet E w w" for w by (simp add: quiet_def)
  show "quiet E w w2" if "quiet E w w1" "quiet E w1 w2" for w w1 w2
    using that unfolding quiet_def by (auto dest: steps_inv)
qed

lemma quietI:
  assumes "state_io_rel errors_grow m" and "state_io_rel (db_rel (ledger_steps E)) m"
  shows "state_io_rel (quiet E) m"
  using assms by (auto simp: state_io_rel_def errors_grow_def db_rel_def quiet_def)

text \<open>The store operations count their errors.\<close>

lemma errors_reads:
  "state_io_rel errors_grow (DiscrepancyStore_GetByID E tid i)"
  "state_io_rel errors_grow (ListForEscalation E tid st sev cutoff)"
  "state_io_rel errors_grow (ExistsForDiscrepancy E tid i ty)"
  "state_io_rel errors_grow (GetByRuleAndDiscrepancy E rule disc)"
  "state_io_rel errors_grow (ListPendingRetries E m)"
  unfolding DiscrepancyStore_GetByID_def ListForEscalation_def ExistsForDiscrepancy_def
    GetByRuleAndDiscrepancy_def ListPendingRetries_def
  by (intro errors_rules)+

lemma errors_next_tick: "state_io_rel errors_grow next_tick"
  by (auto simp: state_io_rel_def errors_grow_def)

lemma errors_writes:
  "state_io_rel errors_grow (AppendWith E c tid x)"
  "state_io_rel errors_grow (DiscrepancyStore_UpdateStatus E tid i s res)"
  "state_io_rel errors_grow (UpdateSeverity E tid i sev)"
  "state_io_rel errors_grow (NotificationStore_Create E tid disc rule ch rc)"
  "state_io_rel errors_grow (NotificationStore_UpdateStatus E n st resp att)"
  "state_io_rel errors_grow (NewLedgerEvent E ten d ty actor aty payload)"
  unfolding AppendWith_def DiscrepancyStore_UpdateStatus_def UpdateStatusWith_def UpdateSeverity_def
    NotificationStore_Create_def NotificationStore_UpdateStatus_def rows_or_not_found_def NewLedgerEvent_def
  by (intro errors_rules errors_next_tick)+

lemma AppendWith_Inl_errors:
  "run_state (AppendWith E c tid x) w = (Inl e, w') \<Longrightarrow> sql_errors w < sql_errors w'"
  by (auto simp: AppendWith_def run_wrapped run_pg insert_event_def rejected_def Let_def
      split: if_splits option.splits)

section \<open>The notification log is elsewhere\<close>

lemma notification_steps:
  "state_io_rel (db_rel (ledger_steps E)) (NotificationStore_Create E tid disc rule ch rc)"
  "state_io_rel (db_rel (ledger_steps E)) (NotificationStore_UpdateStatus E n st resp att)"
  "state_io_rel (db_rel (ledger_steps E)) (pg E (insert_notification E tid disc rule ch rc))"
  unfolding NotificationStore_Create_def NotificationStore_UpdateStatus_def rows_or_not_found_def
  by (auto intro!: spec.io_basic spec.io_pg
      simp: insert_notification_def update_notifications_def Let_def elsewhere_simps one_step)

section \<open>Rows beside the one at hand\<close>

definition others :: "string \<Rightarrow> database \<Rightarrow> database \<Rightarrow> bool" where
  "others i d d' \<longleftrightarrow>
     filter (\<lambda>r. d_id r \<noteq> i) (discrepancies d') = filter (\<lambda>r. d_id r \<noteq> i) (discrepancies d)"

interpretation others: step_preorder "others i" for i
  by unfold_locales (simp_all add: others_def)

interpretation beside: table_relation "others i" for i ..

lemma others_in: "others i d d' \<Longrightarrow> d_id r \<noteq> i \<Longrightarrow> r \<in> set (discrepancies d) \<Longrightarrow> r \<in> set (discrepancies d')"
proof -
  assume "others i d d'" "d_id r \<noteq> i" "r \<in> set (discrepancies d)"
  then have "r \<in> set (filter (\<lambda>r. d_id r \<noteq> i) (discrepancies d'))" by (simp add: others_def)
  then show ?thesis by simp
qed

lemma others_same: "discrepancies d' = discrepancies d \<Longrightarrow> others i d d'"
  by (simp add: others_def)

lemma beside_writes:
  "state_io_rel (db_rel (others (uuid_text E i))) (AppendWith E c tid x)"
  "state_io_rel (db_rel (others (uuid_text E i))) (DiscrepancyStore_UpdateStatus E tid i s res)"
  "state_io_rel (db_rel (others (uuid_text E i))) (UpdateSeverity E tid i sev)"
  "state_io_rel (db_rel (others j)) (NotificationStore_Create E tid disc rule ch rc)"
  "state_io_rel (db_rel (others j)) (pg E (insert_notification E tid disc rule ch rc))"
  "state_io_rel (db_rel (others j)) (NotificationStore_UpdateStatus E n st resp att)"
  unfolding AppendWith_def DiscrepancyStore_UpdateStatus_def UpdateStatusWith_def UpdateSeverity_def
    NotificationStore_Create_def NotificationStore_UpdateStatus_def rows_or_not_found_def
  by (auto intro!: beside.io_basic beside.io_pg filter_map_other
      simp: others_def update_stmt insert_event_def insert_notification_def update_notifications_def
        Let_def is_row_def set_status_def split: option.split)

section \<open>The sample tables satisfy the invariant\<close>

lemma sample_row_check: "discrepancy_check (sample_row StatusOpen None)"
  by code_simp

lemma sample_sound:
  "sound calm ((sample_db [sample_row StatusOpen None] [])\<lparr>escalation_rules := rs, notification_logs := ns\<rparr>)"
proof -
  have "ledger_inv (sample_db [sample_row StatusOpen None] [])"
    using sample_row_check
    by (simp add: ledger_inv_def schema_ok_def closed_ok_def log_ok_def consistent_def history_def
        sample_db_def tenant_exists_def acme_def)
       (simp add: sample_row_def)
  then have "ledger_inv ((sample_db [sample_row StatusOpen None] [])\<lparr>escalation_rules := rs,
      reports := reports (sample_db [sample_row StatusOpen None] []), notification_logs := ns\<rparr>)"
    by (simp only: ledger_inv_elsewhere)
  moreover have "\<exists>u. d_id (sample_row StatusOpen None) = text_of_uuid u"
    by (rule exI [of _ 7]) (simp add: sample_row_def)
  ultimately show ?thesis
    by (simp add: sound_def ids_ok_def sample_db_def)
qed

end
