(* ===== verification/RuleStore.thy ===== *)
theory RuleStore
  imports LedgerSpec
begin

text \<open>
  \<open>internal/store/rule_store.go\<close>. The partial update builds its SQL text and its arguments
  dynamically; here a clause \<open>col = $i\<close> is \<open>SetArg col i\<close>, the statement reads the argument with the
  number the clause names, and the theorem below shows that this is the update of exactly the
  fields that are not nil. \<open>json.Marshal\<close> of a decoded map does not fail.
\<close>

section \<open>Create, GetByID, List\<close>

definition insert_rule :: "env \<Rightarrow> uuid \<Rightarrow> escalation_rule \<Rightarrow> escalation_rule stmt" where
  "insert_rule E tid x = (\<lambda>t d.
     let now = clock E t;
         row = \<lparr>r_id = uuid_text E (gen_uuid E t), r_tenant_id = uuid_text E tid, r_name = r_name x,
                r_severity_match = r_severity_match x, r_trigger_after_hrs = r_trigger_after_hrs x,
                r_trigger_status = r_trigger_status x, r_action = r_action x,
                r_action_config = r_action_config x, r_is_active = r_is_active x,
                r_priority = r_priority x, r_created_at = now, r_updated_at = now\<rparr>
     in if rule_insertable d row
        then (Inr row, d\<lparr>escalation_rules := escalation_rules d @ [row]\<rparr>)
        else (rejected E t, d))"

definition RuleStore_Create :: "env \<Rightarrow> uuid \<Rightarrow> escalation_rule \<Rightarrow> (world, escalation_rule result) state" where
  "RuleStore_Create E tid rule = wrapped ''rule_store.Create'' (pg E (insert_rule E tid rule))"

definition is_rule :: "env \<Rightarrow> uuid \<Rightarrow> uuid \<Rightarrow> escalation_rule \<Rightarrow> bool" where
  "is_rule E tid i r \<longleftrightarrow> r_tenant_id r = uuid_text E tid \<and> r_id r = uuid_text E i"

definition RuleStore_GetByID :: "env \<Rightarrow> uuid \<Rightarrow> uuid \<Rightarrow> (world, escalation_rule result) state" where
  "RuleStore_GetByID E tid i =
     wrapped ''rule_store.GetByID''
       (pg E (query (\<lambda>t d. first_row (filter (is_rule E tid i) (escalation_rules d)))))"

text \<open>\<open>ORDER BY priority\<close> says nothing about rules of the same priority.\<close>

definition RuleStore_List :: "env \<Rightarrow> uuid \<Rightarrow> bool \<Rightarrow> (world, escalation_rule list result) state" where
  "RuleStore_List E tid activeOnly =
     wrapped ''rule_store.List'' (pg E (query (\<lambda>t d. Inr (sort_key r_priority (rows E t (filter (\<lambda>r.
       r_tenant_id r = uuid_text E tid \<and> (if activeOnly then r_is_active r else True))
       (escalation_rules d)))))))"

section \<open>The partial update\<close>

datatype set_clause = SetArg string nat | SetNow string

record RuleUpdate =
  u_name :: "string option"
  u_severity_match :: "string option"
  u_trigger_after_hrs :: "int option"
  u_trigger_status :: "string option"
  u_action :: "string option"
  u_action_config :: "jobject option"
  u_is_active :: "bool option"
  u_priority :: "int option"

record setBuilder =
  clauses :: "set_clause list"
  sql_args :: "sql_arg list"
  idx :: nat

definition newSetBuilder :: setBuilder where
  "newSetBuilder = \<lparr>clauses = [], sql_args = [], idx = 1\<rparr>"

definition sb_add :: "string \<Rightarrow> sql_arg \<Rightarrow> setBuilder \<Rightarrow> setBuilder" where
  "sb_add col val b =
     \<lparr>clauses = clauses b @ [SetArg col (idx b)], sql_args = sql_args b @ [val], idx = idx b + 1\<rparr>"

text \<open>\<open>if p != nil { b.add(col, *p) }\<close>.\<close>

definition add_opt :: "string \<Rightarrow> ('a \<Rightarrow> sql_arg) \<Rightarrow> 'a option \<Rightarrow> setBuilder \<Rightarrow> setBuilder" where
  "add_opt col mk p b = (case p of None \<Rightarrow> b | Some v \<Rightarrow> sb_add col (mk v) b)"

definition buildRuleUpdateSets :: "RuleUpdate \<Rightarrow> set_clause list \<times> sql_arg list \<times> nat" where
  "buildRuleUpdateSets u =
     (let b0 = newSetBuilder;
          b1 = add_opt ''name'' AText (u_name u) b0;
          b2 = add_opt ''severity_match'' AText (u_severity_match u) b1;
          b3 = add_opt ''trigger_after_hrs'' AInt (u_trigger_after_hrs u) b2;
          b4 = add_opt ''trigger_status'' AText (u_trigger_status u) b3;
          b5 = add_opt ''action'' AText (u_action u) b4;
          b6 = add_opt ''action_config'' AJson (u_action_config u) b5;
          b7 = add_opt ''is_active'' ABool (u_is_active u) b6;
          b8 = add_opt ''priority'' AInt (u_priority u) b7
      in (clauses b8, sql_args b8, idx b8))"

text \<open>
  Running the statement. A placeholder without an argument, an argument of another type than its
  column, and an argument the server cannot take make it fail.
\<close>

definition set_column :: "string \<Rightarrow> sql_arg \<Rightarrow> escalation_rule \<Rightarrow> escalation_rule option" where
  "set_column col a r =
     (case a of
        AText s \<Rightarrow>
          if col = ''name'' then Some (r\<lparr>r_name := s\<rparr>)
          else if col = ''severity_match'' then Some (r\<lparr>r_severity_match := s\<rparr>)
          else if col = ''trigger_status'' then Some (r\<lparr>r_trigger_status := s\<rparr>)
          else if col = ''action'' then Some (r\<lparr>r_action := s\<rparr>) else None
      | AInt i \<Rightarrow>
          if col = ''trigger_after_hrs'' then Some (r\<lparr>r_trigger_after_hrs := i\<rparr>)
          else if col = ''priority'' then Some (r\<lparr>r_priority := i\<rparr>) else None
      | ABool b \<Rightarrow> if col = ''is_active'' then Some (r\<lparr>r_is_active := b\<rparr>) else None
      | AJson m \<Rightarrow> if col = ''action_config'' then Some (r\<lparr>r_action_config := m\<rparr>) else None
      | AUuid u \<Rightarrow> None
      | ATime x \<Rightarrow> None)"

fun set_columns :: "set_clause list \<Rightarrow> sql_arg list \<Rightarrow> gotime \<Rightarrow> escalation_rule \<Rightarrow> escalation_rule option" where
  "set_columns [] args now r = Some r"
| "set_columns (SetArg col i # cs) args now r =
     (case arg_at args i of None \<Rightarrow> None | Some a \<Rightarrow>
     (case set_column col a r of None \<Rightarrow> None | Some r' \<Rightarrow> set_columns cs args now r'))"
| "set_columns (SetNow col # cs) args now r =
     (if col = ''updated_at'' then set_columns cs args now (r\<lparr>r_updated_at := now\<rparr>) else None)"

text \<open>
  A row may be replaced when it satisfies the checks and no other row has its tenant and name.
\<close>

definition rule_replaceable :: "database \<Rightarrow> escalation_rule \<Rightarrow> bool" where
  "rule_replaceable d r \<longleftrightarrow> rule_check r \<and>
     (\<forall>r'\<in>set (escalation_rules d). r_id r' \<noteq> r_id r \<longrightarrow>
        \<not> (r_tenant_id r' = r_tenant_id r \<and> r_name r' = r_name r))"

definition replace_rule :: "string \<Rightarrow> escalation_rule \<Rightarrow> database \<Rightarrow> database" where
  "replace_rule i x d =
     d\<lparr>escalation_rules := map (\<lambda>r. if r_id r = i then x else r) (escalation_rules d)\<rparr>"

definition update_rule ::
  "env \<Rightarrow> set_clause list \<Rightarrow> sql_arg list \<Rightarrow> nat \<Rightarrow> nat \<Rightarrow> escalation_rule stmt" where
  "update_rule E cs args tenant_arg id_arg = (\<lambda>t d.
     case (arg_at args tenant_arg, arg_at args id_arg) of
       (Some (AUuid tid), Some (AUuid i)) \<Rightarrow>
         if \<not> list_all arg_ok args then (rejected E t, d)
         else (case filter (is_rule E tid i) (escalation_rules d) of
                 [] \<Rightarrow> (Inl ErrNoRows, d)
               | r # _ \<Rightarrow>
                   (case set_columns cs args (clock E t) r of
                      None \<Rightarrow> (rejected E t, d)
                    | Some r' \<Rightarrow>
                        if rule_replaceable d r' then (Inr r', replace_rule (r_id r) r' d)
                        else (rejected E t, d)))
     | _ \<Rightarrow> (rejected E t, d))"

definition RuleStore_Update :: "env \<Rightarrow> uuid \<Rightarrow> uuid \<Rightarrow> RuleUpdate \<Rightarrow> (world, escalation_rule result) state" where
  "RuleStore_Update E tid i updates =
     (case buildRuleUpdateSets updates of (setClauses, args, nextIdx) \<Rightarrow>
        if length setClauses = 0 then RuleStore_GetByID E tid i
        else do {
          r \<leftarrow> pg E (update_rule E (setClauses @ [SetNow ''updated_at'']) (args @ [AUuid tid, AUuid i])
                    nextIdx (nextIdx + 1));
          ret (case r of
                 Inl ErrNoRows \<Rightarrow> Inl (ErrText ''rule_store.Update: not found'')
               | Inl e \<Rightarrow> Inl (wrap ''rule_store.Update'' e)
               | Inr x \<Rightarrow> Inr x)
        })"

section \<open>Delete\<close>

text \<open>The foreign key of \<open>notification_log\<close> has no \<open>ON DELETE\<close> action.\<close>

definition rule_referenced :: "database \<Rightarrow> string \<Rightarrow> bool" where
  "rule_referenced d i \<longleftrightarrow> (\<exists>n\<in>set (notification_logs d). n_escalation_rule_id n = Some i)"

definition delete_rule :: "env \<Rightarrow> uuid \<Rightarrow> uuid \<Rightarrow> nat stmt" where
  "delete_rule E tid i = (\<lambda>t d.
     let hit = filter (is_rule E tid i) (escalation_rules d) in
     if \<exists>r\<in>set hit. rule_referenced d (r_id r) then (rejected E t, d)
     else (Inr (length hit), d\<lparr>escalation_rules := filter (\<lambda>r. \<not> is_rule E tid i r) (escalation_rules d)\<rparr>))"

definition RuleStore_Delete :: "env \<Rightarrow> uuid \<Rightarrow> uuid \<Rightarrow> (world, unit result) state" where
  "RuleStore_Delete E tid i = rows_or_not_found ''rule_store.Delete'' (pg E (delete_rule E tid i))"

section \<open>The update is the update of the fields that are set\<close>

text \<open>The specification of a partial update.\<close>

definition override :: "'a \<Rightarrow> 'a option \<Rightarrow> 'a" where
  "override x p = (case p of None \<Rightarrow> x | Some v \<Rightarrow> v)"

definition apply_update :: "RuleUpdate \<Rightarrow> gotime \<Rightarrow> escalation_rule \<Rightarrow> escalation_rule" where
  "apply_update u now r = r\<lparr>
     r_name := override (r_name r) (u_name u),
     r_severity_match := override (r_severity_match r) (u_severity_match u),
     r_trigger_after_hrs := override (r_trigger_after_hrs r) (u_trigger_after_hrs u),
     r_trigger_status := override (r_trigger_status r) (u_trigger_status u),
     r_action := override (r_action r) (u_action u),
     r_action_config := override (r_action_config r) (u_action_config u),
     r_is_active := override (r_is_active r) (u_is_active u),
     r_priority := override (r_priority r) (u_priority u),
     r_updated_at := now\<rparr>"

text \<open>
  Well-numbered builders: clause number \<open>k\<close> names argument \<open>k\<close>. For them the clauses can be run one by
  one on the argument that was added with them.
\<close>

definition sb_run :: "setBuilder \<Rightarrow> sql_arg list \<Rightarrow> escalation_rule \<Rightarrow> escalation_rule option" where
  "sb_run b rest r = set_columns (clauses b) (sql_args b @ rest) 0 r"

definition sb_ok :: "setBuilder \<Rightarrow> bool" where
  "sb_ok b \<longleftrightarrow> idx b = length (sql_args b) + 1 \<and> length (clauses b) = length (sql_args b) \<and>
     (\<forall>c\<in>set (clauses b). \<exists>col i. c = SetArg col i \<and> 1 \<le> i \<and> i \<le> length (sql_args b))"

lemma set_columns_append:
  "set_columns (cs @ ds) args now r = Option.bind (set_columns cs args now r) (set_columns ds args now)"
  by (induction cs args now r rule: set_columns.induct) (auto split: option.split)

lemma set_columns_now:
  "(\<forall>c\<in>set cs. \<exists>col i. c = SetArg col i) \<Longrightarrow> set_columns cs args now r = set_columns cs args now' r"
  by (induction cs args now r rule: set_columns.induct) (auto split: option.split)

lemma sb_ok_new: "sb_ok newSetBuilder"
  by (simp add: sb_ok_def newSetBuilder_def)

lemma sb_ok_add: "sb_ok b \<Longrightarrow> sb_ok (sb_add col a b)"
  by (fastforce simp: sb_ok_def sb_add_def)

lemma sb_ok_add_opt: "sb_ok b \<Longrightarrow> sb_ok (add_opt col mk p b)"
  by (simp add: add_opt_def sb_ok_add split: option.split)

lemma sb_run_new [simp]: "sb_run newSetBuilder rest r = Some r"
  by (simp add: sb_run_def newSetBuilder_def)

lemma sb_run_add:
  assumes "sb_ok b"
  shows "sb_run (sb_add col a b) rest r = Option.bind (sb_run b (a # rest) r) (set_column col a)"
proof -
  have "arg_at (sql_args b @ a # rest) (idx b) = Some a"
    using assms by (simp add: sb_ok_def arg_at_def nth_append)
  then show ?thesis
    by (cases "set_columns (clauses b) (sql_args b @ a # rest) 0 r")
       (auto simp: sb_run_def sb_add_def set_columns_append split: option.split)
qed

text \<open>What a builder does to a row, and how one more field composes.\<close>

definition sb_does :: "setBuilder \<Rightarrow> (escalation_rule \<Rightarrow> escalation_rule) \<Rightarrow> bool" where
  "sb_does b f \<longleftrightarrow> sb_ok b \<and> (\<forall>rest r. sb_run b rest r = Some (f r))"

definition opt_set :: "('a \<Rightarrow> escalation_rule \<Rightarrow> escalation_rule) \<Rightarrow> 'a option \<Rightarrow> escalation_rule \<Rightarrow> escalation_rule" where
  "opt_set g p r = (case p of None \<Rightarrow> r | Some v \<Rightarrow> g v r)"

lemma sb_does_new: "sb_does newSetBuilder (\<lambda>r. r)"
  by (simp add: sb_does_def sb_ok_new)

lemma sb_does_add:
  assumes "sb_does b f" and "\<And>v. set_column col (mk v) = (\<lambda>r. Some (g v r))"
  shows "sb_does (add_opt col mk p b) (\<lambda>r. opt_set g p (f r))"
  using assms by (auto simp: sb_does_def sb_ok_add add_opt_def sb_run_add opt_set_def split: option.split)

lemma set_column_simps [simp]:
  "set_column ''name'' (AText s) = (\<lambda>r. Some (r\<lparr>r_name := s\<rparr>))"
  "set_column ''severity_match'' (AText s) = (\<lambda>r. Some (r\<lparr>r_severity_match := s\<rparr>))"
  "set_column ''trigger_after_hrs'' (AInt i) = (\<lambda>r. Some (r\<lparr>r_trigger_after_hrs := i\<rparr>))"
  "set_column ''trigger_status'' (AText s) = (\<lambda>r. Some (r\<lparr>r_trigger_status := s\<rparr>))"
  "set_column ''action'' (AText s) = (\<lambda>r. Some (r\<lparr>r_action := s\<rparr>))"
  "set_column ''action_config'' (AJson m) = (\<lambda>r. Some (r\<lparr>r_action_config := m\<rparr>))"
  "set_column ''is_active'' (ABool b) = (\<lambda>r. Some (r\<lparr>r_is_active := b\<rparr>))"
  "set_column ''priority'' (AInt i) = (\<lambda>r. Some (r\<lparr>r_priority := i\<rparr>))"
  by (simp_all add: set_column_def fun_eq_iff)

lemma opt_set_simps:
  "opt_set (\<lambda>v r. r\<lparr>r_name := v\<rparr>) s r = r\<lparr>r_name := override (r_name r) s\<rparr>"
  "opt_set (\<lambda>v r. r\<lparr>r_severity_match := v\<rparr>) s r = r\<lparr>r_severity_match := override (r_severity_match r) s\<rparr>"
  "opt_set (\<lambda>v r. r\<lparr>r_trigger_after_hrs := v\<rparr>) i r = r\<lparr>r_trigger_after_hrs := override (r_trigger_after_hrs r) i\<rparr>"
  "opt_set (\<lambda>v r. r\<lparr>r_trigger_status := v\<rparr>) s r = r\<lparr>r_trigger_status := override (r_trigger_status r) s\<rparr>"
  "opt_set (\<lambda>v r. r\<lparr>r_action := v\<rparr>) s r = r\<lparr>r_action := override (r_action r) s\<rparr>"
  "opt_set (\<lambda>v r. r\<lparr>r_action_config := v\<rparr>) m r = r\<lparr>r_action_config := override (r_action_config r) m\<rparr>"
  "opt_set (\<lambda>v r. r\<lparr>r_is_active := v\<rparr>) b r = r\<lparr>r_is_active := override (r_is_active r) b\<rparr>"
  "opt_set (\<lambda>v r. r\<lparr>r_priority := v\<rparr>) i r = r\<lparr>r_priority := override (r_priority r) i\<rparr>"
  by (simp_all add: opt_set_def override_def split: option.split)

lemma build_columns:
  assumes "buildRuleUpdateSets u = (cs, args, n)"
  shows "n = length args + 1" and "length cs = length args"
    and "set_columns (cs @ [SetNow ''updated_at'']) (args @ rest) now r = Some (apply_update u now r)"
proof -
  obtain b where b: "cs = clauses b" "args = sql_args b" "n = idx b" and does: "sb_does b (\<lambda>r.
      opt_set (\<lambda>v r. r\<lparr>r_priority := v\<rparr>) (u_priority u) (opt_set (\<lambda>v r. r\<lparr>r_is_active := v\<rparr>) (u_is_active u)
      (opt_set (\<lambda>v r. r\<lparr>r_action_config := v\<rparr>) (u_action_config u) (opt_set (\<lambda>v r. r\<lparr>r_action := v\<rparr>) (u_action u)
      (opt_set (\<lambda>v r. r\<lparr>r_trigger_status := v\<rparr>) (u_trigger_status u)
      (opt_set (\<lambda>v r. r\<lparr>r_trigger_after_hrs := v\<rparr>) (u_trigger_after_hrs u)
      (opt_set (\<lambda>v r. r\<lparr>r_severity_match := v\<rparr>) (u_severity_match u)
      (opt_set (\<lambda>v r. r\<lparr>r_name := v\<rparr>) (u_name u) r))))))))"
    using assms unfolding buildRuleUpdateSets_def Let_def
    by (auto intro!: that sb_does_add sb_does_new)
  then have ok: "sb_ok b" by (simp add: sb_does_def)
  with b show "n = length args + 1" and "length cs = length args"
    by (simp_all add: sb_ok_def)
  have "set_columns cs (args @ rest) now r = sb_run b rest r"
    unfolding sb_run_def b using ok by (intro set_columns_now) (auto simp: sb_ok_def)
  with does show "set_columns (cs @ [SetNow ''updated_at'']) (args @ rest) now r = Some (apply_update u now r)"
    by (simp add: sb_does_def set_columns_append opt_set_simps apply_update_def)
qed

lemma build_empty:
  assumes "buildRuleUpdateSets u = ([], args, n)"
  shows "apply_update u now r = r\<lparr>r_updated_at := now\<rparr>"
  using build_columns(3) [OF assms, of "[]" now r] by simp

lemma build_args_ok:
  "buildRuleUpdateSets u = (cs, args, n) \<Longrightarrow>
     list_all arg_ok args \<longleftrightarrow>
       pred_option text_ok (u_name u) \<and> pred_option text_ok (u_severity_match u) \<and>
       pred_option int4 (u_trigger_after_hrs u) \<and> pred_option text_ok (u_trigger_status u) \<and>
       pred_option text_ok (u_action u) \<and> pred_option jsonb_ok (u_action_config u) \<and>
       pred_option int4 (u_priority u)"
proof -
  have add: "list_all arg_ok (sql_args (add_opt col mk p b)) \<longleftrightarrow>
      list_all arg_ok (sql_args b) \<and> pred_option (\<lambda>v. arg_ok (mk v)) p" for col mk p b
    by (auto simp: add_opt_def sb_add_def split: option.split)
  assume "buildRuleUpdateSets u = (cs, args, n)"
  then show ?thesis
    unfolding buildRuleUpdateSets_def Let_def by (auto simp: add newSetBuilder_def option.pred_True)
qed

section \<open>Properties\<close>

text \<open>
  C17 (refinement). The clauses and the arguments that \<open>buildRuleUpdateSets\<close> numbers, run with the tenant
  and the rule identifier after them, are the update of exactly the fields that are not nil: the
  dynamic statement touches the row of this tenant with this identifier and no other, writes
  \<open>apply_update\<close> of it, and fails without an effect when the row may not be replaced.
\<close>

theorem rule_update_refines:
  assumes built: "buildRuleUpdateSets u = (cs, args, n)" and args: "list_all arg_ok args"
  shows "update_rule E (cs @ [SetNow ''updated_at'']) (args @ [AUuid tid, AUuid i]) n (n + 1) t d =
     (case filter (is_rule E tid i) (escalation_rules d) of
        [] \<Rightarrow> (Inl ErrNoRows, d)
      | r # _ \<Rightarrow>
          (let r' = apply_update u (clock E t) r in
           if rule_replaceable d r' then (Inr r', replace_rule (r_id r) r' d) else (rejected E t, d)))"
proof -
  note b = build_columns [OF built]
  have "arg_at (args @ [AUuid tid, AUuid i]) n = Some (AUuid tid)"
    and "arg_at (args @ [AUuid tid, AUuid i]) (n + 1) = Some (AUuid i)"
    unfolding b(1) by (simp_all add: arg_at_def nth_append)
  then show ?thesis
    using args b(3) by (simp add: update_rule_def Let_def split: list.split)
qed

text \<open>Deactivating a rule: one field, and the other seven stay.\<close>

lemma rule_update_refines_witness:
  "fst (update_rule calm [SetArg ''is_active'' 1, SetNow ''updated_at''] [ABool False, AUuid 5, AUuid 7] 2 3 0
      ((sample_db [] [])\<lparr>escalation_rules := [sample_rule StatusOpen ActionNotify 24]\<rparr>))
     = Inr ((sample_rule StatusOpen ActionNotify 24)\<lparr>r_is_active := False, r_updated_at := clock calm 0\<rparr>)"
proof -
  let ?u = "\<lparr>u_name = None, u_severity_match = None, u_trigger_after_hrs = None, u_trigger_status = None,
      u_action = None, u_action_config = None, u_is_active = Some False, u_priority = None\<rparr>"
  have built: "buildRuleUpdateSets ?u = ([SetArg ''is_active'' 1], [ABool False], 2)"
    by (simp add: buildRuleUpdateSets_def add_opt_def sb_add_def newSetBuilder_def)
  have check: "rule_check (sample_rule StatusOpen ActionNotify 24)"
    by code_simp
  show ?thesis
    using rule_update_refines [OF built, of calm 5 7 0] check
    by (simp add: is_rule_def apply_update_def override_def rule_replaceable_def sample_rule_def rule_check_def
        Let_def)
qed

lemma run_RuleStore_Update_empty:
  "buildRuleUpdateSets u = ([], args, n) \<Longrightarrow> RuleStore_Update E tid i u = RuleStore_GetByID E tid i"
  by (simp add: RuleStore_Update_def)

text \<open>The empty update of a rule that is not there does not say \<open>not found\<close>.\<close>

lemma empty_update_error:
  assumes "filter (is_rule E tid i) (escalation_rules (db w)) = []" and "\<not> db_fault E (tick w)"
  shows "fst (run_state (RuleStore_GetByID E tid i) w) =
     Inl (ErrText ''rule_store.GetByID: no rows in result set'')"
  using assms by (simp add: RuleStore_GetByID_def run_wrapped run_pg query_def first_row_def wrap_def)

text \<open>
  A rule with an entry in the notification log cannot be deleted: the foreign key refuses
  the statement, whatever else happens, and the rule stays.
\<close>

lemma rule_delete_referenced:
  assumes r: "r \<in> set (escalation_rules (db w))" "is_rule E tid i r"
    and n: "n \<in> set (notification_logs (db w))" "n_escalation_rule_id n = Some (r_id r)"
  shows "\<exists>e w'. run_state (RuleStore_Delete E tid i) w = (Inl e, w') \<and> db w' = db w"
proof -
  have "\<exists>r\<in>set (escalation_rules (db w)). is_rule E tid i r \<and> rule_referenced (db w) (r_id r)"
    using r n by (auto simp: rule_referenced_def)
  then show ?thesis
    by (auto simp: RuleStore_Delete_def rows_or_not_found_def run_pg delete_rule_def rejected_def Let_def)
qed

lemma rule_delete_referenced_witness:
  "\<exists>e w'. run_state (RuleStore_Delete calm 5 7) (sample_world ((sample_db [] [])\<lparr>
       escalation_rules := [sample_rule StatusOpen ActionNotify 24],
       notification_logs := [sample_notification NotifSent 1]\<rparr>)) = (Inl e, w')"
proof -
  let ?d = "(sample_db [] [])\<lparr>escalation_rules := [sample_rule StatusOpen ActionNotify 24],
       notification_logs := [sample_notification NotifSent 1]\<rparr>"
  show ?thesis
    using rule_delete_referenced [of "sample_rule StatusOpen ActionNotify 24" "sample_world ?d" calm 5 7
        "sample_notification NotifSent 1"]
    by (auto simp: is_rule_def sample_rule_def sample_notification_def)
qed

section \<open>What the operations leave alone\<close>

text \<open>The rule operations only write the rules table.\<close>

definition rules_only :: "database \<Rightarrow> database \<Rightarrow> bool" where
  "rules_only d d' \<longleftrightarrow> (\<exists>rs. d' = d\<lparr>escalation_rules := rs\<rparr>)"

interpretation rules_only: step_preorder rules_only
proof
  show "rules_only s s" for s
    unfolding rules_only_def by (rule exI [of _ "escalation_rules s"]) simp
qed (auto simp: rules_only_def)

interpretation rules_only: table_relation rules_only ..

lemma rules_only_same [simp]: "rules_only d d"
  unfolding rules_only_def by (rule exI [of _ "escalation_rules d"]) simp

lemma rules_only_statements:
  "rules_only d (snd (insert_rule E tid x t d))"
  "rules_only d (snd (update_rule E cs args m k t d))"
  "rules_only d (snd (delete_rule E tid i t d))"
  by (auto simp: insert_rule_def update_rule_def delete_rule_def replace_rule_def Let_def
      intro: exI simp: rules_only_def [of d "d\<lparr>escalation_rules := rs\<rparr>" for rs]
      split: option.split sql_arg.split list.split)

lemma rules_only_ops:
  "state_io_rel (db_rel rules_only) (RuleStore_Create E tid x)"
  "state_io_rel (db_rel rules_only) (RuleStore_GetByID E tid i)"
  "state_io_rel (db_rel rules_only) (RuleStore_List E tid active)"
  "state_io_rel (db_rel rules_only) (RuleStore_Update E tid i u)"
  "state_io_rel (db_rel rules_only) (RuleStore_Delete E tid i)"
  unfolding RuleStore_Create_def RuleStore_GetByID_def RuleStore_List_def RuleStore_Update_def
    RuleStore_Delete_def rows_or_not_found_def
  by (auto intro!: rules_only.io_basic rules_only.io_pg simp: rules_only_statements split: prod.split)

end
