(* ===== verification/HubClient.thy ===== *)
theory HubClient
  imports LedgerSpec
begin

text \<open>
  \<open>internal/notify/hub_client.go\<close>: the client of the Notification Hub, and the interface
  \<open>NotificationSender\<close> it implements for the engine and the retrier. \<open>net/http\<close> is the field
  \<open>http_do\<close> of the client: what one request meets, as a function of the tick, the URL, the API key
  and the event. Marshalling the event cannot fail, because its payload holds strings only.
\<close>

section \<open>The client\<close>

text \<open>
  \<open>BadURL\<close>: \<open>http.NewRequestWithContext\<close> fails, nothing is sent; \<open>NoAnswer\<close>: \<open>Client.Do\<close> fails;
  \<open>Broken\<close>: reading the body fails; \<open>Answer\<close>: the status code and the body, \<open>Inl\<close> with the decoder's
  message when it is not JSON.
\<close>

datatype http_outcome = BadURL string | NoAnswer string | Broken string | Answer int "string + json"

record hub_client =
  baseURL :: string
  apiKey :: string
  http_do :: "nat \<Rightarrow> string \<Rightarrow> string \<Rightarrow> hub_event \<Rightarrow> http_outcome"
  enabled :: bool
  maxRetries :: int
  backoff :: "int list"

definition second :: int where
  "second = 1000000000"

definition defaultBackoffSchedule :: "int list" where
  "defaultBackoffSchedule = [1 * second, 4 * second, 16 * second]"

definition NewHubClientWithBackoff ::
  "string \<Rightarrow> string \<Rightarrow> bool \<Rightarrow> int \<Rightarrow> (nat \<Rightarrow> string \<Rightarrow> string \<Rightarrow> hub_event \<Rightarrow> http_outcome) \<Rightarrow> int list \<Rightarrow> hub_client" where
  "NewHubClientWithBackoff url key en retries http schedule =
     \<lparr>baseURL = url, apiKey = key, http_do = http, enabled = en, maxRetries = retries, backoff = schedule\<rparr>"

definition NewHubClient ::
  "string \<Rightarrow> string \<Rightarrow> bool \<Rightarrow> int \<Rightarrow> (nat \<Rightarrow> string \<Rightarrow> string \<Rightarrow> hub_event \<Rightarrow> http_outcome) \<Rightarrow> hub_client" where
  "NewHubClient url key en retries http =
     NewHubClientWithBackoff url key en retries http defaultBackoffSchedule"

definition dec_hub_response :: "json \<Rightarrow> hub_response option" where
  "dec_hub_response j =
     (case members j of None \<Rightarrow> None | Some kvs \<Rightarrow>
     (case dec_field as_string ''status'' [] kvs of None \<Rightarrow> None | Some st \<Rightarrow>
     (case dec_field as_string ''id'' [] kvs of None \<Rightarrow> None | Some i \<Rightarrow>
        Some \<lparr>hr_status = st, hr_id = i\<rparr>)))"

definition post_hub :: "string \<Rightarrow> hub_event \<Rightarrow> (world, unit) state" where
  "post_hub url ev = modify (\<lambda>w. w\<lparr>posts := posts w @ [(url, ev)]\<rparr>)"

definition doRequest :: "hub_client \<Rightarrow> hub_event \<Rightarrow> (world, hub_response result) state" where
  "doRequest c ev = (let url = baseURL c @ ''/api/events'' in do {
     t \<leftarrow> next_tick;
     case http_do c t url (apiKey c) ev of
       BadURL m \<Rightarrow> ret (Inl (ErrText (''create request: '' @ m)))
     | NoAnswer m \<Rightarrow> do { post_hub url ev; ret (Inl (ErrText (''http request: '' @ m))) }
     | Broken m \<Rightarrow> do { post_hub url ev; ret (Inl (ErrText (''read response: '' @ m))) }
     | Answer code respBody \<Rightarrow> do {
         post_hub url ev;
         ret (if code \<ge> 500 then Inl (ErrText (''server error: '' @ show_int code))
              else case respBody of
                Inl m \<Rightarrow> Inl (ErrText (''decode response: '' @ m))
              | Inr j \<Rightarrow> (case dec_hub_response j of
                  None \<Rightarrow> Inl (ErrText ''decode response: cannot unmarshal'')
                | Some r \<Rightarrow> Inr r))
       }
   })"

text \<open>\<open>c.backoff[len(c.backoff)-1]\<close> panics on an empty schedule: \<open>None\<close>.\<close>

definition backoffDelay :: "hub_client \<Rightarrow> nat \<Rightarrow> int option" where
  "backoffDelay c retryIndex =
     (if retryIndex < length (backoff c) then Some (backoff c ! retryIndex)
      else if backoff c = [] then None
      else Some (backoff c ! (length (backoff c) - 1)))"

definition pause :: "int \<Rightarrow> (world, unit) state" where
  "pause delay = modify (\<lambda>w. w\<lparr>sleeps := sleeps w @ [delay]\<rparr>)"

text \<open>
  The \<open>for\<close> loop, from attempt number \<open>a\<close> with \<open>n\<close> attempts left. \<open>None\<close> is the panic of
  \<open>backoffDelay\<close>; \<open>ctx_done\<close> says whether the \<open>select\<close> took its \<open>ctx.Done()\<close> branch.
\<close>

primrec send_loop ::
  "env \<Rightarrow> hub_client \<Rightarrow> hub_event \<Rightarrow> int \<Rightarrow> nat \<Rightarrow> nat \<Rightarrow> goerr \<Rightarrow> (world, hub_response result option) state" where
  "send_loop E c ev maxAttempts 0 a lastErr =
     ret (Some (Inl (wrap (''hub_client.SendEvent: retries exhausted after '' @ show_int maxAttempts @ '' attempts'')
                       lastErr)))"
| "send_loop E c ev maxAttempts (Suc n) a lastErr =
     (let request = do {
        r \<leftarrow> doRequest c ev;
        case r of
          Inl err \<Rightarrow> send_loop E c ev maxAttempts n (Suc a) err
        | Inr resp \<Rightarrow> ret (Some (Inr resp))
      } in
      if a = 0 then request
      else case backoffDelay c (a - 1) of
        None \<Rightarrow> ret None
      | Some delay \<Rightarrow> do {
          t \<leftarrow> next_tick;
          if ctx_done E t then ret (Some (Inl (ErrText ''context canceled'')))
          else do { pause delay; request }
        })"

definition max_attempts :: "hub_client \<Rightarrow> int" where
  "max_attempts c = (if maxRetries c \<le> 0 then 1 else maxRetries c)"

definition SendEvent :: "env \<Rightarrow> hub_client \<Rightarrow> hub_event \<Rightarrow> (world, hub_response result option) state" where
  "SendEvent E c ev =
     (if \<not> enabled c then ret (Some (Inr \<lparr>hr_status = ''skipped'', hr_id = []\<rparr>))
      else send_loop E c ev (max_attempts c) (nat (max_attempts c)) 0 (ErrText ''nil''))"

text \<open>
  The method as a \<open>NotificationSender\<close>. The panic, which a client of \<open>NewHubClient\<close> never meets
  (\<open>SendEvent_no_panic\<close>), is an error here.
\<close>

definition hub_send :: "env \<Rightarrow> hub_client \<Rightarrow> hub_event \<Rightarrow> (world, hub_response result) state" where
  "hub_send E c ev = do {
     r \<leftarrow> SendEvent E c ev;
     ret (case r of None \<Rightarrow> Inl (ErrText ''index out of range [-1]'') | Some x \<Rightarrow> x)
   }"

section \<open>The interface\<close>

text \<open>
  What the engine and the retrier may rely on of a \<open>NotificationSender\<close>: sending leaves the tables
  and the count of failed statements alone.
\<close>

locale notification_sender =
  fixes send :: "hub_event \<Rightarrow> (world, hub_response result) state"
  assumes send_db: "run_state (send ev) w = (r, w') \<Longrightarrow> db w' = db w"
    and send_errors: "run_state (send ev) w = (r, w') \<Longrightarrow> sql_errors w' = sql_errors w"
begin

lemma send_frames_db: "state_io_rel (frames db) (send ev)"
  by (auto simp: state_io_rel_def frames_def) (metis prod.collapse send_db)

lemma send_grows_errors: "state_io_rel errors_grow (send ev)"
  by (auto simp: state_io_rel_def errors_grow_def) (metis order_refl prod.collapse send_errors)

lemma send_db_rel: "(\<And>d. R d d) \<Longrightarrow> state_io_rel (db_rel R) (send ev)"
  by (auto simp: state_io_rel_def db_rel_def) (metis prod.collapse send_db)

end

section \<open>What a send does\<close>

lemma run_post_hub [simp]: "run_state (post_hub url ev) w = ((), w\<lparr>posts := posts w @ [(url, ev)]\<rparr>)"
  by (simp add: post_hub_def)

lemma run_pause [simp]: "run_state (pause delay) w = ((), w\<lparr>sleeps := sleeps w @ [delay]\<rparr>)"
  by (simp add: pause_def)

text \<open>One request: nothing but the tick and at most one post changes.\<close>

definition sends :: "hub_client \<Rightarrow> hub_event \<Rightarrow> nat \<Rightarrow> int list \<Rightarrow> world \<Rightarrow> world \<Rightarrow> bool" where
  "sends c ev n ds w w' \<longleftrightarrow>
     (\<exists>t k. k \<le> n \<and> w' = w\<lparr>tick := t, sleeps := sleeps w @ ds,
          posts := posts w @ replicate k (baseURL c @ ''/api/events'', ev)\<rparr>)"

lemma doRequest_sends: "run_state (doRequest c ev) w = (r, w') \<Longrightarrow> sends c ev 1 [] w w'"
proof -
  assume run: "run_state (doRequest c ev) w = (r, w')"
  let ?url = "baseURL c @ ''/api/events''"
  have "w' = w\<lparr>tick := Suc (tick w)\<rparr> \<or> w' = w\<lparr>tick := Suc (tick w), posts := posts w @ [(?url, ev)]\<rparr>"
    using run by (auto simp: doRequest_def Let_def split: http_outcome.splits)
  then show ?thesis
    unfolding sends_def
  proof
    assume "w' = w\<lparr>tick := Suc (tick w)\<rparr>"
    then show "\<exists>t k. k \<le> 1 \<and> w' = w\<lparr>tick := t, sleeps := sleeps w @ [], posts := posts w @ replicate k (?url, ev)\<rparr>"
      by (intro exI [of _ "Suc (tick w)"] exI [of _ 0]) simp
  next
    assume "w' = w\<lparr>tick := Suc (tick w), posts := posts w @ [(?url, ev)]\<rparr>"
    then show "\<exists>t k. k \<le> 1 \<and> w' = w\<lparr>tick := t, sleeps := sleeps w @ [], posts := posts w @ replicate k (?url, ev)\<rparr>"
      by (intro exI [of _ "Suc (tick w)"] exI [of _ 1]) simp
  qed
qed

lemma sends_trans:
  assumes "sends c ev n ds w w1" and "sends c ev m es w1 w2"
  shows "sends c ev (n + m) (ds @ es) w w2"
proof -
  obtain t k where k: "k \<le> n" and w1: "w1 = w\<lparr>tick := t, sleeps := sleeps w @ ds,
      posts := posts w @ replicate k (baseURL c @ ''/api/events'', ev)\<rparr>"
    using assms(1) by (auto simp: sends_def)
  obtain u l where l: "l \<le> m" and w2: "w2 = w1\<lparr>tick := u, sleeps := sleeps w1 @ es,
      posts := posts w1 @ replicate l (baseURL c @ ''/api/events'', ev)\<rparr>"
    using assms(2) by (auto simp: sends_def)
  show ?thesis
    unfolding sends_def using k l w1 w2
    by (intro exI [of _ u] exI [of _ "k + l"]) (simp add: replicate_add)
qed

lemma sends_weaken: "sends c ev n ds w w' \<Longrightarrow> n \<le> m \<Longrightarrow> sends c ev m ds w w'"
  unfolding sends_def by (elim exE conjE, intro exI conjI) (rule le_trans)

text \<open>The pauses of the attempts from \<open>a\<close> on, one before each but the first.\<close>

definition pauses :: "hub_client \<Rightarrow> nat \<Rightarrow> nat \<Rightarrow> int list" where
  "pauses c a b = map (\<lambda>i. the (backoffDelay c (i - 1))) (filter (\<lambda>i. i > 0) [a..<b])"

lemma pauses_Nil [simp]: "pauses c a a = []"
  by (simp add: pauses_def)

lemma pauses_Cons:
  "a < b \<Longrightarrow> pauses c a b = (if a = 0 then [] else [the (backoffDelay c (a - 1))]) @ pauses c (Suc a) b"
  by (simp add: pauses_def upt_conv_Cons)

lemma send_loop_sends:
  "run_state (send_loop E c ev m n a e) w = (r, w') \<Longrightarrow>
     \<exists>b. a \<le> b \<and> b \<le> a + n \<and> sends c ev n (pauses c a b) w w'"
proof (induction n arbitrary: a e w)
  case 0
  then have "w' = w" by simp
  then have "sends c ev 0 [] w w'"
    unfolding sends_def by (intro exI [of _ "tick w"] exI [of _ 0]) simp
  then show ?case by (intro exI [of _ a]) simp
next
  case (Suc n)
  have request: "\<exists>b. Suc a \<le> b \<and> b \<le> a + Suc n \<and> sends c ev (Suc n) (pauses c (Suc a) b) u w'"
    if run: "run_state (do { r \<leftarrow> doRequest c ev;
        case r of Inl err \<Rightarrow> send_loop E c ev m n (Suc a) err | Inr resp \<Rightarrow> ret (Some (Inr resp)) }) u = (r, w')"
    for u
  proof -
    obtain q u1 where d: "run_state (doRequest c ev) u = (q, u1)" by fastforce
    note one = doRequest_sends [OF d]
    show ?thesis
    proof (cases q)
      case (Inl err)
      then have "run_state (send_loop E c ev m n (Suc a) err) u1 = (r, w')" using run d by simp
      from Suc.IH [OF this] obtain b where "Suc a \<le> b" "b \<le> Suc a + n"
        and "sends c ev n (pauses c (Suc a) b) u1 w'" by blast
      then show ?thesis
        using sends_trans [OF one] by (intro exI [of _ b]) fastforce
    next
      case (Inr resp)
      then have "w' = u1" using run d by simp
      then have "sends c ev (Suc n) [] u w'"
        using sends_weaken [OF one, of "Suc n"] by simp
      then show ?thesis by (intro exI [of _ "Suc a"]) simp
    qed
  qed
  show ?case
  proof (cases "a = 0")
    case True
    with Suc.prems have "run_state (do { r \<leftarrow> doRequest c ev;
        case r of Inl err \<Rightarrow> send_loop E c ev m n (Suc a) err | Inr resp \<Rightarrow> ret (Some (Inr resp)) }) w = (r, w')"
      by (simp only: send_loop.simps Let_def simp_thms if_True)
    from request [OF this] obtain b where "Suc a \<le> b" "b \<le> a + Suc n"
      "sends c ev (Suc n) (pauses c (Suc a) b) w w'" by blast
    with True show ?thesis by (intro exI [of _ b]) (simp add: pauses_Cons)
  next
    case retry: False
    have same: "sends c ev (Suc n) (pauses c a a) w w'" if "w' = w\<lparr>tick := t\<rparr>" for t
      unfolding sends_def using that by (intro exI [of _ t] exI [of _ 0]) simp
    show ?thesis
    proof (cases "backoffDelay c (a - 1)")
      case None
      with Suc.prems retry have "w' = w\<lparr>tick := tick w\<rparr>" by (simp add: Let_def)
      from same [OF this] show ?thesis by (intro exI [of _ a]) simp
    next
      case (Some delay)
      let ?u = "w\<lparr>tick := Suc (tick w), sleeps := sleeps w @ [delay]\<rparr>"
      show ?thesis
      proof (cases "ctx_done E (tick w)")
        case True
        with Suc.prems retry Some have "w' = w\<lparr>tick := Suc (tick w)\<rparr>" by (simp add: Let_def)
        from same [OF this] show ?thesis by (intro exI [of _ a]) simp
      next
        case False
        with Suc.prems retry Some have "run_state (do { r \<leftarrow> doRequest c ev;
            case r of Inl err \<Rightarrow> send_loop E c ev m n (Suc a) err | Inr resp \<Rightarrow> ret (Some (Inr resp)) }) ?u = (r, w')"
          by (simp add: Let_def)
        from request [OF this] obtain b where b: "Suc a \<le> b" "b \<le> a + Suc n"
          "sends c ev (Suc n) (pauses c (Suc a) b) ?u w'" by blast
        have "sends c ev 0 [delay] w ?u"
          unfolding sends_def by (intro exI [of _ "Suc (tick w)"] exI [of _ 0]) simp
        from sends_trans [OF this b(3)] b(1,2) retry Some show ?thesis
          by (intro exI [of _ b]) (simp add: pauses_Cons)
      qed
    qed
  qed
qed

lemma SendEvent_sends:
  "run_state (SendEvent E c ev) w = (r, w') \<Longrightarrow>
     \<exists>b. int b \<le> max_attempts c \<and> sends c ev (nat (max_attempts c)) (pauses c 0 b) w w'"
proof (cases "enabled c")
  case True
  assume "run_state (SendEvent E c ev) w = (r, w')"
  with True have "run_state (send_loop E c ev (max_attempts c) (nat (max_attempts c)) 0 (ErrText ''nil'')) w = (r, w')"
    by (simp add: SendEvent_def)
  from send_loop_sends [OF this] obtain b where "b \<le> nat (max_attempts c)"
    and "sends c ev (nat (max_attempts c)) (pauses c 0 b) w w'" by auto
  moreover have "max_attempts c \<ge> 1" by (simp add: max_attempts_def)
  ultimately show ?thesis by (intro exI [of _ b]) auto
next
  case False
  assume "run_state (SendEvent E c ev) w = (r, w')"
  with False have "w' = w" by (simp add: SendEvent_def)
  then have "sends c ev (nat (max_attempts c)) (pauses c 0 0) w w'"
    unfolding sends_def by (intro exI [of _ "tick w"] exI [of _ 0]) simp
  then show ?thesis by (intro exI [of _ 0]) (simp add: max_attempts_def)
qed

lemma sends_frame: "sends c ev n ds w w' \<Longrightarrow> db w' = db w \<and> sql_errors w' = sql_errors w \<and> replies w' = replies w"
  by (auto simp: sends_def)

interpretation hub: notification_sender "hub_send E c" for E c
  by unfold_locales
     (auto simp: hub_send_def dest!: SendEvent_sends sends_frame split: prod.splits)

section \<open>Properties\<close>

lemma send_loop_no_panic:
  assumes "backoff c \<noteq> []"
  shows "fst (run_state (send_loop E c ev m n a e) w) \<noteq> None"
proof (induction n arbitrary: a e w)
  case 0
  then show ?case by simp
next
  case (Suc n)
  obtain delay where "backoffDelay c (a - 1) = Some delay"
    using assms by (cases "backoffDelay c (a - 1)") (auto simp: backoffDelay_def split: if_splits)
  then show ?case
    using Suc.IH by (auto simp: Let_def split: prod.split sum.split)
qed

text \<open>
  C37 (bounds). However the hub answers, a send makes at most \<open>max(1, maxRetries)\<close> requests, each one a
  POST of this event to the client's URL, and the pauses between attempts are the first ones of the
  backoff schedule; nothing else of the world but the tick changes.
\<close>

theorem SendEvent_bounds:
  "\<exists>t k b. int k \<le> max 1 (maxRetries c) \<and> int b \<le> max 1 (maxRetries c) \<and>
     snd (run_state (SendEvent E c ev) w) =
       w\<lparr>tick := t, sleeps := sleeps w @ pauses c 0 b,
         posts := posts w @ replicate k (baseURL c @ ''/api/events'', ev)\<rparr>"
proof -
  obtain r w' where run: "run_state (SendEvent E c ev) w = (r, w')" by fastforce
  obtain b where b: "int b \<le> max_attempts c" and "sends c ev (nat (max_attempts c)) (pauses c 0 b) w w'"
    using SendEvent_sends [OF run] by blast
  then obtain t k where "k \<le> nat (max_attempts c)"
    and w': "w' = w\<lparr>tick := t, sleeps := sleeps w @ pauses c 0 b,
         posts := posts w @ replicate k (baseURL c @ ''/api/events'', ev)\<rparr>"
    by (auto simp: sends_def)
  moreover have "max_attempts c = max 1 (maxRetries c)" by (auto simp: max_attempts_def)
  ultimately show ?thesis
    using b by (intro exI [of _ t] exI [of _ k] exI [of _ b]) (auto simp: run)
qed

text \<open>The pauses of the schedule of \<open>NewHubClient\<close>: 1s, 4s, then 16s before every further attempt.\<close>

lemma default_pauses:
  "pauses (NewHubClient url key en n http) 0 5 = [1 * second, 4 * second, 16 * second, 16 * second]"
  by (simp add: pauses_def upt_rec NewHubClient_def NewHubClientWithBackoff_def backoffDelay_def
      defaultBackoffSchedule_def)

text \<open>
  C38 (termination). A client built by \<open>NewHubClient\<close> always returns a response or an error, whatever
  the hub, the network and the context do: the backoff index never leaves the schedule.
\<close>

theorem SendEvent_no_panic:
  "fst (run_state (SendEvent E (NewHubClient url key en retries http) ev) w) \<noteq> None"
proof -
  let ?c = "NewHubClient url key en retries http"
  have "backoff ?c \<noteq> []"
    by (simp add: NewHubClient_def NewHubClientWithBackoff_def defaultBackoffSchedule_def)
  from send_loop_no_panic [OF this] show ?thesis
    by (cases "enabled ?c") (simp_all only: SendEvent_def if_True if_False simp_thms, simp)
qed

text \<open>A disabled client touches nothing and reports \<open>skipped\<close>.\<close>

lemma SendEvent_disabled:
  "\<not> enabled c \<Longrightarrow> run_state (hub_send E c ev) w = (Inr \<lparr>hr_status = ''skipped'', hr_id = []\<rparr>, w)"
  by (simp add: hub_send_def SendEvent_def)

text \<open>
  A response below 500 whose body decodes ends the loop as a success, a client error like 401 among
  them; one whose body does not decode is tried again, a client error too.
\<close>

lemma doRequest_client_error:
  assumes "http_do c (tick w) (baseURL c @ ''/api/events'') (apiKey c) ev = Answer code b" and "code < 500"
  shows "fst (run_state (doRequest c ev) w) =
     (case b of Inl m \<Rightarrow> Inl (ErrText (''decode response: '' @ m))
      | Inr j \<Rightarrow> (case dec_hub_response j of None \<Rightarrow> Inl (ErrText ''decode response: cannot unmarshal'')
                 | Some r \<Rightarrow> Inr r))"
  using assms by (simp add: doRequest_def Let_def split: sum.splits option.splits)

text \<open>
  A 4xx answer with a JSON body is reported as a success after one request, with whatever
  status the body carries, so the caller cannot tell it from a delivery.
\<close>

lemma SendEvent_client_error_is_success:
  assumes on: "enabled c"
    and http: "http_do c (tick w) (baseURL c @ ''/api/events'') (apiKey c) ev = Answer code (Inr j)"
    and code: "400 \<le> code" "code < 500"
    and decodes: "dec_hub_response j = Some resp"
  shows "run_state (hub_send E c ev) w =
     (Inr resp, w\<lparr>tick := Suc (tick w), posts := posts w @ [(baseURL c @ ''/api/events'', ev)]\<rparr>)"
proof -
  have "run_state (doRequest c ev) w =
      (Inr resp, w\<lparr>tick := Suc (tick w), posts := posts w @ [(baseURL c @ ''/api/events'', ev)]\<rparr>)"
    using http code decodes by (simp add: doRequest_def Let_def)
  moreover obtain n where "nat (max_attempts c) = Suc n"
    by (metis gr0_implies_Suc max_attempts_def not_le zero_less_nat_eq zero_less_one)
  ultimately show ?thesis using on by (simp add: hub_send_def SendEvent_def Let_def)
qed

lemma SendEvent_client_error_is_success_witness:
  "\<exists>w'. run_state (hub_send calm
      (NewHubClient [] [] True 3 (\<lambda>t u k e. Answer 401 (Inr (JObj [(''error'', JStr ''unauthorized'')]))))
      \<lparr>h_event_type = ''x'', h_tenant_id = ''5'', h_payload = None\<rparr>) (sample_world (sample_db [] [])) =
     (Inr \<lparr>hr_status = [], hr_id = []\<rparr>, w')"
proof -
  have dec: "dec_hub_response (JObj [(''error'', JStr ''unauthorized'')]) = Some \<lparr>hr_status = [], hr_id = []\<rparr>"
    by code_simp
  show ?thesis
    by (rule exI, rule SendEvent_client_error_is_success [OF _ _ _ _ dec, of _ _ _ 401])
       (simp_all add: NewHubClient_def NewHubClientWithBackoff_def)
qed

end
