(* ===== verification/Escalation.thy ===== *)
theory Escalation
  imports RuleStore HubClient
begin

text \<open>
  The escalation engine, \<open>internal/engine/escalation.go\<close>, \<open>escalation_actions.go\<close> and
  \<open>escalation_notify.go\<close>. One call of \<open>Evaluate\<close> is what each tick of the loop in \<open>Start\<close> runs;
  errors of a tenant, a rule or an action are logged and the loops go on. The engine relies on its
  \<open>NotificationSender\<close> only through the locale of \<open>HubClient\<close>.
\<close>

section \<open>The engine\<close>

text \<open>\<open>notificationStore\<close>: whether the store is set (\<open>WithNotifications\<close>); \<open>hubClient\<close>: \<open>None\<close> is nil.\<close>

type_synonym sender = "hub_event \<Rightarrow> (world, hub_response result) state"

record escalation_engine =
  notificationStore :: bool
  hubClient :: "sender option"

definition NewEscalationEngine :: escalation_engine where
  "NewEscalationEngine = \<lparr>notificationStore = False, hubClient = None\<rparr>"

definition WithNotifications :: "sender option \<Rightarrow> escalation_engine \<Rightarrow> escalation_engine" where
  "WithNotifications hub e = e\<lparr>notificationStore := True, hubClient := hub\<rparr>"

section \<open>escalation\_actions.go\<close>

text \<open>
  The tail that \<open>executeEscalate\<close> and \<open>executeAutoClose\<close> share: the status update, then the event, both
  on the pool, so without a transaction.
\<close>

definition change_status ::
  "env \<Rightarrow> string \<Rightarrow> uuid \<Rightarrow> uuid \<Rightarrow> escalation_rule \<Rightarrow> discrepancy \<Rightarrow> string \<Rightarrow> gotime option \<Rightarrow> string
     \<Rightarrow> (world, unit result) state" where
  "change_status E fn tid discID rule disc newStatus resolvedAt eventType = do {
     upd \<leftarrow> DiscrepancyStore_UpdateStatus E tid discID newStatus resolvedAt;
     case upd of
       Inl e \<Rightarrow> ret (Inl (wrap (fn @ '': update status'') e))
     | Inr _ \<Rightarrow> do {
         event \<leftarrow> NewLedgerEvent E (uuid_text E tid) (d_id disc) eventType ''escalation-engine''
                    ActorEscalation
                    (Some [(''rule_id'', JStr (r_id rule)), (''rule_name'', JStr (r_name rule))]);
         saved \<leftarrow> AppendWith E Pool tid event;
         ret (case saved of
                Inl e \<Rightarrow> Inl (wrap (fn @ '': append event'') e)
              | Inr _ \<Rightarrow> Inr ())
       }
   }"

definition executeEscalate ::
  "env \<Rightarrow> uuid \<Rightarrow> escalation_rule \<Rightarrow> discrepancy \<Rightarrow> (world, unit result) state" where
  "executeEscalate E tid rule disc =
     (case uuid_parse E (d_id disc) of
        None \<Rightarrow> ret (Inl (ErrText ''executeEscalate: parse disc ID''))
      | Some discID \<Rightarrow> do {
          already \<leftarrow> ExistsForDiscrepancy E tid discID EventEscalated;
          case already of
            Inl e \<Rightarrow> ret (Inl (wrap ''executeEscalate: dedup check'' e))
          | Inr True \<Rightarrow> ret (Inr ())
          | Inr False \<Rightarrow>
              if \<not> ValidTransition (d_status disc) StatusEscalated then ret (Inr ())
              else (case jstring (r_action_config rule) ''new_severity'' of
                None \<Rightarrow> change_status E ''executeEscalate'' tid discID rule disc StatusEscalated None EventEscalated
              | Some newSev \<Rightarrow> do {
                  upd \<leftarrow> UpdateSeverity E tid discID newSev;
                  case upd of
                    Inl e \<Rightarrow> ret (Inl (wrap ''executeEscalate: update severity'' e))
                  | Inr _ \<Rightarrow>
                      change_status E ''executeEscalate'' tid discID rule disc StatusEscalated None EventEscalated
                })
        })"

definition executeAutoClose ::
  "env \<Rightarrow> uuid \<Rightarrow> escalation_rule \<Rightarrow> discrepancy \<Rightarrow> (world, unit result) state" where
  "executeAutoClose E tid rule disc =
     (case uuid_parse E (d_id disc) of
        None \<Rightarrow> ret (Inl (ErrText ''executeAutoClose: parse disc ID''))
      | Some discID \<Rightarrow> do {
          already \<leftarrow> ExistsForDiscrepancy E tid discID EventAutoClosed;
          case already of
            Inl e \<Rightarrow> ret (Inl (wrap ''executeAutoClose: dedup check'' e))
          | Inr True \<Rightarrow> ret (Inr ())
          | Inr False \<Rightarrow>
              if \<not> ValidTransition (d_status disc) StatusAutoClosed then ret (Inr ())
              else do {
                now \<leftarrow> time_Now E;
                change_status E ''executeAutoClose'' tid discID rule disc StatusAutoClosed (Some now) EventAutoClosed
              }
        })"

section \<open>escalation\_notify.go\<close>

definition notificationExists :: "env \<Rightarrow> escalation_engine \<Rightarrow> uuid \<Rightarrow> uuid \<Rightarrow> (world, bool result) state" where
  "notificationExists E eng ruleID discID =
     (if notificationStore eng
      then do {
        n \<leftarrow> GetByRuleAndDiscrepancy E ruleID discID;
        ret (case n of Inl e \<Rightarrow> Inl (wrap ''notificationExists'' e) | Inr x \<Rightarrow> Inr (x \<noteq> None))
      }
      else wrapped ''notificationExists'' (pg E (query (\<lambda>t d. Inr (\<exists>n\<in>set (notification_logs d).
             n_escalation_rule_id n = Some (uuid_text E ruleID) \<and> n_discrepancy_id n = uuid_text E discID)))))"

text \<open>Without the store the row is inserted but its identifier is not read back.\<close>

definition createNotificationLog ::
  "env \<Rightarrow> escalation_engine \<Rightarrow> uuid \<Rightarrow> uuid \<Rightarrow> uuid \<Rightarrow> (world, notification_log result) state" where
  "createNotificationLog E eng tid discID ruleID =
     (if notificationStore eng
      then NotificationStore_Create E tid discID (Some ruleID) ChannelInApp ''escalation-engine''
      else do {
        r \<leftarrow> pg E (insert_notification E tid discID (Some ruleID) ''in_app'' ''escalation-engine'');
        ret (case r of
               Inl e \<Rightarrow> Inl e
             | Inr _ \<Rightarrow> Inr \<lparr>n_id = [], n_tenant_id = uuid_text E tid, n_discrepancy_id = uuid_text E discID,
                 n_escalation_rule_id = None, n_channel = [], n_recipient = [], n_status = NotifPending,
                 n_hub_response = None, n_attempts = 0, n_last_attempt_at = None,
                 n_created_at = zero_time, n_updated_at = zero_time\<rparr>)
      })"

definition escalation_event :: "env \<Rightarrow> uuid \<Rightarrow> escalation_rule \<Rightarrow> discrepancy \<Rightarrow> hub_event" where
  "escalation_event E tid rule disc =
     \<lparr>h_event_type = ''compliance.escalation_triggered'', h_tenant_id = uuid_text E tid,
      h_payload = Some [(''discrepancy_id'', JStr (d_id disc)), (''severity'', JStr (d_severity disc)),
        (''status'', JStr (d_status disc)), (''title'', JStr (d_title disc)),
        (''rule_id'', JStr (r_id rule)), (''rule_name'', JStr (r_name rule))]\<rparr>"

definition sendViaHub ::
  "env \<Rightarrow> escalation_engine \<Rightarrow> uuid \<Rightarrow> escalation_rule \<Rightarrow> discrepancy \<Rightarrow> notification_log \<Rightarrow> (world, unit) state" where
  "sendViaHub E eng tid rule disc notif =
     (case hubClient eng of
        None \<Rightarrow> ret ()
      | Some send \<Rightarrow> do {
          resp \<leftarrow> send (escalation_event E tid rule disc);
          if notificationStore eng \<and> n_id notif \<noteq> []
          then (case uuid_parse E (n_id notif) of
              None \<Rightarrow> ret ()
            | Some notifID \<Rightarrow>
                (case resp of
                   Inl e \<Rightarrow> do {
                     _ \<leftarrow> NotificationStore_UpdateStatus E notifID NotifFailed None 1;
                     ret ()
                   }
                 | Inr hr \<Rightarrow> do {
                     _ \<leftarrow> NotificationStore_UpdateStatus E notifID
                            (if hr_status hr = ''skipped'' then NotifPending else NotifSent)
                            (Some [(''status'', JStr (hr_status hr)), (''id'', JStr (hr_id hr))]) 1;
                     ret ()
                   }))
          else ret ()
        })"

definition executeNotify ::
  "env \<Rightarrow> escalation_engine \<Rightarrow> uuid \<Rightarrow> escalation_rule \<Rightarrow> discrepancy \<Rightarrow> (world, unit result) state" where
  "executeNotify E eng tid rule disc =
     (case uuid_parse E (d_id disc) of
        None \<Rightarrow> ret (Inl (ErrText ''executeNotify: parse disc ID''))
      | Some discID \<Rightarrow>
     (case uuid_parse E (r_id rule) of
        None \<Rightarrow> ret (Inl (ErrText ''executeNotify: parse rule ID''))
      | Some ruleID \<Rightarrow> do {
          already \<leftarrow> notificationExists E eng ruleID discID;
          case already of
            Inl e \<Rightarrow> ret (Inl (wrap ''executeNotify: dedup check'' e))
          | Inr True \<Rightarrow> ret (Inr ())
          | Inr False \<Rightarrow> do {
              created \<leftarrow> createNotificationLog E eng tid discID ruleID;
              case created of
                Inl e \<Rightarrow> ret (Inl (wrap ''executeNotify: create log'' e))
              | Inr notif \<Rightarrow> do { sendViaHub E eng tid rule disc notif; ret (Inr ()) }
            }
        }))"

definition executeAction ::
  "env \<Rightarrow> escalation_engine \<Rightarrow> uuid \<Rightarrow> escalation_rule \<Rightarrow> discrepancy \<Rightarrow> (world, unit result) state" where
  "executeAction E eng tid rule disc =
     (if r_action rule = ActionNotify then executeNotify E eng tid rule disc
      else if r_action rule = ActionEscalate then executeEscalate E tid rule disc
      else if r_action rule = ActionAutoClose then executeAutoClose E tid rule disc
      else ret (Inl (ErrText (''unknown action: '' @ r_action rule))))"

section \<open>escalation.go\<close>

text \<open>\<open>-time.Duration(hrs) * time.Hour\<close>, an \<open>int64\<close> product that wraps around.\<close>

definition Hour :: "64 word" where
  "Hour = 3600000000000"

definition trigger_age :: "int \<Rightarrow> int" where
  "trigger_age hrs = sint (- (word_of_int hrs :: 64 word) * Hour)"

definition evaluateRule ::
  "env \<Rightarrow> escalation_engine \<Rightarrow> uuid \<Rightarrow> escalation_rule \<Rightarrow> (world, unit result) state" where
  "evaluateRule E eng tid rule = do {
     now \<leftarrow> time_Now E;
     listed \<leftarrow> ListForEscalation E tid (r_trigger_status rule) (r_severity_match rule)
                 (now + trigger_age (r_trigger_after_hrs rule));
     case listed of
       Inl e \<Rightarrow> ret (Inl (wrap ''evaluateRule: list'' e))
     | Inr discs \<Rightarrow> do {
         for_each (\<lambda>disc. do { _ \<leftarrow> executeAction E eng tid rule disc; ret () }) discs;
         ret (Inr ())
       }
   }"

definition evaluateTenant :: "env \<Rightarrow> escalation_engine \<Rightarrow> uuid \<Rightarrow> (world, unit result) state" where
  "evaluateTenant E eng tid = do {
     listed \<leftarrow> RuleStore_List E tid True;
     case listed of
       Inl e \<Rightarrow> ret (Inl (wrap ''evaluateTenant: list rules'' e))
     | Inr rules \<Rightarrow>
         if length rules = 0 then ret (Inr ())
         else do {
           for_each (\<lambda>rule. do { _ \<leftarrow> evaluateRule E eng tid rule; ret () }) rules;
           ret (Inr ())
         }
   }"

text \<open>The identifiers are scanned into UUIDs; one that does not scan is an error.\<close>

definition getActiveTenantIDs :: "env \<Rightarrow> (world, uuid list result) state" where
  "getActiveTenantIDs E =
     wrapped ''getActiveTenantIDs'' (pg E (query (\<lambda>t d.
       case those (map (uuid_parse E) (rows E t (remdups (map t_id (filter t_is_active (tenants d)))))) of
         None \<Rightarrow> Inl (ErrText ''scan'')
       | Some ids \<Rightarrow> Inr ids)))"

definition Evaluate :: "env \<Rightarrow> escalation_engine \<Rightarrow> (world, unit result) state" where
  "Evaluate E eng = do {
     got \<leftarrow> getActiveTenantIDs E;
     case got of
       Inl e \<Rightarrow> ret (Inl (wrap ''escalation.Evaluate'' e))
     | Inr tenantIDs \<Rightarrow> do {
         for_each (\<lambda>tid. do { _ \<leftarrow> evaluateTenant E eng tid; ret () }) tenantIDs;
         ret (Inr ())
       }
   }"

section \<open>What an action does to the ledger\<close>

lemma rule_list_relations:
  "state_io_rel errors_grow (RuleStore_List E tid active)"
  "state_io_rel (db_rel (ledger_steps E)) (RuleStore_List E tid active)"
  "state_io_rel errors_grow (getActiveTenantIDs E)"
  "state_io_rel (db_rel (ledger_steps E)) (getActiveTenantIDs E)"
  unfolding RuleStore_List_def getActiveTenantIDs_def
  by (intro errors_rules spec.io_basic)+

lemmas rule_list_quiet = quietI [OF rule_list_relations(1,2)] quietI [OF rule_list_relations(3,4)]

text \<open>
  The tail, run on a discrepancy whose row still has the status that was listed: when no statement
  fails it is one transition of the abstract ledger, or nothing.
\<close>

lemma change_status_steps:
  assumes codec: "uuid_codec E"
    and r: "r \<in> set (discrepancies (db w))" "is_row E tid i r" "ValidTransition (d_status r) s"
    and id: "d_id disc = uuid_text E i"
    and target: "event_target ty = Some s" and closed: "terminal s \<longleftrightarrow> res \<noteq> None"
    and run: "run_state (change_status E fn tid i rule disc s res ty) w = (out, w')"
    and calm: "sql_errors w' \<le> sql_errors w"
  shows "ledger_steps E (db w) (db w')"
proof -
  obtain upd w1 where u: "run_state (DiscrepancyStore_UpdateStatus E tid i s res) w = (upd, w1)" by fastforce
  have e1: "sql_errors w \<le> sql_errors w1"
    using erring.io_run [OF errors_writes(2) u] by (simp add: errors_grow_def)
  show ?thesis
  proof (cases upd)
    case (Inl e)
    with run u show ?thesis
      by (auto simp: change_status_def DiscrepancyStore_UpdateStatus_def dest: UpdateStatusWith_Inl)
  next
    case (Inr y)
    obtain now where now: "db w1 = updated (is_row E tid i) (set_status s res now) (db w)"
      and check: "\<And>x. x \<in> set (discrepancies (db w)) \<Longrightarrow> is_row E tid i x \<Longrightarrow> discrepancy_check (set_status s res now x)"
      using UpdateStatusWith_Inr u [unfolded Inr DiscrepancyStore_UpdateStatus_def] by metis
    let ?p = "Some [(''rule_id'', JStr (r_id rule)), (''rule_name'', JStr (r_name rule))]"
    obtain ev w2 where n: "run_state (NewLedgerEvent E (uuid_text E tid) (d_id disc) ty ''escalation-engine''
        ActorEscalation ?p) w1 = (ev, w2)" by fastforce
    then have ev: "e_discrepancy_id ev = uuid_text E i" "e_event_type ev = ty"
      and w2: "db w2 = db w1" "sql_errors w2 = sql_errors w1"
      using id by (auto simp: run_NewLedgerEvent)
    obtain saved w3 where a: "run_state (AppendWith E Pool tid ev) w2 = (saved, w3)" by fastforce
    have w3: "w' = w3" using run u Inr n a by (simp add: change_status_def)
    show ?thesis
    proof (cases saved)
      case (Inl e)
      with AppendWith_Inl_errors [OF a [unfolded Inl]] calm e1 w2 w3 show ?thesis by simp
    next
      case (Inr e)
      from a [unfolded Inr] obtain disc' where "pg_uuid E (e_discrepancy_id ev) = Some disc'"
        and e: "e = \<lparr>e_id = uuid_text E (gen_uuid E (tick w2)), e_tenant_id = uuid_text E tid,
              e_discrepancy_id = uuid_text E disc', e_event_type = e_event_type ev, e_actor = e_actor ev,
              e_actor_type = e_actor_type ev, e_payload = e_payload ev,
              e_sequence_num = event_seq (db w2), e_created_at = now_of E Pool (tick w2)\<rparr>"
        and w3': "db w3 = appended e (db w2)"
        by (rule AppendWith_Inr)
      then have "disc' = i" using codec ev by simp
      have "ledger_step E (db w) (transitioned E tid i s res now e (db w))"
        by (rule transition [OF r]) (use e ev \<open>disc' = i\<close> target closed check w2 now in simp_all)
      then show ?thesis by (simp add: w3 w3' w2 now transitioned_def one_step)
    qed
  qed
qed

lemma change_status_errors:
  "state_io_rel errors_grow (change_status E fn tid i rule disc s res ty)"
  unfolding change_status_def by (auto intro!: errors_rules errors_writes split: sum.split)

lemma executeEscalate_steps:
  assumes codec: "uuid_codec E" and ok: "sound E (db w)"
    and disc: "disc \<in> set (discrepancies (db w))" "d_tenant_id disc = uuid_text E tid"
    and run: "run_state (executeEscalate E tid rule disc) w = (out, w')"
    and calm: "sql_errors w' \<le> sql_errors w"
  shows "ledger_steps E (db w) (db w')"
proof -
  obtain i where i: "d_id disc = uuid_text E i" using ok disc by (auto simp: sound_def ids_ok_def)
  then have row: "is_row E tid i disc" using disc by (simp add: is_row_def)
  obtain al w1 where x: "run_state (ExistsForDiscrepancy E tid i EventEscalated) w = (al, w1)" by fastforce
  have w1: "db w1 = db w" using x unfolding ExistsForDiscrepancy_def by (rule wrapped_query_db)
  have e1: "sql_errors w \<le> sql_errors w1"
    using erring.io_run [OF errors_reads(3) x] by (simp add: errors_grow_def)
  show ?thesis
  proof (cases "al = Inr False \<and> ValidTransition (d_status disc) StatusEscalated")
    case False
    with run x i codec w1 show ?thesis
      by (auto simp: executeEscalate_def split: sum.splits bool.splits if_splits)
  next
    case go: True
    show ?thesis
    proof (cases "jstring (r_action_config rule) ''new_severity''")
      case None
      with run x i codec go have t: "run_state (change_status E ''executeEscalate'' tid i rule disc StatusEscalated None EventEscalated) w1 = (out, w')"
        by (simp add: executeEscalate_def)
      have "ledger_steps E (db w1) (db w')"
        by (rule change_status_steps [OF codec _ row _ i _ _ t])
           (use disc go w1 e1 calm in \<open>simp_all\<close>)
      with w1 show ?thesis by simp
    next
      case (Some sev)
      obtain upd w2 where u: "run_state (UpdateSeverity E tid i sev) w1 = (upd, w2)" by fastforce
      have e2: "sql_errors w1 \<le> sql_errors w2"
        using erring.io_run [OF errors_writes(3) u] by (simp add: errors_grow_def)
      show ?thesis
      proof (cases upd)
        case (Inl e)
        with run x i codec go Some u w1 show ?thesis
          by (auto simp: executeEscalate_def dest: UpdateSeverity_Inl)
      next
        case (Inr y)
        with run x i codec go Some u have t: "run_state (change_status E ''executeEscalate'' tid i rule disc StatusEscalated None EventEscalated) w2 = (out, w')"
          by (simp add: executeEscalate_def)
        obtain now where w2: "db w2 = updated (is_row E tid i) (\<lambda>r. r\<lparr>d_severity := sev, d_updated_at := now\<rparr>) (db w1)"
          and check: "\<And>x. x \<in> set (discrepancies (db w1)) \<Longrightarrow> is_row E tid i x \<Longrightarrow>
             discrepancy_check (x\<lparr>d_severity := sev, d_updated_at := now\<rparr>)"
          using UpdateSeverity_Inr u [unfolded Inr] by metis
        have "ledger_step E (db w1) (db w2)" unfolding w2 by (rule severity) (rule check)
        moreover have "ledger_steps E (db w2) (db w')"
        proof (rule change_status_steps [OF codec _ _ _ i _ _ t])
          show "disc\<lparr>d_severity := sev, d_updated_at := now\<rparr> \<in> set (discrepancies (db w2))"
            using disc row w1 by (auto simp: w2 image_iff intro!: bexI [of _ disc])
        qed (use row go e1 e2 calm in \<open>simp_all add: is_row_def\<close>)
        ultimately show ?thesis using w1 by simp
      qed
    qed
  qed
qed

lemma executeAutoClose_steps:
  assumes codec: "uuid_codec E" and ok: "sound E (db w)"
    and disc: "disc \<in> set (discrepancies (db w))" "d_tenant_id disc = uuid_text E tid"
    and run: "run_state (executeAutoClose E tid rule disc) w = (out, w')"
    and calm: "sql_errors w' \<le> sql_errors w"
  shows "ledger_steps E (db w) (db w')"
proof -
  obtain i where i: "d_id disc = uuid_text E i" using ok disc by (auto simp: sound_def ids_ok_def)
  then have row: "is_row E tid i disc" using disc by (simp add: is_row_def)
  obtain al w1 where x: "run_state (ExistsForDiscrepancy E tid i EventAutoClosed) w = (al, w1)" by fastforce
  have w1: "db w1 = db w" using x unfolding ExistsForDiscrepancy_def by (rule wrapped_query_db)
  have e1: "sql_errors w \<le> sql_errors w1"
    using erring.io_run [OF errors_reads(3) x] by (simp add: errors_grow_def)
  show ?thesis
  proof (cases "al = Inr False \<and> ValidTransition (d_status disc) StatusAutoClosed")
    case False
    with run x i codec w1 show ?thesis
      by (auto simp: executeAutoClose_def split: sum.splits bool.splits if_splits)
  next
    case go: True
    let ?w2 = "w1\<lparr>tick := Suc (tick w1)\<rparr>"
    from run x i codec go have t: "run_state (change_status E ''executeAutoClose'' tid i rule disc StatusAutoClosed
        (Some (clock E (tick w1))) EventAutoClosed) ?w2 = (out, w')"
      by (simp add: executeAutoClose_def)
    have "ledger_steps E (db ?w2) (db w')"
      by (rule change_status_steps [OF codec _ row _ i _ _ t])
         (use disc go w1 e1 calm in \<open>simp_all\<close>)
    with w1 show ?thesis by simp
  qed
qed

section \<open>Notifying\<close>

lemma notify_relations:
  "state_io_rel errors_grow (notificationExists E eng rule disc)"
  "state_io_rel (db_rel (ledger_steps E)) (notificationExists E eng rule disc)"
  "state_io_rel (db_rel (others i)) (notificationExists E eng rule disc)"
  "state_io_rel errors_grow (createNotificationLog E eng tid disc rule)"
  "state_io_rel (db_rel (ledger_steps E)) (createNotificationLog E eng tid disc rule)"
  "state_io_rel (db_rel (others i)) (createNotificationLog E eng tid disc rule)"
  unfolding notificationExists_def createNotificationLog_def
  by (auto intro!: errors_rules errors_reads errors_writes spec.io_basic spec.io_reads notification_steps
      beside.io_basic beside.io_reads beside_writes)

text \<open>The engine's side of the interface: whatever the sender does, the ledger is not touched.\<close>

definition uses :: "escalation_engine \<Rightarrow> sender \<Rightarrow> bool" where
  "uses eng send \<longleftrightarrow> hubClient eng = None \<or> hubClient eng = Some send"

context notification_sender begin

lemma sendViaHub_relations:
  assumes "uses eng send"
  shows "state_io_rel errors_grow (sendViaHub E eng tid rule disc notif)"
    and "state_io_rel (db_rel (ledger_steps E)) (sendViaHub E eng tid rule disc notif)"
    and "state_io_rel (db_rel (others i)) (sendViaHub E eng tid rule disc notif)"
  using assms unfolding sendViaHub_def uses_def
  by (auto intro!: errors_rules errors_writes send_grows_errors spec.io_basic notification_steps
      beside.io_basic beside_writes send_db_rel simp: others_same split: option.split sum.split)

lemma executeNotify_relations:
  assumes "uses eng send"
  shows "state_io_rel errors_grow (executeNotify E eng tid rule disc)"
    and "state_io_rel (db_rel (ledger_steps E)) (executeNotify E eng tid rule disc)"
    and "state_io_rel (db_rel (others i)) (executeNotify E eng tid rule disc)"
  unfolding executeNotify_def
  by (auto intro!: errors_rules spec.io_basic beside.io_basic notify_relations sendViaHub_relations [OF assms]
      split: option.split sum.split bool.split)

lemma executeAction_errors:
  assumes "uses eng send"
  shows "state_io_rel errors_grow (executeAction E eng tid rule disc)"
  unfolding executeAction_def executeEscalate_def executeAutoClose_def
  by (auto intro!: errors_rules errors_reads errors_writes change_status_errors
      executeNotify_relations [OF assms] split: option.split sum.split bool.split)

lemma executeAction_others:
  assumes "uses eng send" and "uuid_codec E" and "d_id disc = uuid_text E i"
  shows "state_io_rel (db_rel (others (d_id disc))) (executeAction E eng tid rule disc)"
  using assms(2,3)
  unfolding executeAction_def executeEscalate_def executeAutoClose_def change_status_def
  by (auto intro!: beside.io_basic beside.io_reads beside_writes executeNotify_relations [OF assms(1)]
      split: option.split sum.split bool.split)

lemma executeAction_steps:
  assumes "uses eng send" and codec: "uuid_codec E" and ok: "sound E (db w)"
    and disc: "disc \<in> set (discrepancies (db w))" "d_tenant_id disc = uuid_text E tid"
    and run: "run_state (executeAction E eng tid rule disc) w = (out, w')"
    and calm: "sql_errors w' \<le> sql_errors w"
  shows "ledger_steps E (db w) (db w')"
proof -
  consider (notify) "run_state (executeNotify E eng tid rule disc) w = (out, w')"
    | (escalate) "run_state (executeEscalate E tid rule disc) w = (out, w')"
    | (close) "run_state (executeAutoClose E tid rule disc) w = (out, w')"
    | (unknown) "w' = w"
    using run unfolding executeAction_def
    by (cases "r_action rule = ActionNotify"; cases "r_action rule = ActionEscalate";
        cases "r_action rule = ActionAutoClose") simp_all
  then show ?thesis
  proof cases
    case notify
    then show ?thesis
      using spec.lifted.io_run [OF executeNotify_relations(2) [OF assms(1)]] by (simp add: db_rel_def)
  next
    case escalate
    then show ?thesis by (rule executeEscalate_steps [OF codec ok disc _ calm])
  next
    case close
    then show ?thesis by (rule executeAutoClose_steps [OF codec ok disc _ calm])
  qed simp
qed

text \<open>
  The loop over the listed rows. An action only writes the row it is given, and the listed rows are
  different ones, so each action still finds its row as it was listed.
\<close>

lemma actions_steps:
  assumes "uses eng send" and codec: "uuid_codec E"
    and "sound E (db w)" and "distinct (map d_id discs)"
    and "\<forall>disc\<in>set discs. disc \<in> set (discrepancies (db w)) \<and> d_tenant_id disc = uuid_text E tid"
    and "run_state (for_each (\<lambda>disc. do { _ \<leftarrow> executeAction E eng tid rule disc; ret () }) discs) w = (u, w')"
    and "sql_errors w' \<le> sql_errors w"
  shows "ledger_steps E (db w) (db w')"
  using assms(3-)
proof (induction discs arbitrary: w)
  case Nil
  then show ?case by simp
next
  case (Cons disc discs)
  obtain out w1 where a: "run_state (executeAction E eng tid rule disc) w = (out, w1)" by fastforce
  have rest: "run_state (for_each (\<lambda>disc. do { _ \<leftarrow> executeAction E eng tid rule disc; ret () }) discs) w1 = (u, w')"
    using Cons.prems(4) a by simp
  have e: "sql_errors w \<le> sql_errors w1" "sql_errors w1 \<le> sql_errors w'"
    using erring.io_run [OF executeAction_errors [OF assms(1)] a]
      erring.io_run [OF erring.io_for_each [OF erring.io_bind [OF executeAction_errors [OF assms(1)] erring.io_ret]] rest]
    by (simp_all add: errors_grow_def)
  have disc: "disc \<in> set (discrepancies (db w))" "d_tenant_id disc = uuid_text E tid"
    using Cons.prems(3) by simp_all
  obtain i where i: "d_id disc = uuid_text E i"
    using Cons.prems(1) disc by (auto simp: sound_def ids_ok_def)
  have first: "ledger_steps E (db w) (db w1)"
    by (rule executeAction_steps [OF assms(1) codec Cons.prems(1) disc a]) (use e Cons.prems(5) in simp)
  have "others (d_id disc) (db w) (db w1)"
    using beside.lifted.io_run [OF executeAction_others [OF assms(1) codec i] a] by (simp add: db_rel_def)
  have still: "\<forall>x\<in>set discs. x \<in> set (discrepancies (db w1)) \<and> d_tenant_id x = uuid_text E tid"
  proof -
    have "d_id x \<noteq> d_id disc" if "x \<in> set discs" for x
      using Cons.prems(2) that by (auto simp: image_iff)
    with \<open>others (d_id disc) (db w) (db w1)\<close> Cons.prems(3) show ?thesis
      by (simp add: others_in)
  qed
  have "ledger_steps E (db w1) (db w')"
    by (rule Cons.IH [OF steps_inv [OF first Cons.prems(1)] _ still rest])
       (use Cons.prems(2,5) e in simp_all)
  with first show ?case by simp
qed

lemma evaluateRule_quiet:
  assumes hub: "uses eng send" and codec: "uuid_codec E"
  shows "state_io_rel (quiet E) (evaluateRule E eng tid rule)"
proof -
  have "quiet E w w'" if run: "run_state (evaluateRule E eng tid rule) w = (out, w')" for w out w'
  proof -
    have grow: "state_io_rel errors_grow (evaluateRule E eng tid rule)"
      unfolding evaluateRule_def
      by (auto intro!: errors_rules errors_reads executeAction_errors [OF hub] split: sum.split)
    let ?w1 = "w\<lparr>tick := Suc (tick w)\<rparr>"
    let ?cutoff = "clock E (tick w) + trigger_age (r_trigger_after_hrs rule)"
    obtain listed w2 where l: "run_state (ListForEscalation E tid (r_trigger_status rule) (r_severity_match rule) ?cutoff) ?w1 = (listed, w2)"
      by fastforce
    have w2: "db w2 = db w"
      using l unfolding ListForEscalation_def by (auto dest: wrapped_query_db)
    have e2: "sql_errors w \<le> sql_errors w2"
      using erring.io_run [OF errors_reads(2) l] by (simp add: errors_grow_def)
    have "ledger_steps E (db w) (db w')" if calm: "sql_errors w' = sql_errors w" and ok: "sound E (db w)"
    proof (cases listed)
      case (Inl e)
      with run l w2 show ?thesis by (simp add: evaluateRule_def)
    next
      case (Inr discs)
      then obtain u where rest: "run_state (for_each (\<lambda>disc. do { _ \<leftarrow> executeAction E eng tid rule disc; ret () }) discs) w2 = (u, w')"
        using run l by (auto simp: evaluateRule_def split: prod.splits)
      have discs: "discs = rows E (tick ?w1) (filter (\<lambda>r. d_tenant_id r = uuid_text E tid \<and>
           d_status r = r_trigger_status rule \<and> d_created_at r < ?cutoff \<and>
           (if r_severity_match rule \<noteq> ''*'' then d_severity r = r_severity_match rule else True)) (discrepancies (db w)))"
        using l Inr unfolding ListForEscalation_def by (auto dest: wrapped_query_Inr)
      have "distinct (map d_id (discrepancies (db w)))"
        using ok by (simp add: sound_def ledger_inv_def schema_ok_def)
      then have "distinct (map d_id discs)"
        unfolding discs rows_def by (simp add: distinct_map_filter)
      moreover have "\<forall>disc\<in>set discs. disc \<in> set (discrepancies (db w2)) \<and> d_tenant_id disc = uuid_text E tid"
        unfolding discs w2 by simp
      ultimately have "ledger_steps E (db w2) (db w')"
        using ok w2 calm e2 by (intro actions_steps [OF hub codec _ _ _ rest]) simp_all
      with w2 show ?thesis by simp
    qed
    then show ?thesis
      using erring.io_run [OF grow run] by (auto simp: quiet_def errors_grow_def)
  qed
  then show ?thesis unfolding state_io_rel_def by (metis prod.collapse)
qed

lemma Evaluate_quiet:
  assumes hub: "uses eng send" and codec: "uuid_codec E"
  shows "state_io_rel (quiet E) (Evaluate E eng)"
  unfolding Evaluate_def evaluateTenant_def
  by (auto intro!: quiet.io_rules evaluateRule_quiet [OF hub codec] rule_list_quiet split: sum.split)

end

section \<open>One notification for each rule and discrepancy\<close>

definition notified_keys :: "database \<Rightarrow> (string option \<times> string) list" where
  "notified_keys d = map (\<lambda>n. (n_escalation_rule_id n, n_discrepancy_id n)) (notification_logs d)"

definition notified_once :: "database \<Rightarrow> bool" where
  "notified_once d \<longleftrightarrow> (\<forall>rule disc. count_list (notified_keys d) (Some rule, disc) \<le> 1)"

definition same_keys :: "database \<Rightarrow> database \<Rightarrow> bool" where
  "same_keys d d' \<longleftrightarrow> notified_keys d' = notified_keys d"

interpretation same_keys: step_preorder same_keys
  by unfold_locales (simp_all add: same_keys_def)

interpretation keyed: table_relation same_keys ..

lemma same_keys_same [simp]: "notification_logs d' = notification_logs d \<Longrightarrow> same_keys d d'"
  by (simp add: same_keys_def notified_keys_def)

lemma keyed_writes:
  "state_io_rel (db_rel same_keys) (AppendWith E c tid x)"
  "state_io_rel (db_rel same_keys) (DiscrepancyStore_UpdateStatus E tid i s res)"
  "state_io_rel (db_rel same_keys) (UpdateSeverity E tid i sev)"
  "state_io_rel (db_rel same_keys) (NotificationStore_UpdateStatus E n st resp att)"
  unfolding AppendWith_def DiscrepancyStore_UpdateStatus_def UpdateStatusWith_def UpdateSeverity_def
    NotificationStore_UpdateStatus_def rows_or_not_found_def
  by (auto intro!: keyed.io_basic keyed.io_pg simp: update_stmt insert_event_def Let_def split: option.split)
     (auto simp: update_notifications_def Let_def same_keys_def notified_keys_def)

lemma keyed_actions:
  "state_io_rel (db_rel same_keys) (executeEscalate E tid rule disc)"
  "state_io_rel (db_rel same_keys) (executeAutoClose E tid rule disc)"
  unfolding executeEscalate_def executeAutoClose_def change_status_def
  by (auto intro!: keyed.io_basic keyed.io_reads keyed_writes split: option.split sum.split bool.split)

lemma notificationExists_False:
  assumes "run_state (notificationExists E eng rule disc) w = (Inr False, w')"
  shows "db w' = db w" and "(Some (uuid_text E rule), uuid_text E disc) \<notin> set (notified_keys (db w))"
  using assms
  by (auto simp: notificationExists_def run_wrapped run_pg query_def GetByRuleAndDiscrepancy_def first_row_def
      notified_keys_def filter_empty_conv split: if_splits prod.splits sum.splits goerr.splits list.splits)

lemma notificationExists_db:
  "run_state (notificationExists E eng rule disc) w = (out, w') \<Longrightarrow> db w' = db w"
  by (auto simp: notificationExists_def run_wrapped run_pg query_def GetByRuleAndDiscrepancy_def
      split: if_splits prod.splits)

lemma createNotificationLog_keys:
  "run_state (createNotificationLog E eng tid disc rule) w = (out, w') \<Longrightarrow>
     notified_keys (db w') = notified_keys (db w) \<or>
     notified_keys (db w') = notified_keys (db w) @ [(Some (uuid_text E rule), uuid_text E disc)]"
  by (auto simp: createNotificationLog_def NotificationStore_Create_def run_wrapped run_pg
      insert_notification_def rejected_def Let_def notified_keys_def split: if_splits prod.splits)

context notification_sender begin

lemma executeNotify_once:
  assumes hub: "uses eng send" and once: "notified_once (db w)"
    and run: "run_state (executeNotify E eng tid rule disc) w = (out, w')"
  shows "notified_once (db w')"
proof (cases "uuid_parse E (d_id disc) = None \<or> uuid_parse E (r_id rule) = None")
  case True
  with run once show ?thesis by (auto simp: executeNotify_def split: option.splits)
next
  case False
  then obtain i k where ik: "uuid_parse E (d_id disc) = Some i" "uuid_parse E (r_id rule) = Some k" by auto
  obtain al w1 where x: "run_state (notificationExists E eng k i) w = (al, w1)" by fastforce
  show ?thesis
  proof (cases "al = Inr False")
    case False
    with run ik x notificationExists_db [OF x] once show ?thesis
      by (auto simp: executeNotify_def split: sum.splits bool.splits)
  next
    case True
    note none = notificationExists_False [OF x [unfolded True]]
    obtain created w2 where c: "run_state (createNotificationLog E eng tid i k) w1 = (created, w2)" by fastforce
    have "notified_once (db w2)"
      using createNotificationLog_keys [OF c] none once
      by (auto simp: notified_once_def count_list_0_iff)
    moreover have "notified_keys (db w') = notified_keys (db w2)"
    proof (cases created)
      case (Inl e)
      with run ik x True c show ?thesis by (simp add: executeNotify_def)
    next
      case (Inr notif)
      obtain u w3 where h: "run_state (sendViaHub E eng tid rule disc notif) w2 = (u, w3)"
        by (cases "run_state (sendViaHub E eng tid rule disc notif) w2")
      have "state_io_rel (db_rel same_keys) (sendViaHub E eng tid rule disc notif)"
        using hub unfolding sendViaHub_def uses_def
        by (auto intro!: keyed.io_basic keyed_writes send_db_rel split: option.split sum.split)
      with h have "notified_keys (db w3) = notified_keys (db w2)"
        by (auto simp: db_rel_def same_keys_def dest: keyed.lifted.io_run)
      then show ?thesis using run ik x True c Inr h by (simp add: executeNotify_def)
    qed
    ultimately show ?thesis by (simp add: notified_once_def)
  qed
qed

lemma Evaluate_once:
  assumes hub: "uses eng send"
  shows "state_io_rel (keeps (notified_once \<circ> db)) (Evaluate E eng)"
proof -
  have lift: "state_io_rel (keeps (notified_once \<circ> db)) m" if "state_io_rel (db_rel same_keys) m"
    for m :: "(world, 'x) state"
    using that by (auto simp: state_io_rel_def keeps_def db_rel_def same_keys_def notified_once_def)
  have notify: "state_io_rel (keeps (notified_once \<circ> db)) (executeNotify E eng tid rule disc)" for tid rule disc
    unfolding state_io_rel_def keeps_def using executeNotify_once [OF hub] by (metis comp_apply prod.collapse)
  have reads: "state_io_rel (keeps (notified_once \<circ> db)) (RuleStore_List E tid active)"
    "state_io_rel (keeps (notified_once \<circ> db)) (getActiveTenantIDs E)"
    "state_io_rel (keeps (notified_once \<circ> db)) (ListForEscalation E tid st sev cutoff)"
    "state_io_rel (keeps (notified_once \<circ> db)) (time_Now E)" for tid active st sev cutoff
    unfolding RuleStore_List_def getActiveTenantIDs_def ListForEscalation_def
    by (intro lift keyed.io_basic)+
  show ?thesis
    unfolding Evaluate_def evaluateTenant_def evaluateRule_def executeAction_def
    by (auto intro!: keeping.io_rules reads notify lift [OF keyed_actions(1)] lift [OF keyed_actions(2)]
        split: sum.split)
qed

end

section \<open>The trigger\<close>

text \<open>Up to 2562047 hours, a bit over 292 years, the product of nanoseconds fits in 64 bits.\<close>

lemma trigger_age_fits:
  assumes "- 2562047 \<le> hrs" and "hrs \<le> 2562047"
  shows "trigger_age hrs = - hrs * 3600 * 10 ^ 9"
proof -
  have "- (word_of_int hrs :: 64 word) * Hour = word_of_int (- hrs * 3600000000000)"
    by (simp add: Hour_def)
  then have "trigger_age hrs = signed_take_bit 63 (- hrs * 3600000000000)"
    by (simp only: trigger_age_def sint_sbintrunc') simp
  also have "\<dots> = - hrs * 3600000000000"
    by (rule signed_take_bit_int_eq_self) (use assms in simp_all)
  finally show ?thesis by simp
qed

lemma trigger_age_wraps: "trigger_age 2562048 = 9223371273709551616"
  by code_simp

definition row_kept :: "discrepancy \<Rightarrow> database \<Rightarrow> database \<Rightarrow> bool" where
  "row_kept r d d' \<longleftrightarrow> (r \<in> set (discrepancies d) \<longrightarrow> r \<in> set (discrepancies d'))"

interpretation row_kept: step_preorder "row_kept r" for r
  by unfold_locales (auto simp: row_kept_def)

interpretation kept: table_relation "row_kept r" for r ..

context notification_sender begin

lemma executeAction_kept:
  assumes "uses eng send" and "uuid_codec E" and "d_id disc = uuid_text E i" and "d_id r \<noteq> d_id disc"
  shows "state_io_rel (db_rel (row_kept r)) (executeAction E eng tid rule disc)"
  using executeAction_others [OF assms(1-3)] assms(4)
  by (auto simp: state_io_rel_def db_rel_def row_kept_def intro: others_in)

lemma evaluateRule_kept:
  assumes hub: "uses eng send" and codec: "uuid_codec E" and ok: "sound E (db w)"
    and r: "r \<in> set (discrepancies (db w))"
    and miss: "\<not> (d_tenant_id r = uuid_text E tid \<and> d_status r = r_trigger_status rule \<and>
       MatchesSeverity rule (d_severity r) \<and>
       d_created_at r < clock E (tick w) + trigger_age (r_trigger_after_hrs rule))"
    and run: "run_state (evaluateRule E eng tid rule) w = (out, w')"
  shows "r \<in> set (discrepancies (db w'))"
proof -
  let ?w1 = "w\<lparr>tick := Suc (tick w)\<rparr>"
  let ?cutoff = "clock E (tick w) + trigger_age (r_trigger_after_hrs rule)"
  obtain listed w2 where l: "run_state (ListForEscalation E tid (r_trigger_status rule) (r_severity_match rule) ?cutoff) ?w1 = (listed, w2)"
    by fastforce
  have w2: "db w2 = db w"
    using l unfolding ListForEscalation_def by (auto dest: wrapped_query_db)
  show ?thesis
  proof (cases listed)
    case (Inl e)
    with run l w2 r show ?thesis by (simp add: evaluateRule_def)
  next
    case (Inr discs)
    then obtain u where rest: "run_state (for_each (\<lambda>disc. do { _ \<leftarrow> executeAction E eng tid rule disc; ret () }) discs) w2 = (u, w')"
      using run l by (auto simp: evaluateRule_def split: prod.splits)
    have sel: "disc \<in> set (discrepancies (db w)) \<and> d_tenant_id disc = uuid_text E tid \<and>
        d_status disc = r_trigger_status rule \<and> MatchesSeverity rule (d_severity disc) \<and> d_created_at disc < ?cutoff"
      if "disc \<in> set discs" for disc
      using l Inr that unfolding ListForEscalation_def
      by (auto dest!: wrapped_query_Inr simp: MatchesSeverity_def split: if_splits)
    have other: "d_id r \<noteq> d_id disc" if "disc \<in> set discs" for disc
      using sel [OF that] miss same_id [of "db w" r disc] r ok by (auto simp: sound_def ledger_inv_def)
    have "\<exists>i. d_id disc = uuid_text E i" if "disc \<in> set discs" for disc
      using sel [OF that] ok by (auto simp: sound_def ids_ok_def)
    then have "state_io_rel (db_rel (row_kept r)) (for_each (\<lambda>disc. do { _ \<leftarrow> executeAction E eng tid rule disc; ret () }) discs)"
      using other by (intro kept.lifted.io_for_each_in kept.lifted.io_bind kept.lifted.io_ret)
        (metis executeAction_kept [OF hub codec])
    from kept.lifted.io_run [OF this rest] show ?thesis
      using r w2 by (simp add: db_rel_def row_kept_def)
  qed
qed

end

section \<open>The engine as the service wires it\<close>

text \<open>\<open>main.go\<close>: the engine with the notification store and a hub client.\<close>

definition wired :: "env \<Rightarrow> hub_client \<Rightarrow> escalation_engine" where
  "wired E c = WithNotifications (Some (hub_send E c)) NewEscalationEngine"

lemma uses_wired: "uses (wired E c) (hub_send E c)"
  by (simp add: uses_def wired_def WithNotifications_def)

text \<open>
  C7 (refinement). A pass of the engine in which no statement fails takes the tables through steps of
  the abstract ledger only: every status it changes moves along the machine and has its event, so
  the invariant holds afterwards. The hub may do what it likes.
\<close>

theorem engine_refines:
  assumes codec: "uuid_codec E" and ok: "sound E (db w)"
    and run: "run_state (Evaluate E (wired E c)) w = (out, w')"
    and calm: "sql_errors w' = sql_errors w"
  shows "ledger_steps E (db w) (db w') \<and> sound E (db w')"
  using quiet.io_run [OF hub.Evaluate_quiet [OF uses_wired codec] run] ok calm
  by (auto simp: quiet_def dest: steps_inv)

text \<open>
  C14 (safety). A rule only acts on what it matches: whatever fails, a discrepancy of another tenant, in
  another status, of a severity the rule does not match, or not older than \<open>trigger_after_hrs\<close> hours
  when the rule is evaluated, keeps its row unchanged. The bound on the hours is where the 64-bit
  product of nanoseconds fits.
\<close>

theorem rule_only_matches:
  assumes codec: "uuid_codec E" and ok: "sound E (db w)"
    and hrs: "- 2562047 \<le> r_trigger_after_hrs rule" "r_trigger_after_hrs rule \<le> 2562047"
    and r: "r \<in> set (discrepancies (db w))"
    and miss: "\<not> (d_tenant_id r = uuid_text E tid \<and> d_status r = r_trigger_status rule \<and>
       MatchesSeverity rule (d_severity r) \<and>
       d_created_at r + r_trigger_after_hrs rule * 3600 * 10 ^ 9 < clock E (tick w))"
    and run: "run_state (evaluateRule E (wired E c) tid rule) w = (out, w')"
  shows "r \<in> set (discrepancies (db w'))"
  using hub.evaluateRule_kept [OF uses_wired codec ok r _ run] miss
  by (simp add: trigger_age_fits [OF hrs] algebra_simps)

text \<open>
  Beyond that bound the product wraps around: a rule with 2562048 hours, which the API and
  the table accept, has its cutoff 292 years in the future, so it selects every matching discrepancy
  as soon as it is created.
\<close>

lemma trigger_wraps_around:
  "rule_check (sample_rule StatusOpen ActionAutoClose 2562048) \<and>
   now < now + trigger_age (r_trigger_after_hrs (sample_rule StatusOpen ActionAutoClose 2562048))"
proof
  show "rule_check (sample_rule StatusOpen ActionAutoClose 2562048)" by code_simp
  show "now < now + trigger_age (r_trigger_after_hrs (sample_rule StatusOpen ActionAutoClose 2562048))"
    by (simp add: sample_rule_def trigger_age_wraps)
qed

text \<open>
  C15 (invariant). However often the engine runs and whatever fails, it never logs a second notification
  for the same rule and discrepancy.
\<close>

theorem engine_notifies_once:
  assumes "notified_once (db w)" and "run_state (Evaluate E (wired E c)) w = (out, w')"
  shows "notified_once (db w')"
  using keeping.io_run [OF hub.Evaluate_once [OF uses_wired] assms(2)] assms(1) by (simp add: keeps_def)

definition closing_world :: world where
  "closing_world = sample_world ((sample_db [sample_row StatusOpen None] [])
     \<lparr>escalation_rules := [sample_rule StatusOpen ActionAutoClose 0]\<rparr>)"

lemma closing_sound: "sound calm (db closing_world)"
  using sample_sound [where rs = "[sample_rule StatusOpen ActionAutoClose 0]" and ns = "[]"]
  by (simp add: closing_world_def sample_db_def)

definition mute_hub :: hub_client where
  "mute_hub = NewHubClient [] [] False 3 (\<lambda>t u k e. NoAnswer [])"


lemma engine_refines_witness:
  "let w' = snd (run_state (Evaluate calm (wired calm mute_hub)) closing_world)
   in ledger_steps calm (db closing_world) (db w') \<and> sound calm (db w') \<and>
      map e_event_type (ledger_events (db w')) = [EventAutoClosed]"
proof -
  let ?r = "run_state (Evaluate calm (wired calm mute_hub)) closing_world"
  note closing_sound
  moreover have "sql_errors (snd ?r) = sql_errors closing_world \<and>
      map e_event_type (ledger_events (db (snd ?r))) = [EventAutoClosed]"
    by code_simp
  moreover have "?r = (fst ?r, snd ?r)" by simp
  ultimately show ?thesis
    using engine_refines [OF codec_calm, of closing_world mute_hub "fst ?r" "snd ?r"] by (simp add: Let_def)
qed

text \<open>A rule for discrepancies that are being investigated leaves the open one alone.\<close>

lemma rule_only_matches_witness:
  "sample_row StatusOpen None \<in> set (discrepancies (db (snd (run_state
     (evaluateRule calm (wired calm mute_hub) 5 (sample_rule StatusInvestigating ActionEscalate 24)) closing_world))))"
proof -
  let ?rule = "sample_rule StatusInvestigating ActionEscalate 24"
  let ?r = "run_state (evaluateRule calm (wired calm mute_hub) 5 ?rule) closing_world"
  show ?thesis
    by (rule rule_only_matches [OF codec_calm closing_sound, where rule = ?rule and tid = 5 and out = "fst ?r"])
       (simp_all add: closing_world_def sample_db_def sample_rule_def sample_row_def go_consts)
qed

lemma engine_notifies_once_witness:
  "notified_once (db (snd (run_state (Evaluate calm (wired calm mute_hub))
     (closing_world\<lparr>db := (db closing_world)\<lparr>escalation_rules := [sample_rule StatusOpen ActionNotify 0]\<rparr>\<rparr>))))"
proof -
  let ?w = "closing_world\<lparr>db := (db closing_world)\<lparr>escalation_rules := [sample_rule StatusOpen ActionNotify 0]\<rparr>\<rparr>"
  let ?r = "run_state (Evaluate calm (wired calm mute_hub)) ?w"
  have "notified_once (db ?w)"
    by (simp add: notified_once_def notified_keys_def closing_world_def sample_db_def)
  then show ?thesis
    by (rule engine_notifies_once [where out = "fst ?r" and E = calm and c = mute_hub]) simp
qed

end
