(* ===== verification/Ingestion.thy ===== *)
theory Ingestion
  imports LedgerSpec
begin

text \<open>
  \<open>internal/engine/ingestion.go\<close> and \<open>ingestion_handler.go\<close>: the NATS consumer. A message is its
  parsed data (\<open>None\<close>: not JSON) and its delivery count (\<open>None\<close>: \<open>msg.Metadata\<close> failed); the answer
  to the server is appended to the world's replies. Connecting, subscribing and draining are calls
  of the NATS library and are not modelled.
\<close>

section \<open>Messages\<close>

record nats_msg =
  msg_data :: "json option"
  msg_delivered :: "64 word option"

record ingestPayload =
  ExternalID :: string
  SourceSystem :: string
  DiscrepancyType :: string
  Severity :: string
  Title :: string
  Description :: string
  AmountExpected :: "rat option"
  AmountActual :: "rat option"
  Currency :: string
  Metadata :: jobject

record ingestEnvelope =
  EventType :: string
  Source :: string
  TenantID :: string
  Timestamp :: string
  Payload :: ingestPayload

definition zero_payload :: ingestPayload where
  "zero_payload = \<lparr>ExternalID = [], SourceSystem = [], DiscrepancyType = [], Severity = [], Title = [],
     Description = [], AmountExpected = None, AmountActual = None, Currency = [], Metadata = None\<rparr>"

text \<open>Decoding into the payload struct \<open>p\<close> that is already there.\<close>

definition dec_payload :: "(string \<times> json) list \<Rightarrow> ingestPayload \<Rightarrow> ingestPayload option" where
  "dec_payload kvs p =
     (case dec_field as_string ''external_id'' (ExternalID p) kvs of None \<Rightarrow> None | Some ext \<Rightarrow>
     (case dec_field as_string ''source_system'' (SourceSystem p) kvs of None \<Rightarrow> None | Some src \<Rightarrow>
     (case dec_field as_string ''discrepancy_type'' (DiscrepancyType p) kvs of None \<Rightarrow> None | Some ty \<Rightarrow>
     (case dec_field as_string ''severity'' (Severity p) kvs of None \<Rightarrow> None | Some sev \<Rightarrow>
     (case dec_field as_string ''title'' (Title p) kvs of None \<Rightarrow> None | Some title \<Rightarrow>
     (case dec_field as_string ''description'' (Description p) kvs of None \<Rightarrow> None | Some descr \<Rightarrow>
     (case dec_field as_float_ptr ''amount_expected'' (AmountExpected p) kvs of None \<Rightarrow> None | Some expected \<Rightarrow>
     (case dec_field as_float_ptr ''amount_actual'' (AmountActual p) kvs of None \<Rightarrow> None | Some actual \<Rightarrow>
     (case dec_field as_string ''currency'' (Currency p) kvs of None \<Rightarrow> None | Some cur \<Rightarrow>
     (case dec_field as_map ''metadata'' (Metadata p) kvs of None \<Rightarrow> None | Some meta \<Rightarrow>
        Some \<lparr>ExternalID = ext, SourceSystem = src, DiscrepancyType = ty, Severity = sev, Title = title,
              Description = descr, AmountExpected = expected, AmountActual = actual, Currency = cur,
              Metadata = meta\<rparr>))))))))))"

definition as_payload :: "json \<Rightarrow> ingestPayload \<Rightarrow> ingestPayload option" where
  "as_payload j p = (case members j of None \<Rightarrow> None | Some kvs \<Rightarrow> dec_payload kvs p)"

definition dec_envelope :: "json \<Rightarrow> ingestEnvelope option" where
  "dec_envelope j =
     (case members j of None \<Rightarrow> None | Some kvs \<Rightarrow>
     (case dec_field as_string ''event_type'' [] kvs of None \<Rightarrow> None | Some ty \<Rightarrow>
     (case dec_field as_string ''source'' [] kvs of None \<Rightarrow> None | Some src \<Rightarrow>
     (case dec_field as_string ''tenant_id'' [] kvs of None \<Rightarrow> None | Some ten \<Rightarrow>
     (case dec_field as_string ''timestamp'' [] kvs of None \<Rightarrow> None | Some ts \<Rightarrow>
     (case dec_field as_payload ''payload'' zero_payload kvs of None \<Rightarrow> None | Some p \<Rightarrow>
        Some \<lparr>EventType = ty, Source = src, TenantID = ten, Timestamp = ts, Payload = p\<rparr>))))))"

definition envelope_validate :: "ingestEnvelope \<Rightarrow> string option" where
  "envelope_validate e =
     (if EventType e = [] then Some ''missing required field: event_type''
      else if Source e = [] then Some ''missing required field: source''
      else if TenantID e = [] then Some ''missing required field: tenant_id''
      else if Timestamp e = [] then Some ''missing required field: timestamp''
      else None)"

definition payload_validate :: "ingestPayload \<Rightarrow> string option" where
  "payload_validate p =
     (if ExternalID p = [] then Some ''missing required payload field: external_id''
      else if Severity p = [] then Some ''missing required payload field: severity''
      else if Title p = [] then Some ''missing required payload field: title''
      else if DiscrepancyType p = [] then Some ''missing required payload field: discrepancy_type''
      else None)"

section \<open>The handler\<close>

definition reply :: "nats_reply \<Rightarrow> (world, unit) state" where
  "reply x = modify (\<lambda>w. w\<lparr>replies := replies w @ [x]\<rparr>)"

definition maxDeliveryAttempts :: int where
  "maxDeliveryAttempts = 3"

definition shouldDeadLetter :: "nats_msg \<Rightarrow> (world, bool) state" where
  "shouldDeadLetter msg =
     (case msg_delivered msg of
        None \<Rightarrow> ret False
      | Some n \<Rightarrow> if n > word_of_int maxDeliveryAttempts then do { reply Term; ret True } else ret False)"

text \<open>\<open>tid, _ := uuid.Parse(s)\<close>: the zero UUID on an error.\<close>

definition parse_or_zero :: "env \<Rightarrow> string \<Rightarrow> uuid" where
  "parse_or_zero E s = (case uuid_parse E s of None \<Rightarrow> 0 | Some u \<Rightarrow> u)"

definition active_tenant :: "env \<Rightarrow> uuid \<Rightarrow> database \<Rightarrow> bool" where
  "active_tenant E tid d \<longleftrightarrow> (\<exists>t\<in>set (tenants d). t_id t = uuid_text E tid \<and> t_is_active t)"

text \<open>\<open>Some\<close> is the error; the message has then been refused.\<close>

definition validateTenant :: "env \<Rightarrow> string \<Rightarrow> (world, string option) state" where
  "validateTenant E tenantID =
     (case uuid_parse E tenantID of
        None \<Rightarrow> do { reply Nak; ret (Some ''ingestion.validateTenant: invalid UUID'') }
      | Some tid \<Rightarrow> do {
          r \<leftarrow> pg E (query (\<lambda>t d. Inr (active_tenant E tid d)));
          case r of
            Inl e \<Rightarrow> do { reply Nak; ret (Some (''ingestion.validateTenant: query: '' @ err_text e)) }
          | Inr ex \<Rightarrow>
              if \<not> ex
              then do { reply Nak; ret (Some ''ingestion.validateTenant: tenant not found or inactive'') }
              else ret None
        })"

definition isDuplicate :: "env \<Rightarrow> string \<Rightarrow> string \<Rightarrow> (world, bool) state" where
  "isDuplicate E tenantID externalID = do {
     r \<leftarrow> GetByExternalID E (parse_or_zero E tenantID) externalID;
     case r of
       Inr _ \<Rightarrow> do { reply Ack; ret True }
     | Inl _ \<Rightarrow> ret False
   }"

definition new_discrepancy :: "ingestPayload \<Rightarrow> discrepancy" where
  "new_discrepancy p =
     \<lparr>d_id = [], d_tenant_id = [], d_external_id = ExternalID p, d_source_system = SourceSystem p,
      d_discrepancy_type = DiscrepancyType p, d_severity = Severity p, d_status = StatusOpen,
      d_title = Title p, d_description = (if Description p \<noteq> [] then Some (Description p) else None),
      d_amount_expected = AmountExpected p, d_amount_actual = AmountActual p, d_currency = Currency p,
      d_metadata = Metadata p, d_first_detected_at = zero_time, d_resolved_at = None,
      d_created_at = zero_time, d_updated_at = zero_time\<rparr>"

definition persistDiscrepancy :: "env \<Rightarrow> ingestEnvelope \<Rightarrow> (world, unit) state" where
  "persistDiscrepancy E env = (let tid = parse_or_zero E (TenantID env); p = Payload env in do {
     r \<leftarrow> DiscrepancyStore_Create E tid (new_discrepancy p);
     case r of
       Inl _ \<Rightarrow> reply Nak
     | Inr created \<Rightarrow> do {
         ledgerEvent \<leftarrow> NewLedgerEvent E (TenantID env) (d_id created) EventReceived ''nats-ingestion''
                          ActorSystem
                          (Some [(''source'', JStr (Source env)), (''external_id'', JStr (ExternalID p)),
                                 (''severity'', JStr (Severity p))]);
         _ \<leftarrow> EventStore_Append E tid ledgerEvent;
         reply Ack
       }
   })"

definition handleMessage :: "env \<Rightarrow> nats_msg \<Rightarrow> (world, unit) state" where
  "handleMessage E msg = do {
     dead \<leftarrow> shouldDeadLetter msg;
     if dead then ret ()
     else case Option.bind (msg_data msg) dec_envelope of
       None \<Rightarrow> reply Nak
     | Some env \<Rightarrow>
         if envelope_validate env \<noteq> None then reply Nak
         else if payload_validate (Payload env) \<noteq> None then reply Nak
         else do {
           bad \<leftarrow> validateTenant E (TenantID env);
           if bad \<noteq> None then ret ()
           else do {
             dup \<leftarrow> isDuplicate E (TenantID env) (ExternalID (Payload env));
             if dup then ret () else persistDiscrepancy E env
           }
         }
   }"

section \<open>What a message does\<close>

lemma run_reply [simp]: "run_state (reply x) w = ((), w\<lparr>replies := replies w @ [x]\<rparr>)"
  by (simp add: reply_def)

text \<open>Statements of the database leave the replies alone.\<close>

lemma replies_pg: "run_state (pg E q) w = (r, w') \<Longrightarrow> replies w' = replies w"
  by (auto simp: run_pg split: if_splits)

lemma replies_wrapped_pg: "run_state (wrapped ctx (pg E q)) w = (r, w') \<Longrightarrow> replies w' = replies w"
  by (auto simp: run_wrapped dest!: replies_pg split: prod.splits)

lemma GetByExternalID_db: "run_state (GetByExternalID E tid ext) w = (r, w') \<Longrightarrow> db w' = db w"
  unfolding GetByExternalID_def by (rule wrapped_query_db)

lemma GetByExternalID_Inr:
  "run_state (GetByExternalID E tid ext) w = (Inr r, w') \<Longrightarrow>
     r \<in> set (discrepancies (db w)) \<and> d_tenant_id r = uuid_text E tid \<and> d_external_id r = ext"
  unfolding GetByExternalID_def
  by (drule wrapped_query_Inr) (auto simp: rejected_def dest: first_row_Inr split: if_splits)

definition stored :: "env \<Rightarrow> uuid \<Rightarrow> string \<Rightarrow> database \<Rightarrow> bool" where
  "stored E tid ext d \<longleftrightarrow>
     (\<exists>r\<in>set (discrepancies d). d_tenant_id r = uuid_text E tid \<and> d_external_id r = ext)"

text \<open>The outcomes of the last step.\<close>

lemma persist_cases:
  assumes codec: "uuid_codec E"
    and run: "run_state (persistDiscrepancy E env) w = (u, w')"
  obtains (refused) "db w' = db w" and "replies w' = replies w @ [Nak]"
  | (no_event) row seq where "replies w' = replies w @ [Ack]"
      and "discrepancy_insertable (db w) row" and "d_status row = StatusOpen" "d_resolved_at row = None"
      and "d_tenant_id row = uuid_text E (parse_or_zero E (TenantID env))"
      and "d_external_id row = ExternalID (Payload env)" "d_id row = uuid_text E (gen_uuid E (tick w))"
      and "event_seq (db w) \<le> seq"
      and "db w' = (db w)\<lparr>discrepancies := discrepancies (db w) @ [row], event_seq := seq\<rparr>"
  | (received) row ev where "replies w' = replies w @ [Ack]"
      and "discrepancy_insertable (db w) row" and "d_status row = StatusOpen" "d_resolved_at row = None"
      and "d_tenant_id row = uuid_text E (parse_or_zero E (TenantID env))"
      and "d_external_id row = ExternalID (Payload env)" "d_id row = uuid_text E (gen_uuid E (tick w))"
      and "e_discrepancy_id ev = d_id row" "e_tenant_id ev = d_tenant_id row"
      and "e_event_type ev = EventReceived" "e_sequence_num ev = event_seq (db w)"
      and "e_actor_type ev = ActorSystem"
      and "db w' = appended ev ((db w)\<lparr>discrepancies := discrepancies (db w) @ [row]\<rparr>)"
proof -
  let ?tid = "parse_or_zero E (TenantID env)"
  obtain c w1 where cr: "run_state (DiscrepancyStore_Create E ?tid (new_discrepancy (Payload env))) w = (c, w1)"
    by fastforce
  have rep1: "replies w1 = replies w"
    using cr unfolding DiscrepancyStore_Create_def by (rule replies_pg)
  show thesis
  proof (cases c)
    case (Inl e)
    with run cr rep1 show thesis
      by (auto simp: persistDiscrepancy_def Let_def dest: Create_Inl intro!: refused)
  next
    case (Inr row)
    note new = Create_Inr [OF cr [unfolded Inr]]
    then have row: "d_status row = StatusOpen" "d_external_id row = ExternalID (Payload env)"
      by (simp_all add: new_discrepancy_def)
    obtain e w2 where n: "run_state (NewLedgerEvent E (TenantID env) (d_id row) EventReceived ''nats-ingestion''
          ActorSystem (Some [(''source'', JStr (Source env)), (''external_id'', JStr (ExternalID (Payload env))),
            (''severity'', JStr (Severity (Payload env)))])) w1 = (e, w2)" by fastforce
    then have e: "e_discrepancy_id e = d_id row" "e_event_type e = EventReceived" "e_actor_type e = ActorSystem"
      and w2: "db w2 = db w1" "replies w2 = replies w1"
      by (auto simp: run_NewLedgerEvent)
    obtain a w3 where ap: "run_state (AppendWith E Pool ?tid e) w2 = (a, w3)" by fastforce
    have rep3: "replies w3 = replies w2"
      using ap unfolding AppendWith_def by (rule replies_wrapped_pg)
    have w': "w' = w3\<lparr>replies := replies w3 @ [Ack]\<rparr>"
      using run cr Inr n ap by (simp add: persistDiscrepancy_def Let_def EventStore_Append_def)
    show thesis
    proof (cases a)
      case (Inl err)
      from ap [unfolded Inl] obtain seq where "event_seq (db w2) \<le> seq" "db w3 = (db w2)\<lparr>event_seq := seq\<rparr>"
        by (rule AppendWith_Inl)
      then show thesis
        using new row w' rep1 rep3 w2 by (intro no_event [of row seq]) auto
    next
      case (Inr ev)
      from ap [unfolded Inr] obtain disc where "pg_uuid E (e_discrepancy_id e) = Some disc"
        and ev: "ev = \<lparr>e_id = uuid_text E (gen_uuid E (tick w2)), e_tenant_id = uuid_text E ?tid,
              e_discrepancy_id = uuid_text E disc, e_event_type = e_event_type e, e_actor = e_actor e,
              e_actor_type = e_actor_type e, e_payload = e_payload e,
              e_sequence_num = event_seq (db w2), e_created_at = now_of E Pool (tick w2)\<rparr>"
        and "db w3 = appended ev (db w2)"
        by (rule AppendWith_Inr)
      moreover from this have "uuid_text E disc = d_id row"
        using codec e new by simp
      ultimately show thesis
        using new row w' rep1 rep3 w2 e by (intro received [where row = row and ev = ev]) auto
    qed
  qed
qed

text \<open>The outcomes of a message: refused or terminated, a duplicate, or handed to the last step.\<close>

lemma handleMessage_cases:
  assumes run: "run_state (handleMessage E msg) w = (u, w')"
  obtains (untouched) x where "x \<noteq> Ack" and "db w' = db w" and "replies w' = replies w @ [x]"
  | (duplicate) env tid where "Option.bind (msg_data msg) dec_envelope = Some env"
      and "uuid_parse E (TenantID env) = Some tid"
      and "stored E tid (ExternalID (Payload env)) (db w)"
      and "db w' = db w" and "replies w' = replies w @ [Ack]"
  | (persist) env tid w1 where "Option.bind (msg_data msg) dec_envelope = Some env"
      and "uuid_parse E (TenantID env) = Some tid"
      and "db w1 = db w" and "replies w1 = replies w"
      and "run_state (persistDiscrepancy E env) w1 = (u, w')"
proof (cases "\<exists>n. msg_delivered msg = Some n \<and> n > word_of_int maxDeliveryAttempts")
  case True
  with run show thesis
    by (intro untouched [of Term]) (auto simp: handleMessage_def shouldDeadLetter_def)
next
  case alive: False
  then have dead: "run_state (shouldDeadLetter msg) w = (False, w)"
    by (auto simp: shouldDeadLetter_def split: option.splits)
  show thesis
  proof (cases "Option.bind (msg_data msg) dec_envelope")
    case None
    with run dead show thesis by (intro untouched [of Nak]) (auto simp: handleMessage_def)
  next
    case (Some env)
    show thesis
    proof (cases "envelope_validate env = None \<and> payload_validate (Payload env) = None")
      case False
      with run dead Some show thesis
        by (intro untouched [of Nak]) (auto simp: handleMessage_def split: if_splits)
    next
      case valid: True
      obtain bad w1 where v: "run_state (validateTenant E (TenantID env)) w = (bad, w1)" by fastforce
      show thesis
      proof (cases bad)
        case (Some err)
        then have "db w1 = db w \<and> replies w1 = replies w @ [Nak]"
          using v by (auto simp: validateTenant_def dest: run_query_db replies_pg
              split: option.splits sum.splits prod.splits if_splits)
        moreover have "w' = w1"
          using run dead \<open>Option.bind _ _ = Some env\<close> valid v Some by (auto simp: handleMessage_def)
        ultimately show thesis by (intro untouched [of Nak]) auto
      next
        case None
        then obtain tid where tid: "uuid_parse E (TenantID env) = Some tid"
          and w1: "db w1 = db w" "replies w1 = replies w"
          using v by (auto simp: validateTenant_def dest: run_query_db replies_pg
              split: option.splits sum.splits prod.splits if_splits)
        obtain g w2 where g: "run_state (GetByExternalID E (parse_or_zero E (TenantID env)) (ExternalID (Payload env))) w1 = (g, w2)"
          by fastforce
        have w2: "db w2 = db w1" "replies w2 = replies w1"
          using GetByExternalID_db [OF g] replies_wrapped_pg [OF g [unfolded GetByExternalID_def]] by auto
        show thesis
        proof (cases g)
          case (Inl e)
          have "run_state (persistDiscrepancy E env) w2 = (u, w')"
            using run dead \<open>Option.bind _ _ = Some env\<close> valid v None g Inl
            by (auto simp: handleMessage_def isDuplicate_def)
          then show thesis
            using \<open>Option.bind _ _ = Some env\<close> tid w1 w2 by (intro persist [of env tid w2]) auto
        next
          case (Inr r)
          then have "stored E tid (ExternalID (Payload env)) (db w)"
            using GetByExternalID_Inr [OF g [unfolded Inr]] tid w1 by (auto simp: stored_def parse_or_zero_def)
          moreover have "w' = w2\<lparr>replies := replies w2 @ [Ack]\<rparr>"
            using run dead \<open>Option.bind _ _ = Some env\<close> valid v None g Inr
            by (auto simp: handleMessage_def isDuplicate_def)
          ultimately show thesis
            using \<open>Option.bind _ _ = Some env\<close> tid w1 w2 by (intro duplicate [of env tid]) auto
        qed
      qed
    qed
  qed
qed

section \<open>Ingestion refines the abstract ledger\<close>

lemma persist_steps:
  assumes codec: "uuid_codec E" and run: "run_state (persistDiscrepancy E env) w = (u, w')"
  shows "ledger_steps E (db w) (db w')"
  using codec run
proof (cases rule: persist_cases)
  case refused
  then show ?thesis by simp
next
  case (no_event row seq)
  let ?d = "(db w)\<lparr>discrepancies := discrepancies (db w) @ [row]\<rparr>"
  have "ledger_step E (db w) ?d" using no_event by (auto intro: create)
  moreover have "ledger_step E ?d (?d\<lparr>event_seq := seq\<rparr>)" using no_event by (intro draw) simp
  ultimately show ?thesis using no_event by simp
next
  case (received row ev)
  let ?d = "(db w)\<lparr>discrepancies := discrepancies (db w) @ [row]\<rparr>"
  have "ledger_step E (db w) ?d" using received by (auto intro: create)
  moreover have "ledger_step E ?d (appended ev ?d)"
    by (rule append [of row]) (use received in simp_all)
  ultimately show ?thesis using received by simp
qed

lemma handleMessage_steps:
  assumes codec: "uuid_codec E"
  shows "state_io_rel (db_rel (ledger_steps E)) (handleMessage E msg)"
proof (rule db_relI)
  fix w u w'
  assume run: "run_state (handleMessage E msg) w = (u, w')"
  then show "ledger_steps E (db w) (db w')"
  proof (cases rule: handleMessage_cases)
    case (persist env tid w1)
    with persist_steps [OF codec persist(5)] show ?thesis by simp
  qed simp_all
qed

section \<open>Properties\<close>

text \<open>A sample message, for the discrepancy of the sample row.\<close>

definition sample_payload :: ingestPayload where
  "sample_payload = zero_payload\<lparr>ExternalID := ''ext-1'', DiscrepancyType := ''missing'',
     Severity := ''low'', Title := ''T''\<rparr>"

definition sample_envelope :: ingestEnvelope where
  "sample_envelope = \<lparr>EventType = ''e'', Source = ''s'', TenantID = ''5'', Timestamp = ''now'',
     Payload = sample_payload\<rparr>"

definition sample_msg :: nats_msg where
  "sample_msg = \<lparr>msg_data = Some (JObj
      [(''event_type'', JStr ''e''), (''source'', JStr ''s''), (''tenant_id'', JStr ''5''),
       (''timestamp'', JStr ''now''),
       (''payload'', JObj [(''external_id'', JStr ''ext-1''), (''discrepancy_type'', JStr ''missing''),
          (''severity'', JStr ''low''), (''title'', JStr ''T'')])]),
     msg_delivered = Some 1\<rparr>"

lemma sample_msg_decodes: "Option.bind (msg_data sample_msg) dec_envelope = Some sample_envelope"
  by code_simp

lemma sample_stored: "stored calm 5 ''ext-1'' (sample_db [sample_row st res] es)"
  by (simp add: stored_def sample_db_def sample_row_def)

text \<open>
  Every message is answered exactly once: acknowledged, returned for redelivery, or
  terminated. A handler that lost an answer would block the consumer; one that gave two would
  acknowledge a message it also returned.
\<close>

lemma one_answer:
  assumes codec: "uuid_codec E" and run: "run_state (handleMessage E msg) w = (u, w')"
  shows "\<exists>x. replies w' = replies w @ [x]"
  using run
proof (cases rule: handleMessage_cases)
  case (persist env tid w1)
  with codec persist(5) show ?thesis by (cases rule: persist_cases) auto
qed auto

lemma stored_appended_row:
  "d_tenant_id row = uuid_text E tid \<Longrightarrow> d_external_id row = ext \<Longrightarrow>
     discrepancies d' = discrepancies d @ [row] \<Longrightarrow> stored E tid ext d'"
  by (auto simp: stored_def)

lemma one_answer_witness:
  "\<exists>x. replies (snd (run_state (handleMessage calm sample_msg) (sample_world (sample_db [] [])))) = [x]"
proof -
  let ?w = "sample_world (sample_db [] [])"
  have "run_state (handleMessage calm sample_msg) ?w =
      ((), snd (run_state (handleMessage calm sample_msg) ?w))" by (simp add: prod_eq_iff)
  from one_answer [OF codec_calm this] show ?thesis by simp
qed

text \<open>
  C16 (safety). At-least-once delivery loses nothing: a message that is acknowledged names a discrepancy
  that is in the table afterwards, under the message's tenant and external identifier.
\<close>

theorem ack_means_stored:
  assumes codec: "uuid_codec E" and run: "run_state (handleMessage E msg) w = (u, w')"
    and ack: "replies w' = replies w @ [Ack]"
  shows "\<exists>env tid. Option.bind (msg_data msg) dec_envelope = Some env \<and>
     uuid_parse E (TenantID env) = Some tid \<and> stored E tid (ExternalID (Payload env)) (db w')"
  using run
proof (cases rule: handleMessage_cases)
  case (untouched x)
  with ack show ?thesis by simp
next
  case (duplicate env tid)
  then show ?thesis by auto
next
  case (persist env tid w1)
  have "stored E tid (ExternalID (Payload env)) (db w')"
    using codec persist(5)
  proof (cases rule: persist_cases)
    case refused
    with ack persist show ?thesis by simp
  next
    case (no_event row seq)
    then show ?thesis using persist(2) by (auto simp: parse_or_zero_def intro: stored_appended_row)
  next
    case (received row ev)
    then show ?thesis using persist(2) by (auto simp: parse_or_zero_def intro: stored_appended_row)
  qed
  with persist show ?thesis by auto
qed

text \<open>When the discrepancy is there, the insertion is refused by the unique key, whatever the duplicate check said.\<close>

lemma persist_stored:
  assumes codec: "uuid_codec E" and tid: "uuid_parse E (TenantID env) = Some tid"
    and stored: "stored E tid (ExternalID (Payload env)) (db w)"
    and run: "run_state (persistDiscrepancy E env) w = (u, w')"
  shows "db w' = db w"
proof -
  have clash: "\<not> discrepancy_insertable (db w) row"
    if "d_tenant_id row = uuid_text E tid" "d_external_id row = ExternalID (Payload env)" for row
    using that stored by (auto simp: stored_def discrepancy_insertable_def)
  show ?thesis
    using codec run
  proof (cases rule: persist_cases)
    case (no_event row seq)
    with clash [of row] tid show ?thesis by (simp add: parse_or_zero_def)
  next
    case (received row ev)
    with clash [of row] tid show ?thesis by (simp add: parse_or_zero_def)
  qed simp
qed

text \<open>
  C10 (invariant). Ingestion is idempotent: once a discrepancy is stored, redelivering a message with its
  tenant and external identifier never changes the tables again, even when the statements of the
  handler fail, the duplicate check among them.
\<close>

theorem redelivery_changes_nothing:
  assumes codec: "uuid_codec E" and run: "run_state (handleMessage E msg) w = (u, w')"
    and env: "Option.bind (msg_data msg) dec_envelope = Some env"
    and tid: "uuid_parse E (TenantID env) = Some tid"
    and stored: "stored E tid (ExternalID (Payload env)) (db w)"
  shows "db w' = db w"
  using run
proof (cases rule: handleMessage_cases)
  case (persist env' tid' w1)
  then have same: "env' = env" "tid' = tid" using env tid by auto
  have "db w' = db w1"
    by (rule persist_stored [OF codec tid _ persist(5) [unfolded same]]) (use stored persist(3) in simp)
  with persist(3) show ?thesis by simp
qed simp_all

text \<open>The duplicate check of the sample message fails, and so does the insertion it then attempts.\<close>

lemma redelivery_changes_nothing_witness:
  "db (snd (run_state (handleMessage (failing [1]) sample_msg) (sample_world (sample_db [sample_row StatusResolved (Some 1)] []))))
     = sample_db [sample_row StatusResolved (Some 1)] []"
proof -
  let ?d = "sample_db [sample_row StatusResolved (Some 1)] []"
  let ?m = "handleMessage (failing [1]) sample_msg"
  have run: "run_state ?m (sample_world ?d) = ((), snd (run_state ?m (sample_world ?d)))"
    by (simp add: prod_eq_iff)
  have "stored (failing [1]) 5 (ExternalID (Payload sample_envelope)) ?d"
    using sample_stored by (simp add: stored_def sample_envelope_def sample_payload_def)
  then show ?thesis
    using redelivery_changes_nothing [OF codec_failing run sample_msg_decodes, of 5]
    by (simp add: sample_envelope_def)
qed

text \<open>
  A message delivered more than three times is terminated without looking at it: no
  statement is sent, and nothing but the answer changes.
\<close>

lemma dead_letter:
  assumes "msg_delivered msg = Some n" and "n > 3"
  shows "run_state (handleMessage E msg) w = ((), w\<lparr>replies := replies w @ [Term]\<rparr>)"
  using assms by (simp add: handleMessage_def shouldDeadLetter_def maxDeliveryAttempts_def)

lemma dead_letter_witness:
  "replies (snd (run_state (handleMessage calm \<lparr>msg_data = None, msg_delivered = Some 4\<rparr>)
     (sample_world (sample_db [] [])))) = [Term]"
proof -
  have "run_state (handleMessage calm \<lparr>msg_data = None, msg_delivered = Some 4\<rparr>) (sample_world (sample_db [] [])) =
      ((), (sample_world (sample_db [] []))\<lparr>replies := replies (sample_world (sample_db [] [])) @ [Term]\<rparr>)"
    by (rule dead_letter [where n = 4]) simp_all
  then show ?thesis by simp
qed

section \<open>A valid message is recorded\<close>

text \<open>What a well-formed message for this database is, on an outside where nothing fails.\<close>

definition payload_storable :: "env \<Rightarrow> ingestEnvelope \<Rightarrow> bool" where
  "payload_storable E env \<longleftrightarrow>
     envelope_validate env = None \<and> payload_validate (Payload env) = None \<and>
     discrepancy_check (new_discrepancy (Payload env)) \<and> text_ok (Source env) \<and>
     decimal_ptr E (AmountExpected (Payload env)) \<noteq> None \<and> decimal_ptr E (AmountActual (Payload env)) \<noteq> None"

definition fresh_row_ids :: "env \<Rightarrow> database \<Rightarrow> bool" where
  "fresh_row_ids E d \<longleftrightarrow> (\<forall>t. \<forall>r\<in>set (discrepancies d). d_id r \<noteq> uuid_text E (gen_uuid E t))"

definition fresh_event_ids :: "env \<Rightarrow> database \<Rightarrow> bool" where
  "fresh_event_ids E d \<longleftrightarrow> (\<forall>t. \<forall>e\<in>set (ledger_events d). e_id e \<noteq> uuid_text E (gen_uuid E t))"

lemma create_succeeds:
  assumes "no_faults E" and "decimal_ptr E (d_amount_expected x) \<noteq> None" "decimal_ptr E (d_amount_actual x) \<noteq> None"
    and "discrepancy_check x" and "tenant_exists (db w) (uuid_text E tid)"
    and "fresh_row_ids E (db w)" and "\<not> stored E tid (d_external_id x) (db w)"
  shows "\<exists>row. run_state (DiscrepancyStore_Create E tid x) w =
      (Inr row, w\<lparr>tick := Suc (tick w), db := (db w)\<lparr>discrepancies := discrepancies (db w) @ [row]\<rparr>\<rparr>) \<and>
     d_id row = uuid_text E (gen_uuid E (tick w)) \<and> d_tenant_id row = uuid_text E tid \<and>
     d_external_id row = d_external_id x \<and> d_status row = d_status x \<and> d_severity row = d_severity x \<and>
     d_title row = d_title x"
proof -
  obtain a b where ab: "decimal_ptr E (d_amount_expected x) = Some a" "decimal_ptr E (d_amount_actual x) = Some b"
    using assms by auto
  have "\<And>r. r \<in> set (discrepancies (db w)) \<Longrightarrow> d_id r \<noteq> uuid_text E (gen_uuid E (tick w))"
    using assms(6) by (auto simp: fresh_row_ids_def)
  moreover have "\<And>r. r \<in> set (discrepancies (db w)) \<Longrightarrow>
      \<not> (d_tenant_id r = uuid_text E tid \<and> d_external_id r = d_external_id x)"
    using assms(7) by (auto simp: stored_def)
  ultimately show ?thesis
    using assms ab
    by (auto simp: DiscrepancyStore_Create_def run_pg insert_discrepancy_def Let_def no_faults_def
        discrepancy_insertable_def discrepancy_check_def)
qed

lemma append_succeeds:
  assumes "no_faults E" and "uuid_codec E" and "e_discrepancy_id x = uuid_text E i"
    and "discrepancy_exists (db w) (uuid_text E i)" and "tenant_exists (db w) (uuid_text E tid)"
    and "fresh_event_ids E (db w)" and "ValidEventType (e_event_type x)" and "varchar 255 (e_actor x)"
    and "ValidActorType (e_actor_type x)" and "jsonb_ok (e_payload x)"
  shows "\<exists>ev. run_state (AppendWith E c tid x) w = (Inr ev, w\<lparr>tick := Suc (tick w), db := appended ev (db w)\<rparr>) \<and>
     e_event_type ev = e_event_type x \<and> e_discrepancy_id ev = uuid_text E i \<and> e_tenant_id ev = uuid_text E tid"
proof -
  have types: "one_of [''discrepancy.received'', ''discrepancy.acknowledged'', ''discrepancy.investigation_started'',
             ''discrepancy.note_added'', ''discrepancy.escalated'', ''discrepancy.resolved'',
             ''discrepancy.auto_closed''] (e_event_type x)" "one_of [''system'', ''user'', ''escalation''] (e_actor_type x)"
    using assms(7,9)
    by (auto simp: ValidEventType_def ValidActorType_def validEventTypes_def validActorTypes_def bool_at_def
        one_of_def go_consts split: option.splits if_splits)
  have "\<And>e. e \<in> set (ledger_events (db w)) \<Longrightarrow> e_id e \<noteq> uuid_text E (gen_uuid E (tick w))"
    using assms(6) by (auto simp: fresh_event_ids_def)
  then show ?thesis
    using assms types
    by (auto simp: AppendWith_def run_wrapped run_pg insert_event_def Let_def no_faults_def
        event_insertable_def appended_def)
qed

text \<open>
  C11 (liveness). A well-formed message of an active tenant, not seen before, is stored when nothing
  fails: the row is open and carries the payload, the received event is appended for it, and the
  message is acknowledged.
\<close>

theorem valid_message_recorded:
  assumes calm: "no_faults E" and codec: "uuid_codec E" and fresh: "fresh_row_ids E (db w)" "fresh_event_ids E (db w)"
    and alive: "case msg_delivered msg of None \<Rightarrow> True | Some n \<Rightarrow> \<not> n > 3"
    and env: "Option.bind (msg_data msg) dec_envelope = Some env" and ok: "payload_storable E env"
    and tid: "uuid_parse E (TenantID env) = Some tid" and active: "active_tenant E tid (db w)"
    and new: "\<not> stored E tid (ExternalID (Payload env)) (db w)" "text_ok (ExternalID (Payload env))"
  shows "\<exists>row ev w'. run_state (handleMessage E msg) w = ((), w') \<and>
     replies w' = replies w @ [Ack] \<and>
     db w' = appended ev ((db w)\<lparr>discrepancies := discrepancies (db w) @ [row]\<rparr>) \<and>
     d_tenant_id row = uuid_text E tid \<and> d_external_id row = ExternalID (Payload env) \<and>
     d_status row = StatusOpen \<and> d_severity row = Severity (Payload env) \<and> d_title row = Title (Payload env) \<and>
     e_event_type ev = EventReceived \<and> e_discrepancy_id ev = d_id row"
proof -
  let ?x = "new_discrepancy (Payload env)"
  let ?w1 = "w\<lparr>tick := Suc (Suc (tick w))\<rparr>"
  have x: "d_external_id ?x = ExternalID (Payload env)" "d_status ?x = StatusOpen"
    "d_severity ?x = Severity (Payload env)" "d_title ?x = Title (Payload env)"
    "d_amount_expected ?x = AmountExpected (Payload env)" "d_amount_actual ?x = AmountActual (Payload env)"
    by (simp_all add: new_discrepancy_def)
  have t: "tenant_exists (db w) (uuid_text E tid)"
    using active by (auto simp: active_tenant_def tenant_exists_def)
  have "\<exists>row. run_state (DiscrepancyStore_Create E tid ?x) ?w1 =
      (Inr row, ?w1\<lparr>tick := Suc (tick ?w1), db := (db ?w1)\<lparr>discrepancies := discrepancies (db ?w1) @ [row]\<rparr>\<rparr>) \<and>
     d_id row = uuid_text E (gen_uuid E (tick ?w1)) \<and> d_tenant_id row = uuid_text E tid \<and>
     d_external_id row = d_external_id ?x \<and> d_status row = d_status ?x \<and> d_severity row = d_severity ?x \<and>
     d_title row = d_title ?x"
    by (rule create_succeeds) (use calm ok t fresh new x in \<open>simp_all add: payload_storable_def\<close>)
  then obtain row where cr: "run_state (DiscrepancyStore_Create E tid ?x) ?w1 =
      (Inr row, ?w1\<lparr>tick := Suc (tick ?w1), db := (db ?w1)\<lparr>discrepancies := discrepancies (db ?w1) @ [row]\<rparr>\<rparr>)"
    and row: "d_id row = uuid_text E (gen_uuid E (tick ?w1))" "d_tenant_id row = uuid_text E tid"
     "d_external_id row = ExternalID (Payload env)" "d_status row = StatusOpen"
     "d_severity row = Severity (Payload env)" "d_title row = Title (Payload env)"
    using x by auto
  define w2 where "w2 = ?w1\<lparr>tick := Suc (tick ?w1), db := (db ?w1)\<lparr>discrepancies := discrepancies (db ?w1) @ [row]\<rparr>\<rparr>"
  obtain e w3 where n: "run_state (NewLedgerEvent E (TenantID env) (d_id row) EventReceived ''nats-ingestion''
          ActorSystem (Some [(''source'', JStr (Source env)), (''external_id'', JStr (ExternalID (Payload env))),
            (''severity'', JStr (Severity (Payload env)))])) w2 = (e, w3)" by fastforce
  have sev: "text_ok (Severity (Payload env))"
    using ok by (auto simp: payload_storable_def discrepancy_check_def new_discrepancy_def one_of_def text_ok_def)
  have e: "e_discrepancy_id e = uuid_text E (gen_uuid E (tick ?w1))" "e_event_type e = EventReceived"
      "e_actor e = ''nats-ingestion''" "e_actor_type e = ActorSystem"
      "e_payload e = Some [(''source'', JStr (Source env)), (''external_id'', JStr (ExternalID (Payload env))),
            (''severity'', JStr (Severity (Payload env)))]"
    and w3: "db w3 = db w2" "replies w3 = replies w"
    using n row by (auto simp: run_NewLedgerEvent w2_def)
  have "\<exists>ev. run_state (AppendWith E Pool tid e) w3 = (Inr ev, w3\<lparr>tick := Suc (tick w3), db := appended ev (db w3)\<rparr>) \<and>
     e_event_type ev = e_event_type e \<and> e_discrepancy_id ev = uuid_text E (gen_uuid E (tick ?w1)) \<and>
     e_tenant_id ev = uuid_text E tid"
  proof (rule append_succeeds [OF calm codec e(1)])
    show "discrepancy_exists (db w3) (uuid_text E (gen_uuid E (tick ?w1)))"
      using row by (simp add: w3 w2_def discrepancy_exists_def)
    show "tenant_exists (db w3) (uuid_text E tid)" using t by (simp add: w3 w2_def)
    show "fresh_event_ids E (db w3)" using fresh(2) by (simp add: w3 w2_def fresh_event_ids_def)
    show "ValidEventType (e_event_type e)" unfolding e by code_simp
    show "varchar 255 (e_actor e)" unfolding e by code_simp
    show "ValidActorType (e_actor_type e)" unfolding e by code_simp
    show "jsonb_ok (e_payload e)"
      using ok new(2) sev by (simp add: e jsonb_ok_def payload_storable_def, simp add: text_ok_def)
  qed
  then obtain ev where ap: "run_state (AppendWith E Pool tid e) w3 = (Inr ev, w3\<lparr>tick := Suc (tick w3), db := appended ev (db w3)\<rparr>)"
    and ev: "e_event_type ev = EventReceived" "e_discrepancy_id ev = d_id row" "e_tenant_id ev = uuid_text E tid"
    using e row by auto
  have p: "run_state (persistDiscrepancy E env) ?w1 =
      ((), w3\<lparr>tick := Suc (tick w3), db := appended ev (db w3), replies := replies w @ [Ack]\<rparr>)"
    using cr n ap tid w3
    by (simp add: persistDiscrepancy_def Let_def parse_or_zero_def EventStore_Append_def w2_def)
  have v: "run_state (validateTenant E (TenantID env)) w = (None, w\<lparr>tick := Suc (tick w)\<rparr>)"
    using calm tid active by (simp add: validateTenant_def run_pg query_def no_faults_def)
  have "filter (\<lambda>r. d_tenant_id r = uuid_text E tid \<and> d_external_id r = ExternalID (Payload env)) (discrepancies (db w)) = []"
    using new(1) by (auto simp: stored_def filter_empty_conv)
  then have g: "run_state (GetByExternalID E tid (ExternalID (Payload env))) (w\<lparr>tick := Suc (tick w)\<rparr>) =
      (Inl (wrap ''discrepancy_store.GetByExternalID'' ErrNoRows), ?w1)"
    using calm new(2) by (simp add: GetByExternalID_def run_wrapped run_pg query_def no_faults_def first_row_def)
  have dead: "run_state (shouldDeadLetter msg) w = (False, w)"
    using alive by (auto simp: shouldDeadLetter_def maxDeliveryAttempts_def split: option.splits)
  have "run_state (handleMessage E msg) w =
      ((), w3\<lparr>tick := Suc (tick w3), db := appended ev (db w3), replies := replies w @ [Ack]\<rparr>)"
    using dead env ok v g p tid
    by (simp add: handleMessage_def payload_storable_def isDuplicate_def parse_or_zero_def)
  with row ev show ?thesis
    by (intro exI [of _ row] exI [of _ ev]) (simp add: w3 w2_def)
qed

lemma sample_storable: "payload_storable calm sample_envelope"
  by code_simp

lemma valid_message_recorded_witness:
  "\<exists>row ev. db (snd (run_state (handleMessage calm sample_msg) (sample_world (sample_db [] [])))) =
     appended ev ((sample_db [] [])\<lparr>discrepancies := [row]\<rparr>) \<and> d_status row = StatusOpen \<and>
     e_event_type ev = EventReceived"
proof -
  let ?w = "sample_world (sample_db [] [])"
  have "\<exists>row ev w'. run_state (handleMessage calm sample_msg) ?w = ((), w') \<and>
     replies w' = replies ?w @ [Ack] \<and>
     db w' = appended ev ((db ?w)\<lparr>discrepancies := discrepancies (db ?w) @ [row]\<rparr>) \<and>
     d_tenant_id row = uuid_text calm 5 \<and> d_external_id row = ExternalID (Payload sample_envelope) \<and>
     d_status row = StatusOpen \<and> d_severity row = Severity (Payload sample_envelope) \<and>
     d_title row = Title (Payload sample_envelope) \<and>
     e_event_type ev = EventReceived \<and> e_discrepancy_id ev = d_id row"
    by (rule valid_message_recorded [OF _ codec_calm _ _ _ sample_msg_decodes sample_storable])
       (simp_all add: no_faults_def fresh_row_ids_def fresh_event_ids_def sample_db_def active_tenant_def
         acme_def stored_def sample_envelope_def sample_msg_def sample_payload_def text_ok_def)
  then obtain row ev w' where "run_state (handleMessage calm sample_msg) ?w = ((), w')"
    and "db w' = appended ev ((db ?w)\<lparr>discrepancies := discrepancies (db ?w) @ [row]\<rparr>)"
    and "d_status row = StatusOpen" "e_event_type ev = EventReceived" by blast
  then show ?thesis by (intro exI [of _ row] exI [of _ ev]) (simp add: sample_db_def)
qed

lemma ack_means_stored_witness:
  "stored calm 5 ''ext-1'' (db (snd (run_state (handleMessage calm sample_msg) (sample_world (sample_db [] [])))))"
proof -
  let ?w = "sample_world (sample_db [] [])"
  have run: "run_state (handleMessage calm sample_msg) ?w =
      ((), snd (run_state (handleMessage calm sample_msg) ?w))" by (simp add: prod_eq_iff)
  have ack: "replies (snd (run_state (handleMessage calm sample_msg) ?w)) = replies ?w @ [Ack]"
    by code_simp
  from ack_means_stored [OF codec_calm run ack] sample_msg_decodes show ?thesis
    by (auto simp: sample_envelope_def sample_payload_def)
qed


end
