(* ===== verification/Retrier.thy ===== *)
theory Retrier
  imports HubClient
begin

text \<open>
  \<open>internal/engine/notification_retry.go\<close>: the retrier of failed notifications. One call of
  \<open>RetryPending\<close> is what each tick of the loop in \<open>Start\<close> runs. It only uses the locale
  \<open>notification_sender\<close> of its hub client.
\<close>

section \<open>The retrier\<close>

record notification_retrier =
  rt_hubClient :: "hub_event \<Rightarrow> (world, hub_response result) state"
  rt_maxRetries :: int

definition NewNotificationRetrier ::
  "(hub_event \<Rightarrow> (world, hub_response result) state) \<Rightarrow> int \<Rightarrow> notification_retrier" where
  "NewNotificationRetrier hub retries = \<lparr>rt_hubClient = hub, rt_maxRetries = retries\<rparr>"

definition retry_event :: "notification_log \<Rightarrow> hub_event" where
  "retry_event n =
     \<lparr>h_event_type = ''compliance.escalation_triggered'', h_tenant_id = n_tenant_id n,
      h_payload = Some [(''discrepancy_id'', JStr (n_discrepancy_id n)),
        (''notification_id'', JStr (n_id n)), (''channel'', JStr (n_channel n)),
        (''recipient'', JStr (n_recipient n))]\<rparr>"

definition retryOne :: "env \<Rightarrow> notification_retrier \<Rightarrow> notification_log \<Rightarrow> (world, unit) state" where
  "retryOne E r n =
     (case uuid_parse E (n_id n) of
        None \<Rightarrow> ret ()
      | Some notifID \<Rightarrow> (let newAttempts = n_attempts n + 1 in do {
          resp \<leftarrow> rt_hubClient r (retry_event n);
          case resp of
            Inl e \<Rightarrow> do {
              _ \<leftarrow> NotificationStore_UpdateStatus E notifID
                     (if newAttempts \<ge> rt_maxRetries r then NotifFailed else NotifRetrying) None newAttempts;
              ret ()
            }
          | Inr hr \<Rightarrow> do {
              _ \<leftarrow> NotificationStore_UpdateStatus E notifID NotifSent
                     (Some [(''status'', JStr (hr_status hr)), (''id'', JStr (hr_id hr))]) newAttempts;
              ret ()
            }
        }))"

definition RetryPending :: "env \<Rightarrow> notification_retrier \<Rightarrow> (world, unit result) state" where
  "RetryPending E r = do {
     listed \<leftarrow> ListPendingRetries E (rt_maxRetries r);
     case listed of
       Inl e \<Rightarrow> ret (Inl e)
     | Inr pending \<Rightarrow>
         if length pending = 0 then ret (Inr ())
         else do { for_each (retryOne E r) pending; ret (Inr ()) }
   }"

section \<open>What an update of a notification does\<close>

text \<open>The row a retry leaves, and the log with it.\<close>

definition retried :: "string \<Rightarrow> jobject \<Rightarrow> int \<Rightarrow> gotime \<Rightarrow> notification_log \<Rightarrow> notification_log" where
  "retried status hub attempts now n =
     n\<lparr>n_status := status, n_hub_response := hub, n_attempts := attempts,
       n_last_attempt_at := Some now, n_updated_at := now\<rparr>"

definition at_id :: "string \<Rightarrow> (notification_log \<Rightarrow> notification_log) \<Rightarrow> database \<Rightarrow> database" where
  "at_id i f d = d\<lparr>notification_logs := map (\<lambda>n. if n_id n = i then f n else n) (notification_logs d)\<rparr>"

lemma update_status_db:
  assumes "run_state (NotificationStore_UpdateStatus E i st hub att) w = (out, w')"
  shows "db w' = db w \<or> db w' = at_id (uuid_text E i) (retried st hub att (clock E (tick w))) (db w)"
  using assms
  by (auto simp: NotificationStore_UpdateStatus_def rows_or_not_found_def run_pg update_notifications_def
      rejected_def at_id_def retried_def Let_def split: if_splits)

lemma update_status_ok:
  assumes "no_faults E"
    and "\<forall>n\<in>set (notification_logs (db w)). n_id n = uuid_text E i \<longrightarrow>
           notification_check (retried st hub att (clock E (tick w)) n)"
    and "run_state (NotificationStore_UpdateStatus E i st hub att) w = (out, w')"
  shows "db w' = at_id (uuid_text E i) (retried st hub att (clock E (tick w))) (db w)"
  using assms
  by (auto simp: NotificationStore_UpdateStatus_def rows_or_not_found_def run_pg update_notifications_def
      rejected_def at_id_def retried_def Let_def no_faults_def split: if_splits)

section \<open>The ledger is not touched, and attempts are bounded\<close>

definition attempts_bounded :: "int \<Rightarrow> database \<Rightarrow> bool" where
  "attempts_bounded m d \<longleftrightarrow> (\<forall>n\<in>set (notification_logs d). n_attempts n \<le> m)"

text \<open>Nothing but the notification log changes.\<close>

definition notifications_only :: "database \<Rightarrow> database \<Rightarrow> bool" where
  "notifications_only d d' \<longleftrightarrow> (\<exists>ns. d' = d\<lparr>notification_logs := ns\<rparr>)"

interpretation notifications_only: step_preorder notifications_only
proof
  show "notifications_only s s" for s
    unfolding notifications_only_def by (rule exI [of _ "notification_logs s"]) simp
qed (auto simp: notifications_only_def)

interpretation notifying: table_relation notifications_only ..

lemma notifications_only_steps: "notifications_only d d' \<Longrightarrow> ledger_steps E d d'"
  by (auto simp: notifications_only_def intro: one_step elsewhere_simps)

lemma notifications_only_same [simp]: "notifications_only d d"
  by (rule notifications_only.step_refl)

lemma notifications_only_update:
  "state_io_rel (db_rel notifications_only) (NotificationStore_UpdateStatus E i st hub att)"
proof (rule db_relI)
  fix w out w'
  assume "run_state (NotificationStore_UpdateStatus E i st hub att) w = (out, w')"
  from update_status_db [OF this] show "notifications_only (db w) (db w')"
    unfolding at_id_def by (auto simp: notifications_only_def [of _ "_\<lparr>notification_logs := _\<rparr>"])
qed

context notification_sender begin

lemma retryOne_notifications:
  assumes "rt_hubClient r = send"
  shows "state_io_rel (db_rel notifications_only) (retryOne E r n)"
  unfolding retryOne_def Let_def assms
  by (auto intro!: notifying.io_basic notifications_only_update send_db_rel split: option.split sum.split)

lemma RetryPending_notifications:
  assumes "rt_hubClient r = send"
  shows "state_io_rel (db_rel notifications_only) (RetryPending E r)"
  unfolding RetryPending_def
  by (auto intro!: notifying.io_basic notifying.io_reads retryOne_notifications [OF assms] split: sum.split)

lemma retryOne_cases:
  assumes hub: "rt_hubClient r = send" and run: "run_state (retryOne E r n) w = (u, w')"
  obtains (same) "db w' = db w"
  | (updated) i st hub now where "uuid_parse E (n_id n) = Some i"
      and "db w' = at_id (uuid_text E i) (retried st hub (n_attempts n + 1) now) (db w)"
proof (cases "uuid_parse E (n_id n)")
  case None
  with run show thesis by (auto simp: retryOne_def intro: same)
next
  case (Some i)
  obtain resp w1 where s: "run_state (send (retry_event n)) w = (resp, w1)"
    by (cases "run_state (send (retry_event n)) w")
  note s_db = send_db [OF s]
  show thesis
  proof (cases resp)
    case (Inl e)
    then obtain st out where "run_state (NotificationStore_UpdateStatus E i st None (n_attempts n + 1)) w1 = (out, w')"
      using run hub Some s by (auto simp: retryOne_def Let_def split: prod.splits)
    from update_status_db [OF this] s_db Some show thesis by (auto intro: same updated)
  next
    case (Inr hr)
    then obtain hj out where "run_state (NotificationStore_UpdateStatus E i NotifSent hj (n_attempts n + 1)) w1 = (out, w')"
      using run hub Some s by (auto simp: retryOne_def Let_def split: prod.splits)
    from update_status_db [OF this] s_db Some show thesis by (auto intro: same updated)
  qed
qed

lemma retryOne_bounded:
  assumes "rt_hubClient r = send" and "attempts_bounded m (db w)" and "n_attempts n < m"
    and "run_state (retryOne E r n) w = (u, w')"
  shows "attempts_bounded m (db w')"
  using assms(1,4)
proof (cases rule: retryOne_cases)
  case same
  with assms show ?thesis by simp
next
  case (updated i st hub now)
  with assms show ?thesis by (auto simp: attempts_bounded_def at_id_def retried_def)
qed

lemma RetryPending_bounded:
  assumes hub: "rt_hubClient r = send" and "attempts_bounded m (db w)" and "rt_maxRetries r \<le> m"
    and run: "run_state (RetryPending E r) w = (out, w')"
  shows "attempts_bounded m (db w')"
proof -
  obtain listed w1 where l: "run_state (ListPendingRetries E (rt_maxRetries r)) w = (listed, w1)" by fastforce
  have w1: "db w1 = db w" using l unfolding ListPendingRetries_def by (rule wrapped_query_db)
  have loop: "attempts_bounded m (db u')"
    if "\<forall>n\<in>set ps. n_attempts n < m" "attempts_bounded m (db u)" "run_state (for_each (retryOne E r) ps) u = (x, u')"
    for ps u x u'
    using that
  proof (induction ps arbitrary: u)
    case (Cons n ps)
    obtain y v where one: "run_state (retryOne E r n) u = (y, v)" by (cases "run_state (retryOne E r n) u")
    have "attempts_bounded m (db v)"
      by (rule retryOne_bounded [OF hub _ _ one]) (use Cons.prems in simp_all)
    then show ?case by (rule Cons.IH [rotated]) (use Cons.prems one in simp_all)
  qed simp
  show ?thesis
  proof (cases listed)
    case (Inl e)
    with run l w1 assms show ?thesis by (simp add: RetryPending_def)
  next
    case (Inr ps)
    have small: "\<forall>n\<in>set ps. n_attempts n < m"
      using l Inr assms(3) unfolding ListPendingRetries_def
      by (auto dest!: wrapped_query_Inr simp: pending_retry_def rejected_def split: if_splits)
    show ?thesis
    proof (cases "ps = []")
      case True
      with run l Inr w1 assms show ?thesis by (simp add: RetryPending_def)
    next
      case False
      with run l Inr obtain x where "run_state (for_each (retryOne E r) ps) w1 = (x, w')"
        by (auto simp: RetryPending_def split: prod.splits)
      from loop [OF small _ this] w1 assms show ?thesis by simp
    qed
  qed
qed

end

section \<open>Retrying ends\<close>

definition notifications_ok :: "env \<Rightarrow> database \<Rightarrow> bool" where
  "notifications_ok E d \<longleftrightarrow> distinct (map n_id (notification_logs d)) \<and>
     (\<forall>n\<in>set (notification_logs d). notification_check n \<and> (\<exists>u. n_id n = uuid_text E u))"

text \<open>The hub's answers can be stored: no NUL character in them.\<close>

definition storable_answers :: "(hub_event \<Rightarrow> (world, hub_response result) state) \<Rightarrow> bool" where
  "storable_answers send \<longleftrightarrow> (\<forall>ev w hr. fst (run_state (send ev) w) = Inr hr \<longrightarrow>
     text_ok (hr_status hr) \<and> text_ok (hr_id hr))"

lemma at_id_ok:
  assumes "notifications_ok E d" and "\<And>n. n \<in> set (notification_logs d) \<Longrightarrow> n_id n = i \<Longrightarrow> notification_check (f n)"
    and "\<And>n. n_id (f n) = n_id n"
  shows "notifications_ok E (at_id i f d)"
proof -
  have ids: "map n_id (notification_logs (at_id i f d)) = map n_id (notification_logs d)"
    using assms(3) by (simp add: at_id_def)
  have "\<forall>n\<in>set (notification_logs (at_id i f d)). notification_check n \<and> (\<exists>u. n_id n = uuid_text E u)"
    using assms by (auto simp: notifications_ok_def at_id_def)
  then show ?thesis
    using assms(1) unfolding notifications_ok_def ids by blast
qed

context notification_sender begin

lemma retryOne_ok:
  assumes hub: "rt_hubClient r = send" and E: "no_faults E" "uuid_codec E" and ans: "storable_answers send"
    and ok: "notifications_ok E (db w)" and n: "n \<in> set (notification_logs (db w))" "n_attempts n < m"
    and m: "m = rt_maxRetries r" "int4 m"
    and run: "run_state (retryOne E r n) w = (u, w')"
  obtains (out) st hubj now where "db w' = at_id (n_id n) (retried st hubj (n_attempts n + 1) now) (db w)"
    and "notifications_ok E (db w')"
proof -
  obtain i where i: "n_id n = uuid_text E i" "uuid_parse E (n_id n) = Some i"
    using ok n E by (fastforce simp: notifications_ok_def)
  have nodup: "x = n" if "x \<in> set (notification_logs (db w))" "n_id x = n_id n" for x
    using ok n that by (auto simp: notifications_ok_def distinct_map dest: inj_onD)
  have chk: "notification_check (retried st hj (n_attempts n + 1) now n)"
    if "st \<in> {NotifSent, NotifFailed, NotifRetrying}" "jsonb_ok hj" for st hj now
    using ok n m that
    by (auto simp: notifications_ok_def notification_check_def retried_def one_of_def go_consts int4_def)
  have upd: thesis
    if "run_state (NotificationStore_UpdateStatus E i st hj (n_attempts n + 1)) w1 = (out, w')" "db w1 = db w"
      "st \<in> {NotifSent, NotifFailed, NotifRetrying}" "jsonb_ok hj" for st hj w1 out
  proof -
    have w': "db w' = at_id (n_id n) (retried st hj (n_attempts n + 1) (clock E (tick w1))) (db w)"
      using update_status_ok [OF E(1) _ that(1)] chk [OF that(3,4)] nodup that(2) i by auto
    moreover have "notifications_ok E (db w')"
      unfolding w' by (rule at_id_ok [OF ok]) (use chk [OF that(3,4)] nodup in \<open>auto simp: retried_def\<close>)
    ultimately show thesis by (rule out)
  qed
  obtain resp w1 where s: "run_state (send (retry_event n)) w = (resp, w1)"
    by (cases "run_state (send (retry_event n)) w")
  show thesis
  proof (cases resp)
    case (Inl e)
    then obtain out where "run_state (NotificationStore_UpdateStatus E i
        (if n_attempts n + 1 \<ge> rt_maxRetries r then NotifFailed else NotifRetrying) None (n_attempts n + 1)) w1 = (out, w')"
      using run hub i s by (auto simp: retryOne_def Let_def split: prod.splits)
    from upd [OF this send_db [OF s]] show thesis by (auto simp: jsonb_ok_def)
  next
    case (Inr hr)
    then obtain out where "run_state (NotificationStore_UpdateStatus E i NotifSent
        (Some [(''status'', JStr (hr_status hr)), (''id'', JStr (hr_id hr))]) (n_attempts n + 1)) w1 = (out, w')"
      using run hub i s by (auto simp: retryOne_def Let_def split: prod.splits)
    moreover have "text_ok (hr_status hr)" "text_ok (hr_id hr)"
      using ans s Inr by (auto simp: storable_answers_def) (metis fst_conv)+
    ultimately show thesis using upd send_db [OF s] by (auto simp: jsonb_ok_def text_ok_def)
  qed
qed

text \<open>A pass over distinct listed entries: each of them has one attempt more, the others are as before.\<close>

lemma retry_loop:
  assumes hub: "rt_hubClient r = send" and E: "no_faults E" "uuid_codec E" and ans: "storable_answers send"
    and m: "m = rt_maxRetries r" "int4 m"
    and "notifications_ok E (db w)" and "distinct (map n_id ps)"
    and "\<forall>n\<in>set ps. n \<in> set (notification_logs (db w)) \<and> n_attempts n < m"
    and "run_state (for_each (retryOne E r) ps) w = (u, w')"
  shows "notifications_ok E (db w') \<and> (\<forall>n'\<in>set (notification_logs (db w')). \<exists>n\<in>set (notification_logs (db w)).
     n_id n' = n_id n \<and> (if n_id n \<in> n_id ` set ps then n_attempts n' = n_attempts n + 1 else n' = n))"
  using assms(7-)
proof (induction ps arbitrary: w)
  case Nil
  then show ?case by auto
next
  case (Cons p ps)
  obtain y w1 where one: "run_state (retryOne E r p) w = (y, w1)" by (cases "run_state (retryOne E r p) w")
  have p: "p \<in> set (notification_logs (db w))" "n_attempts p < m" using Cons.prems by simp_all
  obtain st hj now where w1: "db w1 = at_id (n_id p) (retried st hj (n_attempts p + 1) now) (db w)"
    and ok1: "notifications_ok E (db w1)"
    by (rule retryOne_ok [OF hub E ans Cons.prems(1) p m one])
  let ?f = "retried st hj (n_attempts p + 1) now"
  have logs1: "set (notification_logs (db w1)) = (\<lambda>n. if n_id n = n_id p then ?f n else n) ` set (notification_logs (db w))"
    by (simp add: w1 at_id_def)
  have rest: "run_state (for_each (retryOne E r) ps) w1 = (u, w')" using Cons.prems one by simp
  have "\<forall>n\<in>set ps. n \<in> set (notification_logs (db w1)) \<and> n_attempts n < m"
  proof
    fix n
    assume n: "n \<in> set ps"
    then have "n_id n \<noteq> n_id p" using Cons.prems(2) by (auto simp: image_iff)
    with n Cons.prems(3) show "n \<in> set (notification_logs (db w1)) \<and> n_attempts n < m"
      by (auto simp: logs1 image_iff intro!: bexI [of _ n])
  qed
  with Cons.IH [OF ok1 _ _ rest] Cons.prems(2) have IH: "notifications_ok E (db w')"
    "\<forall>n'\<in>set (notification_logs (db w')). \<exists>n\<in>set (notification_logs (db w1)).
       n_id n' = n_id n \<and> (if n_id n \<in> n_id ` set ps then n_attempts n' = n_attempts n + 1 else n' = n)"
    by auto
  have nodup: "x = p" if "x \<in> set (notification_logs (db w))" "n_id x = n_id p" for x
    using Cons.prems(1) p that by (auto simp: notifications_ok_def distinct_map dest: inj_onD)
  have "\<exists>n\<in>set (notification_logs (db w)). n_id n' = n_id n \<and>
      (if n_id n \<in> n_id ` set (p # ps) then n_attempts n' = n_attempts n + 1 else n' = n)"
    if n': "n' \<in> set (notification_logs (db w'))" for n'
  proof -
    obtain n1 where n1: "n1 \<in> set (notification_logs (db w1))" "n_id n' = n_id n1"
      "if n_id n1 \<in> n_id ` set ps then n_attempts n' = n_attempts n1 + 1 else n' = n1"
      using IH(2) n' by blast
    then obtain n where n: "n \<in> set (notification_logs (db w))" "n1 = (if n_id n = n_id p then ?f n else n)"
      unfolding logs1 by blast
    show ?thesis
    proof (cases "n_id n = n_id p")
      case True
      then have "n = p" using nodup n by simp
      moreover have "n_id p \<notin> n_id ` set ps" using Cons.prems(2) by simp
      ultimately show ?thesis using n n1 by (intro bexI [of _ n]) (auto simp: retried_def)
    next
      case False
      with n n1 show ?thesis by (intro bexI [of _ n]) auto
    qed
  qed
  with IH(1) show ?case by blast
qed

lemma RetryPending_progress:
  assumes hub: "rt_hubClient r = send" and E: "no_faults E" "uuid_codec E" and ans: "storable_answers send"
    and m: "m = rt_maxRetries r" "int4 m" and ok: "notifications_ok E (db w)"
    and run: "run_state (RetryPending E r) w = (out, w')"
  shows "notifications_ok E (db w') \<and>
     (\<forall>n'\<in>set (notification_logs (db w')). pending_retry m n' \<longrightarrow>
        (\<exists>n\<in>set (notification_logs (db w)). pending_retry m n \<and> n_attempts n' = n_attempts n + 1))"
proof -
  let ?sel = "filter (pending_retry m) (notification_logs (db w))"
  define ps where "ps = sort_key n_created_at (rows E (tick w) ?sel)"
  let ?w1 = "w\<lparr>tick := Suc (tick w)\<rparr>"
  have l: "run_state (ListPendingRetries E m) w = (Inr ps, ?w1)"
    using E(1) m by (simp add: ListPendingRetries_def run_wrapped run_pg query_def no_faults_def ps_def)
  have set: "set ps = set ?sel" by (simp add: ps_def)
  have "mset (map n_id ps) = mset (map n_id ?sel)" by (simp add: ps_def)
  moreover have "distinct (map n_id ?sel)"
    using ok by (simp add: notifications_ok_def distinct_map_filter)
  ultimately have dist: "distinct (map n_id ps)" by (metis mset_eq_imp_distinct_iff)
  show ?thesis
  proof (cases "ps = []")
    case True
    then have "?sel = []" using set by (metis set_empty)
    with True run l m ok show ?thesis
      by (auto simp: RetryPending_def filter_empty_conv)
  next
    case False
    with run l m obtain x where loop: "run_state (for_each (retryOne E r) ps) ?w1 = (x, w')"
      by (auto simp: RetryPending_def split: prod.splits)
    have "notifications_ok E (db w') \<and> (\<forall>n'\<in>set (notification_logs (db w')).
       \<exists>n\<in>set (notification_logs (db ?w1)). n_id n' = n_id n \<and>
         (if n_id n \<in> n_id ` set ps then n_attempts n' = n_attempts n + 1 else n' = n))"
      by (rule retry_loop [OF hub E ans m _ dist _ loop])
         (use ok set in \<open>auto simp: pending_retry_def\<close>)
    moreover have "pending_retry m n" if n: "n \<in> set (notification_logs (db w))" "n_id n \<in> n_id ` set ps" for n
    proof -
      obtain q where q: "q \<in> set (notification_logs (db w))" "pending_retry m q" "n_id q = n_id n"
        using n(2) set by auto
      then have "q = n" using n(1) ok by (auto simp: notifications_ok_def distinct_map dest: inj_onD)
      with q show ?thesis by simp
    qed
    moreover have "n_id n \<in> n_id ` set ps" if "n \<in> set (notification_logs (db w))" "pending_retry m n" for n
      using that set by auto
    ultimately show ?thesis by (simp, metis)
  qed
qed

end

text \<open>Repeated passes.\<close>

primrec retry_passes :: "env \<Rightarrow> notification_retrier \<Rightarrow> nat \<Rightarrow> world \<Rightarrow> world" where
  "retry_passes E r 0 w = w"
| "retry_passes E r (Suc k) w = retry_passes E r k (snd (run_state (RetryPending E r) w))"

context notification_sender begin

lemma retry_passes_pending:
  assumes hub: "rt_hubClient r = send" and E: "no_faults E" "uuid_codec E" and ans: "storable_answers send"
    and m: "m = rt_maxRetries r" "int4 m" and "notifications_ok E (db w)"
    and "\<forall>n\<in>set (notification_logs (db w)). pending_retry m n \<longrightarrow> b \<le> n_attempts n"
  shows "\<forall>n\<in>set (notification_logs (db (retry_passes E r k w))). pending_retry m n \<longrightarrow> b + int k \<le> n_attempts n"
  using assms(7,8)
proof (induction k arbitrary: w b)
  case (Suc k)
  obtain out w1 where run: "run_state (RetryPending E r) w = (out, w1)"
    by (cases "run_state (RetryPending E r) w")
  note step = RetryPending_progress [OF hub E ans m Suc.prems(1) run]
  then have "\<forall>n\<in>set (notification_logs (db w1)). pending_retry m n \<longrightarrow> b + 1 \<le> n_attempts n"
    using Suc.prems(2) by fastforce
  with step Suc.IH [of w1 "b + 1"] run show ?case by (simp add: algebra_simps)
qed simp

end

section \<open>Properties\<close>


text \<open>
  The attempt counter never passes the larger of 1 (the engine's first attempt) and
  \<open>maxRetries\<close>, under any failures, and a pass writes nothing but the notification log.
\<close>

lemma retry_bounded:
  assumes "attempts_bounded (max 1 (rt_maxRetries r)) (db w)" and "rt_hubClient r = hub_send E c"
    and "run_state (RetryPending E r) w = (out, w')"
  shows "attempts_bounded (max 1 (rt_maxRetries r)) (db w') \<and> notifications_only (db w) (db w')"
  using hub.RetryPending_bounded [OF assms(2,1) _ assms(3)]
    notifying.lifted.io_run [OF hub.RetryPending_notifications [OF assms(2)] assms(3)]
  by (simp add: db_rel_def)

lemma unstorable_update:
  assumes "\<not> jsonb_ok hj" and "run_state (NotificationStore_UpdateStatus E i st hj att) w = (out, w')"
  shows "db w' = db w"
proof -
  have "map (\<lambda>n. if n_id n = uuid_text E i then f n else n) ns = ns"
    if "\<forall>n\<in>set ns. n_id n \<noteq> uuid_text E i" for f and ns :: "notification_log list"
    using that by (intro map_idI) auto
  with assms show ?thesis
    by (auto simp: NotificationStore_UpdateStatus_def rows_or_not_found_def run_pg update_notifications_def
        rejected_def notification_check_def Let_def split: if_splits)
qed

context notification_sender begin

lemma unstorable_retry:
  assumes hub: "rt_hubClient r = send"
    and ans: "\<And>ev w. \<exists>hr. fst (run_state (send ev) w) = Inr hr \<and> \<not> text_ok (hr_status hr)"
    and run: "run_state (retryOne E r n) w = (u, w')"
  shows "db w' = db w"
proof (cases "uuid_parse E (n_id n)")
  case None
  with run show ?thesis by (simp add: retryOne_def)
next
  case (Some i)
  obtain hr w1 where s: "run_state (send (retry_event n)) w = (Inr hr, w1)" "\<not> text_ok (hr_status hr)"
    using ans [of "retry_event n" w] by (metis prod.collapse)
  let ?hj = "Some [(''status'', JStr (hr_status hr)), (''id'', JStr (hr_id hr))]"
  obtain out where "run_state (NotificationStore_UpdateStatus E i NotifSent ?hj (n_attempts n + 1)) w1 = (out, w')"
    using run hub Some s(1) by (auto simp: retryOne_def Let_def split: prod.splits)
  from unstorable_update [OF _ this] s send_db [OF s(1)] show ?thesis by (simp add: jsonb_ok_def)
qed

lemma unstorable_pass:
  assumes hub: "rt_hubClient r = send"
    and ans: "\<And>ev w. \<exists>hr. fst (run_state (send ev) w) = Inr hr \<and> \<not> text_ok (hr_status hr)"
  shows "db (snd (run_state (RetryPending E r) w)) = db w"
proof -
  have one: "state_io_rel (frames db) (retryOne E r n)" for n
    by (rule io_relI) (auto simp: frames_def dest: unstorable_retry [OF hub ans])
  have "state_io_rel (frames db) (ListPendingRetries E (rt_maxRetries r))"
    unfolding ListPendingRetries_def by (rule io_relI) (auto simp: frames_def dest: wrapped_query_db)
  then have "state_io_rel (frames db) (RetryPending E r)"
    unfolding RetryPending_def using one by (auto intro!: framing.io_rules split: sum.split)
  from framing.io_snd [OF this] show ?thesis by (simp add: frames_def)
qed

end

text \<open>
  A hub whose answers PostgreSQL cannot store (a NUL in the status) is retried for ever: however
  many passes are made the log stays as it is, the attempt count too, so the same notification is
  posted again each time.
\<close>

lemma unstorable_answer_repeats:
  assumes "\<And>ev w. \<exists>hr. fst (run_state (hub_send E c ev) w) = Inr hr \<and> \<not> text_ok (hr_status hr)"
  shows "db (retry_passes E (NewNotificationRetrier (hub_send E c) m) k w) = db w"
proof (induction k arbitrary: w)
  case (Suc k)
  have "db (snd (run_state (RetryPending E (NewNotificationRetrier (hub_send E c) m)) w)) = db w"
    by (rule hub.unstorable_pass [OF _ assms]) (simp add: NewNotificationRetrier_def)
  with Suc show ?case by simp
qed simp

text \<open>
  While the hub is disabled the client reports \<open>skipped\<close> without sending anything, and the
  retrier records the notification as sent.
\<close>

lemma retry_marks_skipped_as_sent:
  assumes off: "\<not> enabled c" and E: "no_faults E" "uuid_codec E" and m: "int4 m"
    and ok: "notifications_ok E (db w)" and n: "notification_logs (db w) = [n]" "pending_retry m n"
  shows "\<exists>w'. run_state (RetryPending E (NewNotificationRetrier (hub_send E c) m)) w = (Inr (), w') \<and>
     posts w' = posts w \<and> map n_status (notification_logs (db w')) = [NotifSent]"
proof -
  let ?r = "NewNotificationRetrier (hub_send E c) m"
  let ?w1 = "w\<lparr>tick := Suc (tick w)\<rparr>"
  have r: "rt_hubClient ?r = hub_send E c" "rt_maxRetries ?r = m" by (simp_all add: NewNotificationRetrier_def)
  obtain i where i: "n_id n = uuid_text E i" using ok n by (auto simp: notifications_ok_def)
  have l: "run_state (ListPendingRetries E m) w = (Inr [n], ?w1)"
    using E(1) m n by (simp add: ListPendingRetries_def run_wrapped run_pg query_def no_faults_def rows_def)
  let ?hj = "Some [(''status'', JStr ''skipped''), (''id'', JStr [])]"
  have chk: "notification_check (retried NotifSent ?hj (n_attempts n + 1) now n)" for now
    using ok n m
    by (auto simp: notifications_ok_def notification_check_def retried_def one_of_def go_consts int4_def
        jsonb_ok_def text_ok_def pending_retry_def)
  obtain out w2 where u: "run_state (NotificationStore_UpdateStatus E i NotifSent ?hj (n_attempts n + 1)) ?w1 = (out, w2)"
    by fastforce
  have "db w2 = at_id (n_id n) (retried NotifSent ?hj (n_attempts n + 1) (clock E (tick ?w1))) (db ?w1)"
    using update_status_ok [OF E(1) _ u] chk n i by simp
  moreover have "posts w2 = posts w"
    using u by (auto simp: NotificationStore_UpdateStatus_def rows_or_not_found_def run_pg split: if_splits)
  moreover have "run_state (RetryPending E ?r) w = (Inr (), w2)"
    using l u E(2) i by (simp add: RetryPending_def r retryOne_def Let_def SendEvent_disabled [OF off])
  ultimately show ?thesis using n by (auto simp: at_id_def retried_def)
qed

section \<open>Witnesses\<close>

definition retry_world :: world where
  "retry_world = sample_world ((sample_db [sample_row StatusOpen None] [])
     \<lparr>notification_logs := [sample_notification NotifFailed 1]\<rparr>)"

definition answering :: "string \<Rightarrow> hub_client" where
  "answering st = NewHubClient [] [] True 1 (\<lambda>t u k e. Answer 200 (Inr (JObj [(''status'', JStr st)])))"

lemma key_matches_status: "key_matches ''status'' ''status''" "\<not> key_matches ''id'' ''status''"
  by code_simp+

lemma answering_send:
  "run_state (hub_send calm (answering st) ev) w =
     (Inr \<lparr>hr_status = st, hr_id = []\<rparr>, w\<lparr>tick := Suc (tick w), posts := posts w @ [(''/api/events'', ev)]\<rparr>)"
proof -
  have "dec_hub_response (JObj [(''status'', JStr st)]) = Some \<lparr>hr_status = st, hr_id = []\<rparr>"
    by (simp add: dec_hub_response_def key_matches_status)
  then show ?thesis
    by (simp add: hub_send_def SendEvent_def answering_def NewHubClient_def NewHubClientWithBackoff_def
        max_attempts_def doRequest_def Let_def)
qed

lemma sample_notifications_ok: "notifications_ok calm (db retry_world)"
proof -
  have "notification_check (sample_notification NotifFailed 1)" by code_simp
  moreover have "n_id (sample_notification NotifFailed 1) = text_of_uuid 7"
    by (simp add: sample_notification_def)
  ultimately show ?thesis
    by (simp add: notifications_ok_def retry_world_def) (metis text_of_uuid_simps(2))
qed


lemma retry_bounded_witness:
  "attempts_bounded 3 (db (snd (run_state (RetryPending calm
      (NewNotificationRetrier (hub_send calm (answering ''ok'')) 3)) retry_world)))"
proof -
  let ?r = "NewNotificationRetrier (hub_send calm (answering ''ok'')) 3"
  let ?p = "run_state (RetryPending calm ?r) retry_world"
  have "run_state (RetryPending calm ?r) retry_world = (fst ?p, snd ?p)" by simp
  from retry_bounded [OF _ _ this, where c = "answering ''ok''"] show ?thesis
    by (simp add: NewNotificationRetrier_def attempts_bounded_def retry_world_def sample_notification_def)
qed

lemma unstorable_answer_repeats_witness:
  "db (retry_passes calm (NewNotificationRetrier (hub_send calm (answering [CHR 0x00])) 3) 1000 retry_world) =
     db retry_world"
  by (rule unstorable_answer_repeats) (simp add: answering_send text_ok_def)

lemma retry_marks_skipped_as_sent_witness:
  "\<exists>w'. run_state (RetryPending calm (NewNotificationRetrier
       (hub_send calm ((answering ''ok'')\<lparr>enabled := False\<rparr>)) 3)) retry_world = (Inr (), w') \<and>
     posts w' = [] \<and> map n_status (notification_logs (db w')) = [NotifSent]"
  using retry_marks_skipped_as_sent [of "(answering ''ok'')\<lparr>enabled := False\<rparr>" calm 3 retry_world
      "sample_notification NotifFailed 1"] sample_notifications_ok
  by (simp add: no_faults_def int4_def retry_world_def sample_notification_def pending_retry_def go_consts)

end
