(* ===== verification/Workflow.thy ===== *)
theory Workflow
  imports LedgerSpec Http
begin

text \<open>
  The resolution workflow of \<open>internal/api/handlers\<close>: \<open>errors.go\<close>, \<open>discrepancies.go\<close>,
  \<open>discrepancies_workflow.go\<close> and \<open>discrepancies_actions.go\<close>. A handler takes the request (the
  tenant the middleware put into the context, the URL parameter, the query and the body) and
  returns the response; every early return of the Go code is a branch.
\<close>

section \<open>What the handlers answer\<close>

datatype workflow_reply =
    Transitioned discrepancy ledger_event
  | NoteSaved ledger_event
  | Detail discrepancy "ledger_event list"

section \<open>discrepancies\_workflow.go\<close>

record workflowRequest =
  Actor :: string
  Notes :: string
  Content :: string
  ResolutionType :: string
  ExpectedSequence :: "rat option"

definition decode_workflow :: "json \<Rightarrow> workflowRequest option" where
  "decode_workflow j =
     (case members j of None \<Rightarrow> None
      | Some kvs \<Rightarrow>
     (case dec_field as_string ''actor'' [] kvs of None \<Rightarrow> None
      | Some actor \<Rightarrow>
     (case dec_field as_string ''notes'' [] kvs of None \<Rightarrow> None
      | Some notes \<Rightarrow>
     (case dec_field as_string ''content'' [] kvs of None \<Rightarrow> None
      | Some content \<Rightarrow>
     (case dec_field as_string ''resolution_type'' [] kvs of None \<Rightarrow> None
      | Some resolution \<Rightarrow>
     (case dec_field as_float_ptr ''expected_sequence'' None kvs of None \<Rightarrow> None
      | Some expected \<Rightarrow>
        Some \<lparr>Actor = actor, Notes = notes, Content = content, ResolutionType = resolution,
              ExpectedSequence = expected\<rparr>))))))"

definition parseTenantAndDiscrepancy :: "env \<Rightarrow> request \<Rightarrow> 'b response + (uuid \<times> uuid)" where
  "parseTenantAndDiscrepancy E r =
     (if ctx_tenant r = []
      then Inl (RespondError 401 ''MISSING_TENANT'' ''Tenant ID not found in context'')
      else case uuid_parse E (ctx_tenant r) of
        None \<Rightarrow> Inl (RespondError 400 ''INVALID_TENANT'' ''Invalid tenant ID format'')
      | Some tid \<Rightarrow>
          (case uuid_parse E (url_id r) of
             None \<Rightarrow> Inl (RespondError 400 ''INVALID_ID'' ''Invalid discrepancy ID format'')
           | Some discID \<Rightarrow> Inr (tid, discID)))"

definition decodeWorkflowRequest :: "request \<Rightarrow> 'b response + workflowRequest" where
  "decodeWorkflowRequest r =
     (case Option.bind (body r) decode_workflow of
        None \<Rightarrow> Inl (RespondError 400 ''INVALID_BODY'' ''Invalid JSON request body'')
      | Some req \<Rightarrow>
          if length (Actor req) > 255
          then Inl (RespondError 400 ''ACTOR_TOO_LONG'' ''actor must be 255 characters or fewer'')
          else if length (Notes req) > 10000
          then Inl (RespondError 400 ''NOTES_TOO_LONG'' ''notes must be 10000 characters or fewer'')
          else if length (Content req) > 10000
          then Inl (RespondError 400 ''CONTENT_TOO_LONG'' ''content must be 10000 characters or fewer'')
          else Inr req)"

text \<open>\<open>int64(x)\<close> of a float: truncation towards zero where the result fits.\<close>

definition truncate_rat :: "rat \<Rightarrow> int" where
  "truncate_rat x = (if x < 0 then - \<lfloor>- x\<rfloor> else \<lfloor>x\<rfloor>)"

definition int64_of_float :: "env \<Rightarrow> rat \<Rightarrow> int" where
  "int64_of_float E x =
     (let n = truncate_rat x in if - (2 ^ 63) \<le> n \<and> n < 2 ^ 63 then n else float_oob E x)"

text \<open>\<open>None\<close> stands for \<open>true\<close>; otherwise the response that was written.\<close>

definition checkOptimisticLock ::
  "env \<Rightarrow> uuid \<Rightarrow> uuid \<Rightarrow> workflowRequest \<Rightarrow> (world, 'b response option) state" where
  "checkOptimisticLock E tid discID req =
     (case ExpectedSequence req of
        None \<Rightarrow> ret None
      | Some x \<Rightarrow> do {
          cur \<leftarrow> GetLatestSequence E tid discID;
          ret (case cur of
                 Inl e \<Rightarrow> Some (RespondError 500 ''SEQUENCE_CHECK_FAILED'' ''Failed to check sequence'')
               | Inr current \<Rightarrow>
                   if current \<noteq> int64_of_float E x
                   then Some (RespondError 409 ''SEQUENCE_CONFLICT''
                          (''Discrepancy was modified. Expected sequence '' @ show_int (int64_of_float E x) @
                           '', current is '' @ show_int current))
                   else None)
        })"

text \<open>The part of \<open>executeTransition\<close> that runs in the transaction, up to the commit.\<close>

definition transition_body ::
  "env \<Rightarrow> dbtx \<Rightarrow> uuid \<Rightarrow> uuid \<Rightarrow> string \<Rightarrow> gotime option \<Rightarrow> string \<Rightarrow> string \<Rightarrow> jobject
     \<Rightarrow> (world, (discrepancy \<times> ledger_event) result) state" where
  "transition_body E c tid discID targetStatus resolvedAt eventType actor payload = do {
     got \<leftarrow> GetByIDWith E c tid discID;
     case got of
       Inl e \<Rightarrow> ret (Inl (wrap ''NOT_FOUND'' e))
     | Inr disc \<Rightarrow>
         if \<not> ValidTransition (d_status disc) targetStatus
         then ret (Inl (ErrText (''INVALID_TRANSITION: cannot transition from '' @ d_status disc @
                                 '' to '' @ targetStatus)))
         else do {
           upd \<leftarrow> UpdateStatusWith E c tid discID targetStatus resolvedAt;
           case upd of
             Inl e \<Rightarrow> ret (Inl (wrap ''UPDATE_FAILED'' e))
           | Inr _ \<Rightarrow> do {
               event \<leftarrow> NewLedgerEvent E (uuid_text E tid) (uuid_text E discID) eventType actor
                          ActorUser payload;
               saved \<leftarrow> AppendWith E c tid event;
               ret (case saved of
                      Inl e \<Rightarrow> Inl (wrap ''EVENT_FAILED'' e)
                    | Inr savedEvent \<Rightarrow>
                        Inr (disc\<lparr>d_status := targetStatus,
                                  d_resolved_at := (case resolvedAt of None \<Rightarrow> d_resolved_at disc
                                                    | Some x \<Rightarrow> Some x)\<rparr>,
                             savedEvent))
             }
         }
   }"

definition executeTransition ::
  "env \<Rightarrow> uuid \<Rightarrow> uuid \<Rightarrow> string \<Rightarrow> gotime option \<Rightarrow> string \<Rightarrow> string \<Rightarrow> jobject
     \<Rightarrow> (world, (discrepancy \<times> ledger_event) result) state" where
  "executeTransition E tid discID targetStatus resolvedAt eventType actor payload = do {
     begun \<leftarrow> tx_begin E;
     case begun of
       Inl e \<Rightarrow> ret (Inl (wrap ''TX_FAILED'' e))
     | Inr (tx, snap) \<Rightarrow> do {
         res \<leftarrow> transition_body E tx tid discID targetStatus resolvedAt eventType actor payload;
         case res of
           Inl e \<Rightarrow> do { tx_rollback snap; ret (Inl e) }
         | Inr out \<Rightarrow> do {
             committed \<leftarrow> tx_commit E;
             case committed of
               Inl e \<Rightarrow> do { tx_rollback snap; ret (Inl (wrap ''COMMIT_FAILED'' e)) }
             | Inr _ \<Rightarrow> ret (Inr out)
           }
       }
   }"

text \<open>\<open>msg[20:]\<close> panics when the message is shorter.\<close>

definition respondTransitionError :: "goerr \<Rightarrow> string \<Rightarrow> 'b response" where
  "respondTransitionError err action =
     (let msg = err_text err in
      if length msg \<ge> 9 \<and> take 9 msg = ''NOT_FOUND''
      then RespondError 404 ''NOT_FOUND'' ''Discrepancy not found''
      else if length msg \<ge> 18 \<and> take 18 msg = ''INVALID_TRANSITION''
      then (if length msg < 20 then Panic
            else RespondError 409 ''INVALID_TRANSITION'' (''Cannot '' @ action @ '': '' @ drop 20 msg))
      else RespondError 500 ''INTERNAL_ERROR'' (''Failed to '' @ action))"

definition transition_response ::
  "string \<Rightarrow> (discrepancy \<times> ledger_event) result \<Rightarrow> workflow_reply response" where
  "transition_response action res =
     (case res of
        Inl e \<Rightarrow> respondTransitionError e action
      | Inr (disc, event) \<Rightarrow> RespondJSON 200 (Transitioned disc event))"

section \<open>discrepancies\_actions.go\<close>

definition Acknowledge :: "env \<Rightarrow> request \<Rightarrow> (world, workflow_reply response) state" where
  "Acknowledge E r =
     (case parseTenantAndDiscrepancy E r of Inl resp \<Rightarrow> ret resp
      | Inr (tid, discID) \<Rightarrow>
     (case decodeWorkflowRequest r of Inl resp \<Rightarrow> ret resp
      | Inr req \<Rightarrow>
        if Actor req = [] then ret (RespondError 400 ''MISSING_ACTOR'' ''actor field is required'')
        else do {
          lock \<leftarrow> checkOptimisticLock E tid discID req;
          case lock of Some resp \<Rightarrow> ret resp
          | None \<Rightarrow> do {
              result \<leftarrow> executeTransition E tid discID StatusAcknowledged None EventAcknowledged
                          (Actor req) (Some [(''previous_status'', JStr ''open'')]);
              ret (transition_response ''acknowledge'' result)
            }
        }))"

definition Investigate :: "env \<Rightarrow> request \<Rightarrow> (world, workflow_reply response) state" where
  "Investigate E r =
     (case parseTenantAndDiscrepancy E r of Inl resp \<Rightarrow> ret resp
      | Inr (tid, discID) \<Rightarrow>
     (case decodeWorkflowRequest r of Inl resp \<Rightarrow> ret resp
      | Inr req \<Rightarrow>
        if Actor req = [] then ret (RespondError 400 ''MISSING_ACTOR'' ''actor field is required'')
        else do {
          lock \<leftarrow> checkOptimisticLock E tid discID req;
          case lock of Some resp \<Rightarrow> ret resp
          | None \<Rightarrow> do {
              result \<leftarrow> executeTransition E tid discID StatusInvestigating None
                          EventInvestigationStarted (Actor req)
                          (Some ((''previous_status'', JStr StatusAcknowledged) #
                             (if Notes req \<noteq> [] then [(''notes'', JStr (Notes req))] else [])));
              ret (transition_response ''investigate'' result)
            }
        }))"

definition Resolve :: "env \<Rightarrow> request \<Rightarrow> (world, workflow_reply response) state" where
  "Resolve E r =
     (case parseTenantAndDiscrepancy E r of Inl resp \<Rightarrow> ret resp
      | Inr (tid, discID) \<Rightarrow>
     (case decodeWorkflowRequest r of Inl resp \<Rightarrow> ret resp
      | Inr req \<Rightarrow>
        if Actor req = [] then ret (RespondError 400 ''MISSING_ACTOR'' ''actor field is required'')
        else if ResolutionType req = []
        then ret (RespondError 400 ''MISSING_RESOLUTION_TYPE'' ''resolution_type field is required'')
        else if \<not> ValidResolutionType (ResolutionType req)
        then ret (RespondError 400 ''INVALID_RESOLUTION_TYPE''
               (''Invalid resolution_type: '' @ ResolutionType req @ ''. Must be one of: '' @
                ''match_found, false_positive, manual_adjustment, write_off''))
        else do {
          lock \<leftarrow> checkOptimisticLock E tid discID req;
          case lock of Some resp \<Rightarrow> ret resp
          | None \<Rightarrow> do {
              now \<leftarrow> time_Now E;
              result \<leftarrow> executeTransition E tid discID StatusResolved (Some now) EventResolved
                          (Actor req)
                          (Some ((''resolution_type'', JStr (ResolutionType req)) #
                             (if Notes req \<noteq> [] then [(''notes'', JStr (Notes req))] else [])));
              ret (transition_response ''resolve'' result)
            }
        }))"

definition AddNote :: "env \<Rightarrow> request \<Rightarrow> (world, workflow_reply response) state" where
  "AddNote E r =
     (case parseTenantAndDiscrepancy E r of Inl resp \<Rightarrow> ret resp
      | Inr (tid, discID) \<Rightarrow>
     (case decodeWorkflowRequest r of Inl resp \<Rightarrow> ret resp
      | Inr req \<Rightarrow>
        if Actor req = [] then ret (RespondError 400 ''MISSING_ACTOR'' ''actor field is required'')
        else if Content req = []
        then ret (RespondError 400 ''MISSING_CONTENT'' ''content field is required'')
        else do {
          lock \<leftarrow> checkOptimisticLock E tid discID req;
          case lock of Some resp \<Rightarrow> ret resp
          | None \<Rightarrow> do {
              got \<leftarrow> DiscrepancyStore_GetByID E tid discID;
              case got of
                Inl e \<Rightarrow> ret (RespondError 404 ''NOT_FOUND'' ''Discrepancy not found'')
              | Inr _ \<Rightarrow> do {
                  event \<leftarrow> NewLedgerEvent E (uuid_text E tid) (uuid_text E discID) EventNoteAdded
                             (Actor req) ActorUser (Some [(''content'', JStr (Content req))]);
                  saved \<leftarrow> EventStore_Append E tid event;
                  ret (case saved of
                         Inl e \<Rightarrow> RespondError 500 ''EVENT_FAILED'' ''Failed to append event''
                       | Inr savedEvent \<Rightarrow> RespondJSON 201 (NoteSaved savedEvent))
                }
            }
        }))"

section \<open>discrepancies.go: the detail endpoint\<close>

definition DiscrepancyHandler_GetByID :: "env \<Rightarrow> request \<Rightarrow> (world, workflow_reply response) state" where
  "DiscrepancyHandler_GetByID E r =
     (if ctx_tenant r = []
      then ret (RespondError 401 ''MISSING_TENANT'' ''Tenant ID not found in context'')
      else case uuid_parse E (ctx_tenant r) of
        None \<Rightarrow> ret (RespondError 400 ''INVALID_TENANT'' ''Invalid tenant ID format'')
      | Some tid \<Rightarrow>
     (case uuid_parse E (url_id r) of
        None \<Rightarrow> ret (RespondError 400 ''INVALID_ID'' ''Invalid discrepancy ID format'')
      | Some discID \<Rightarrow> do {
          got \<leftarrow> DiscrepancyStore_GetByID E tid discID;
          case got of
            Inl e \<Rightarrow> ret (RespondError 404 ''NOT_FOUND'' ''Discrepancy not found'')
          | Inr disc \<Rightarrow> do {
              listed \<leftarrow> ListByDiscrepancy E tid discID;
              ret (case listed of
                     Inl e \<Rightarrow> RespondError 500 ''EVENTS_FAILED'' ''Failed to retrieve events''
                   | Inr es \<Rightarrow> RespondJSON 200 (Detail disc es))
            }
        }))"

section \<open>What a transition does\<close>

lemma transition_body_seq:
  "state_io_rel (db_rel seq_grows) (transition_body E c tid i s res ty actor payload)"
  unfolding transition_body_def GetByIDWith_def UpdateStatusWith_def rows_or_not_found_def
    NewLedgerEvent_def AppendWith_def
  by (auto intro!: sequence.io_basic sequence.io_pg
      simp: insert_event_grows update_discrepancies_grows split: sum.split)

text \<open>What comes after the read in the transaction of \<open>executeTransition\<close>, up to the commit.\<close>

definition after_read ::
  "env \<Rightarrow> dbtx \<Rightarrow> uuid \<Rightarrow> uuid \<Rightarrow> string \<Rightarrow> gotime option \<Rightarrow> string \<Rightarrow> string \<Rightarrow> jobject \<Rightarrow> discrepancy result
     \<Rightarrow> (world, (discrepancy \<times> ledger_event) result) state" where
  "after_read E c tid discID targetStatus resolvedAt eventType actor payload got =
     (case got of
       Inl e \<Rightarrow> ret (Inl (wrap ''NOT_FOUND'' e))
     | Inr disc \<Rightarrow>
         if \<not> ValidTransition (d_status disc) targetStatus
         then ret (Inl (ErrText (''INVALID_TRANSITION: cannot transition from '' @ d_status disc @
                                 '' to '' @ targetStatus)))
         else do {
           upd \<leftarrow> UpdateStatusWith E c tid discID targetStatus resolvedAt;
           case upd of
             Inl e \<Rightarrow> ret (Inl (wrap ''UPDATE_FAILED'' e))
           | Inr _ \<Rightarrow> do {
               event \<leftarrow> NewLedgerEvent E (uuid_text E tid) (uuid_text E discID) eventType actor
                          ActorUser payload;
               saved \<leftarrow> AppendWith E c tid event;
               ret (case saved of
                      Inl e \<Rightarrow> Inl (wrap ''EVENT_FAILED'' e)
                    | Inr savedEvent \<Rightarrow>
                        Inr (disc\<lparr>d_status := targetStatus,
                                  d_resolved_at := (case resolvedAt of None \<Rightarrow> d_resolved_at disc
                                                    | Some x \<Rightarrow> Some x)\<rparr>,
                             savedEvent))
             }
         })"

lemma transition_body_split:
  "transition_body E c tid i s res ty actor payload =
     do { got \<leftarrow> GetByIDWith E c tid i; after_read E c tid i s res ty actor payload got }"
  by (simp add: transition_body_def after_read_def)

lemma after_read_Inr:
  assumes codec: "uuid_codec E"
    and run: "run_state (after_read E c tid i s res ty actor payload (Inr r)) w = (Inr (x, ev), w')"
  obtains now where "ValidTransition (d_status r) s"
    and "x = r\<lparr>d_status := s, d_resolved_at := (case res of None \<Rightarrow> d_resolved_at r | Some y \<Rightarrow> Some y)\<rparr>"
    and "\<And>y. y \<in> set (discrepancies (db w)) \<Longrightarrow> is_row E tid i y \<Longrightarrow> discrepancy_check (set_status s res now y)"
    and "e_discrepancy_id ev = uuid_text E i" and "e_tenant_id ev = uuid_text E tid"
    and "e_event_type ev = ty" and "e_actor ev = actor" and "e_actor_type ev = ActorUser"
    and "e_payload ev = payload" and "e_sequence_num ev = event_seq (db w)"
    and "db w' = transitioned E tid i s res now ev (db w)"
proof -
  have v: "ValidTransition (d_status r) s"
    using run by (auto simp: after_read_def split: if_splits)
  obtain upd w2 where u: "run_state (UpdateStatusWith E c tid i s res) w = (upd, w2)" by fastforce
  obtain y where y: "upd = Inr y"
    using run v u by (cases upd) (auto simp: after_read_def)
  obtain now where now: "db w2 = updated (is_row E tid i) (set_status s res now) (db w)"
    and check: "\<And>y. y \<in> set (discrepancies (db w)) \<Longrightarrow> is_row E tid i y \<Longrightarrow> discrepancy_check (set_status s res now y)"
    using UpdateStatusWith_Inr [OF u [unfolded y]] by blast
  obtain e w3 where n: "run_state (NewLedgerEvent E (uuid_text E tid) (uuid_text E i) ty actor ActorUser payload) w2 = (e, w3)"
    by fastforce
  have e: "e_discrepancy_id e = uuid_text E i" "e_event_type e = ty" "e_actor e = actor"
      "e_actor_type e = ActorUser" "e_payload e = payload" and w3: "db w3 = db w2"
    using n by (auto simp: run_NewLedgerEvent)
  obtain saved w4 where a: "run_state (AppendWith E c tid e) w3 = (saved, w4)" by fastforce
  have saved: "saved = Inr ev" and w': "w' = w4"
    and x: "x = r\<lparr>d_status := s, d_resolved_at := (case res of None \<Rightarrow> d_resolved_at r | Some y \<Rightarrow> Some y)\<rparr>"
    using run v u y n a by (auto simp: after_read_def split: sum.splits)
  obtain disc where "pg_uuid E (e_discrepancy_id e) = Some disc"
    and ev: "ev = \<lparr>e_id = uuid_text E (gen_uuid E (tick w3)), e_tenant_id = uuid_text E tid,
              e_discrepancy_id = uuid_text E disc, e_event_type = e_event_type e, e_actor = e_actor e,
              e_actor_type = e_actor_type e, e_payload = e_payload e,
              e_sequence_num = event_seq (db w3), e_created_at = now_of E c (tick w3)\<rparr>"
    and w4: "db w4 = appended ev (db w3)"
    using AppendWith_Inr [OF a [unfolded saved]] by blast
  then have "disc = i" using codec e by simp
  show thesis
    by (rule that [of now])
       (use v x check ev e \<open>disc = i\<close> w' w4 w3 now in \<open>simp_all add: transitioned_def\<close>)
qed

lemma transition_body_Inr:
  assumes codec: "uuid_codec E"
    and run: "run_state (transition_body E c tid i s res ty actor payload) w = (Inr (x, ev), w')"
  obtains r now where "r \<in> set (discrepancies (db w))" and "is_row E tid i r"
    and "ValidTransition (d_status r) s"
    and "x = r\<lparr>d_status := s, d_resolved_at := (case res of None \<Rightarrow> d_resolved_at r | Some y \<Rightarrow> Some y)\<rparr>"
    and "\<And>y. y \<in> set (discrepancies (db w)) \<Longrightarrow> is_row E tid i y \<Longrightarrow> discrepancy_check (set_status s res now y)"
    and "e_discrepancy_id ev = uuid_text E i" and "e_tenant_id ev = uuid_text E tid"
    and "e_event_type ev = ty" and "e_actor ev = actor" and "e_actor_type ev = ActorUser"
    and "e_payload ev = payload" and "e_sequence_num ev = event_seq (db w)"
    and "db w' = transitioned E tid i s res now ev (db w)"
proof -
  obtain got w1 where g: "run_state (GetByIDWith E c tid i) w = (got, w1)" by fastforce
  obtain r where r: "got = Inr r"
    using run g by (cases got) (auto simp: transition_body_split after_read_def)
  note read = GetByIDWith_Inr [OF g [unfolded r]]
  have "run_state (after_read E c tid i s res ty actor payload (Inr r)) w1 = (Inr (x, ev), w')"
    using run g r by (simp add: transition_body_split)
  then show thesis
    by (rule after_read_Inr [OF codec]) (rule that [of r], use read in auto)
qed

text \<open>
  The abstract transition: either nothing happened to the tables, but for drawn sequence values, or
  the row changed status along an arrow of the machine and its event was appended.
\<close>

lemma executeTransition_cases:
  assumes codec: "uuid_codec E"
    and run: "run_state (executeTransition E tid i s res ty actor payload) w = (out, w')"
  obtains (failed) e seq where "out = Inl e" and "event_seq (db w) \<le> seq"
      and "db w' = (db w)\<lparr>event_seq := seq\<rparr>"
  | (moved) r now x ev where "out = Inr (x, ev)" and "r \<in> set (discrepancies (db w))"
      and "is_row E tid i r" and "ValidTransition (d_status r) s"
      and "x = r\<lparr>d_status := s, d_resolved_at := (case res of None \<Rightarrow> d_resolved_at r | Some y \<Rightarrow> Some y)\<rparr>"
      and "\<And>y. y \<in> set (discrepancies (db w)) \<Longrightarrow> is_row E tid i y \<Longrightarrow> discrepancy_check (set_status s res now y)"
      and "e_discrepancy_id ev = uuid_text E i" and "e_tenant_id ev = uuid_text E tid"
      and "e_event_type ev = ty" and "e_actor ev = actor" and "e_actor_type ev = ActorUser"
      and "e_payload ev = payload" and "e_sequence_num ev = event_seq (db w)"
      and "db w' = transitioned E tid i s res now ev (db w)"
proof -
  obtain begun w1 where b: "run_state (tx_begin E) w = (begun, w1)" by fastforce
  have w1: "db w1 = db w" using b unfolding tx_begin_def by (rule run_query_db)
  show thesis
  proof (cases begun)
    case (Inl e)
    have "db w' = (db w)\<lparr>event_seq := event_seq (db w)\<rparr>"
      using run b Inl w1 by (simp add: executeTransition_def)
    with run b Inl show thesis by (auto simp: executeTransition_def intro: failed)
  next
    case (Inr p)
    then have p: "begun = Inr (Tx (tick w), db w)"
      using b by (auto simp: tx_begin_def run_pg query_def split: if_splits)
    obtain res' w2 where body: "run_state (transition_body E (Tx (tick w)) tid i s res ty actor payload) w1 = (res', w2)"
      by fastforce
    have grow: "event_seq (db w) \<le> event_seq (db w2)"
      using sequence.lifted.io_run [OF transition_body_seq body] w1 by (simp add: db_rel_def seq_grows_def)
    show thesis
    proof (cases res')
      case (Inl e)
      then show thesis
        using run b p body grow by (auto simp: executeTransition_def intro: failed)
    next
      case (Inr q)
      obtain x ev where q: "q = (x, ev)" by fastforce
      obtain com w3 where c: "run_state (tx_commit E) w2 = (com, w3)" by fastforce
      have w3: "db w3 = db w2" using c unfolding tx_commit_def by (rule run_query_db)
      show thesis
      proof (cases com)
        case (Inl e)
        then show thesis
          using run b p body Inr c w3 grow by (auto simp: executeTransition_def intro: failed)
      next
        case (Inr u)
        then have out: "out = Inr (x, ev)" and w': "w' = w3"
          using run b p body \<open>res' = Inr q\<close> q c by (auto simp: executeTransition_def)
        show thesis
          by (rule transition_body_Inr [OF codec body [unfolded \<open>res' = Inr q\<close> q]])
             (rule moved [OF out], use w1 w' w3 in simp_all)
      qed
    qed
  qed
qed

section \<open>The workflow refines the abstract ledger\<close>

lemma executeTransition_steps:
  assumes codec: "uuid_codec E" and target: "event_target ty = Some s" and closed: "terminal s \<longleftrightarrow> res \<noteq> None"
  shows "state_io_rel (db_rel (ledger_steps E)) (executeTransition E tid i s res ty actor payload)"
proof -
  have "ledger_steps E (db w) (db w')"
    if run: "run_state (executeTransition E tid i s res ty actor payload) w = (out, w')" for w out w'
    using codec run
  proof (cases rule: executeTransition_cases)
    case (failed e seq)
    then show ?thesis by (auto intro: one_step draw)
  next
    case (moved r now x ev)
    have "ledger_step E (db w) (transitioned E tid i s res now ev (db w))"
      by (rule transition [OF moved(2,3,4)]) (use moved target closed in simp_all)
    with moved show ?thesis by (simp add: one_step)
  qed
  then show ?thesis by (rule db_relI)
qed

lemma checkOptimisticLock_steps: "state_io_rel (db_rel (ledger_steps E)) (checkOptimisticLock E tid i req)"
  unfolding checkOptimisticLock_def GetLatestSequence_def GetLatestSequenceWith_def
  by (auto intro!: spec.io_basic split: option.split)

text \<open>
  Appending an event that changes no status, for a row that was read before: the step \<open>append\<close>, or a
  drawn sequence value.
\<close>

lemma append_steps:
  assumes codec: "uuid_codec E" and row: "r \<in> set (discrepancies (db w))" "is_row E tid i r"
    and x: "event_target (e_event_type x) = None" "e_discrepancy_id x = uuid_text E i"
    and run: "run_state (AppendWith E c tid x) w = (out, w')"
  shows "ledger_steps E (db w) (db w')"
proof (cases out)
  case (Inl e)
  from run [unfolded Inl] obtain seq where "event_seq (db w) \<le> seq" "db w' = (db w)\<lparr>event_seq := seq\<rparr>"
    by (rule AppendWith_Inl)
  then show ?thesis by (auto intro: one_step draw)
next
  case (Inr e)
  from run [unfolded Inr] obtain disc where "pg_uuid E (e_discrepancy_id x) = Some disc"
    and e: "e = \<lparr>e_id = uuid_text E (gen_uuid E (tick w)), e_tenant_id = uuid_text E tid,
              e_discrepancy_id = uuid_text E disc, e_event_type = e_event_type x, e_actor = e_actor x,
              e_actor_type = e_actor_type x, e_payload = e_payload x,
              e_sequence_num = event_seq (db w), e_created_at = now_of E c (tick w)\<rparr>"
    and w': "db w' = appended e (db w)"
    by (rule AppendWith_Inr)
  then have "disc = i" using codec x by simp
  show ?thesis
    unfolding w' by (rule one_step, rule append [OF row(1)])
      (use e row x \<open>disc = i\<close> in \<open>simp_all add: is_row_def\<close>)
qed

lemma AddNote_body_steps:
  assumes codec: "uuid_codec E"
  shows "state_io_rel (db_rel (ledger_steps E)) (do {
      got \<leftarrow> DiscrepancyStore_GetByID E tid i;
      case got of
        Inl e \<Rightarrow> ret (RespondError 404 ''NOT_FOUND'' ''Discrepancy not found'')
      | Inr _ \<Rightarrow> do {
          event \<leftarrow> NewLedgerEvent E (uuid_text E tid) (uuid_text E i) EventNoteAdded actor ActorUser payload;
          saved \<leftarrow> EventStore_Append E tid event;
          ret (case saved of
                 Inl e \<Rightarrow> RespondError 500 ''EVENT_FAILED'' ''Failed to append event''
               | Inr savedEvent \<Rightarrow> RespondJSON 201 (NoteSaved savedEvent))
        }
    })" (is "state_io_rel _ ?m")
proof -
  have "ledger_steps E (db w) (db w')" if run: "run_state ?m w = (out, w')" for w out w'
  proof -
    obtain got w1 where g: "run_state (DiscrepancyStore_GetByID E tid i) w = (got, w1)" by fastforce
    show ?thesis
    proof (cases got)
      case (Inl e)
      then show ?thesis using run g GetByID_Inl [OF g [unfolded Inl]] by simp
    next
      case (Inr r)
      note read = GetByID_Inr [OF g [unfolded Inr]]
      obtain x w2 where n: "run_state (NewLedgerEvent E (uuid_text E tid) (uuid_text E i) EventNoteAdded actor ActorUser payload) w1 = (x, w2)"
        by fastforce
      then have x: "event_target (e_event_type x) = None" "e_discrepancy_id x = uuid_text E i"
        and w2: "db w2 = db w1" by (auto simp: run_NewLedgerEvent)
      obtain saved w3 where a: "run_state (AppendWith E Pool tid x) w2 = (saved, w3)" by fastforce
      have "w' = w3" using run g Inr n a by (simp add: EventStore_Append_def)
      with append_steps [OF codec _ _ x a] read w2 show ?thesis by auto
    qed
  qed
  then show ?thesis by (rule db_relI)
qed

theorem workflow_steps:
  assumes "uuid_codec E"
  shows "state_io_rel (db_rel (ledger_steps E)) (Acknowledge E r)"
    and "state_io_rel (db_rel (ledger_steps E)) (Investigate E r)"
    and "state_io_rel (db_rel (ledger_steps E)) (Resolve E r)"
    and "state_io_rel (db_rel (ledger_steps E)) (AddNote E r)"
    and "state_io_rel (db_rel (ledger_steps E)) (DiscrepancyHandler_GetByID E r)"
  unfolding Acknowledge_def Investigate_def Resolve_def AddNote_def DiscrepancyHandler_GetByID_def
  by (auto intro!: spec.io_basic spec.io_reads checkOptimisticLock_steps executeTransition_steps [OF assms]
      AddNote_body_steps [OF assms] split: sum.split option.split)

section \<open>Properties of a transition\<close>



text \<open>The texts of the errors: never \<open>INVALID_TRANSITION\<close> with fewer than 20 bytes.\<close>

definition sliceable :: "goerr \<Rightarrow> bool" where
  "sliceable e \<longleftrightarrow> (take 18 (err_text e) = ''INVALID_TRANSITION'' \<longrightarrow> 20 \<le> length (err_text e))"

lemma sliceable_texts [simp]:
  "sliceable (wrap ''NOT_FOUND'' e)" "sliceable (wrap ''UPDATE_FAILED'' e)" "sliceable (wrap ''EVENT_FAILED'' e)"
  "sliceable (wrap ''TX_FAILED'' e)" "sliceable (wrap ''COMMIT_FAILED'' e)"
  "sliceable (ErrText (''INVALID_TRANSITION: cannot transition from '' @ m))"
  by (simp_all add: sliceable_def wrap_def)

lemma respondTransitionError_sliceable: "sliceable e \<Longrightarrow> respondTransitionError e action \<noteq> Panic"
  by (auto simp: sliceable_def respondTransitionError_def Let_def RespondError_def)

lemma transition_body_error:
  "fst (run_state (transition_body E c tid i s res ty actor payload) w) = Inl e \<Longrightarrow> sliceable e"
  by (auto simp: transition_body_def sliceable_texts(6) [simplified] split: prod.splits sum.splits if_splits)

lemma executeTransition_error:
  assumes "fst (run_state (executeTransition E tid i s res ty actor payload) w) = Inl e"
  shows "sliceable e"
proof -
  obtain begun w1 where b: "run_state (tx_begin E) w = (begun, w1)" by fastforce
  show ?thesis
  proof (cases begun)
    case (Inl e')
    with assms b show ?thesis by (auto simp: executeTransition_def)
  next
    case (Inr p)
    obtain c snap where p: "p = (c, snap)" by fastforce
    obtain out w2 where body: "run_state (transition_body E c tid i s res ty actor payload) w1 = (out, w2)"
      by fastforce
    show ?thesis
    proof (cases out)
      case (Inl e')
      with assms b Inr p body have "e = e'" by (simp add: executeTransition_def)
      with Inl body transition_body_error show ?thesis by (metis fst_conv)
    next
      case (Inr q)
      with assms b \<open>begun = Inr p\<close> p body show ?thesis
        by (auto simp: executeTransition_def split: prod.splits sum.splits)
    qed
  qed
qed

text \<open>
  Whatever \<open>executeTransition\<close> returns, the handlers answer with a response and never
  panic on slicing the error's text.
\<close>

lemma transition_response_no_panic:
  "transition_response action (fst (run_state (executeTransition E tid i s res ty actor payload) w)) \<noteq> Panic"
  by (auto simp: transition_response_def RespondJSON_def respondTransitionError_sliceable
      dest: executeTransition_error split: sum.split)

section \<open>Properties of the handlers\<close>

fun succeeded :: "'b response \<Rightarrow> bool" where
  "succeeded (Reply status y) = True"
| "succeeded _ = False"

text \<open>The sequence number \<open>GetLatestSequence\<close> reads.\<close>

definition latest :: "env \<Rightarrow> uuid \<Rightarrow> uuid \<Rightarrow> database \<Rightarrow> int" where
  "latest E tid i d = (case max_sequence (events_of E tid i d) of None \<Rightarrow> 0 | Some s \<Rightarrow> s)"

lemma max_sequence_Max:
  "max_sequence es = (if es = [] then None else Some (Max (e_sequence_num ` set es)))"
proof (cases es)
  case (Cons e es')
  have "foldl max x xs = Max (insert x (set xs))" for x :: int and xs
    by (metis Max.set_eq_fold foldl_conv_fold list.simps(15) max.commute fun_eq_iff)
  with Cons show ?thesis by (simp add: max_sequence_def)
qed (simp add: max_sequence_def)

lemma GetLatestSequence_Inr:
  "run_state (GetLatestSequence E tid i) w = (Inr n, w') \<Longrightarrow> n = latest E tid i (db w) \<and> db w' = db w"
  unfolding GetLatestSequence_def GetLatestSequenceWith_def
  by (drule wrapped_query_Inr) (auto simp: latest_def max_sequence_Max split: if_splits)

lemma checkOptimisticLock_cases:
  assumes "run_state (checkOptimisticLock E tid i req) w = (lock, w')"
  shows "db w' = db w" and "lock = Some resp \<Longrightarrow> \<not> succeeded resp"
    and "lock = None \<Longrightarrow> ExpectedSequence req = Some x \<Longrightarrow> latest E tid i (db w) = int64_of_float E x"
proof -
  have "state_io_rel (db_rel (\<lambda>d d'. d' = d)) (checkOptimisticLock E tid i req)"
    unfolding checkOptimisticLock_def GetLatestSequence_def GetLatestSequenceWith_def
    by (auto simp: state_io_rel_def db_rel_def run_wrapped run_pg query_def split: option.split prod.split)
  then show "db w' = db w" using assms by (auto simp: db_rel_def dest: state_io_relD)
  show "\<not> succeeded resp" if "lock = Some resp"
    using assms that
    by (auto simp: checkOptimisticLock_def RespondError_def split: option.splits prod.splits sum.splits if_splits)
  show "latest E tid i (db w) = int64_of_float E x" if "lock = None" "ExpectedSequence req = Some x"
    using assms that
    by (auto simp: checkOptimisticLock_def dest: GetLatestSequence_Inr split: option.splits prod.splits sum.splits if_splits)
qed

text \<open>
  What the four writing handlers have in common: they check the tenant and the identifier, decode the
  body, check the lock, and only then write. \<open>guarded\<close> is this frame, \<open>act\<close> what comes after it.
\<close>

definition guarded ::
  "env \<Rightarrow> request \<Rightarrow> (workflowRequest \<Rightarrow> workflow_reply response option)
     \<Rightarrow> (uuid \<Rightarrow> uuid \<Rightarrow> workflowRequest \<Rightarrow> (world, workflow_reply response) state)
     \<Rightarrow> (world, workflow_reply response) state" where
  "guarded E r check act =
     (case parseTenantAndDiscrepancy E r of Inl resp \<Rightarrow> ret resp
      | Inr (tid, i) \<Rightarrow>
     (case decodeWorkflowRequest r of Inl resp \<Rightarrow> ret resp
      | Inr req \<Rightarrow>
     (case check req of Some resp \<Rightarrow> ret resp
      | None \<Rightarrow> do {
          lock \<leftarrow> checkOptimisticLock E tid i req;
          case lock of Some resp \<Rightarrow> ret resp | None \<Rightarrow> act tid i req
        })))"

definition writing_handlers :: "(env \<Rightarrow> request \<Rightarrow> (world, workflow_reply response) state) list" where
  "writing_handlers = [Acknowledge, Investigate, Resolve, AddNote]"

lemma parse_failed: "parseTenantAndDiscrepancy E r = Inl resp \<Longrightarrow> \<not> succeeded resp"
  by (auto simp: parseTenantAndDiscrepancy_def RespondError_def split: if_splits option.splits)

lemma decode_failed: "decodeWorkflowRequest r = Inl resp \<Longrightarrow> \<not> succeeded resp"
  by (auto simp: decodeWorkflowRequest_def Let_def RespondError_def split: if_splits option.splits)

lemma decode_Inr:
  "decodeWorkflowRequest r = Inr req \<Longrightarrow> Option.bind (body r) decode_workflow = Some req \<and>
     length (Actor req) \<le> 255 \<and> length (Notes req) \<le> 10000 \<and> length (Content req) \<le> 10000"
  by (auto simp: decodeWorkflowRequest_def split: option.splits if_splits)

lemma parse_Inr:
  "parseTenantAndDiscrepancy E r = Inr (tid, i) \<longleftrightarrow>
     ctx_tenant r \<noteq> [] \<and> uuid_parse E (ctx_tenant r) = Some tid \<and> uuid_parse E (url_id r) = Some i"
  by (auto simp: parseTenantAndDiscrepancy_def split: option.splits)

definition need_actor :: "workflowRequest \<Rightarrow> workflow_reply response option" where
  "need_actor req = (if Actor req = []
     then Some (RespondError 400 ''MISSING_ACTOR'' ''actor field is required'') else None)"

definition need_resolution :: "workflowRequest \<Rightarrow> workflow_reply response option" where
  "need_resolution req = (case need_actor req of Some resp \<Rightarrow> Some resp | None \<Rightarrow>
     if ResolutionType req = []
     then Some (RespondError 400 ''MISSING_RESOLUTION_TYPE'' ''resolution_type field is required'')
     else if \<not> ValidResolutionType (ResolutionType req)
     then Some (RespondError 400 ''INVALID_RESOLUTION_TYPE''
            (''Invalid resolution_type: '' @ ResolutionType req @ ''. Must be one of: '' @
             ''match_found, false_positive, manual_adjustment, write_off''))
     else None)"

definition need_content :: "workflowRequest \<Rightarrow> workflow_reply response option" where
  "need_content req = (case need_actor req of Some resp \<Rightarrow> Some resp | None \<Rightarrow>
     if Content req = [] then Some (RespondError 400 ''MISSING_CONTENT'' ''content field is required'')
     else None)"

lemma Acknowledge_guarded: "\<exists>act. Acknowledge E r = guarded E r need_actor act"
  by (rule exI [of _ "\<lambda>tid i req. do {
        result \<leftarrow> executeTransition E tid i StatusAcknowledged None EventAcknowledged
                    (Actor req) (Some [(''previous_status'', JStr ''open'')]);
        ret (transition_response ''acknowledge'' result) }"])
     (auto simp: Acknowledge_def guarded_def need_actor_def split: sum.split)

lemma Investigate_guarded: "\<exists>act. Investigate E r = guarded E r need_actor act"
  by (rule exI [of _ "\<lambda>tid i req. do {
        result \<leftarrow> executeTransition E tid i StatusInvestigating None EventInvestigationStarted (Actor req)
                    (Some ((''previous_status'', JStr StatusAcknowledged) #
                       (if Notes req \<noteq> [] then [(''notes'', JStr (Notes req))] else [])));
        ret (transition_response ''investigate'' result) }"])
     (auto simp: Investigate_def guarded_def need_actor_def split: sum.split)

definition resolve_act :: "env \<Rightarrow> uuid \<Rightarrow> uuid \<Rightarrow> workflowRequest \<Rightarrow> (world, workflow_reply response) state" where
  "resolve_act E tid i req = do {
     now \<leftarrow> time_Now E;
     result \<leftarrow> executeTransition E tid i StatusResolved (Some now) EventResolved (Actor req)
                 (Some ((''resolution_type'', JStr (ResolutionType req)) #
                    (if Notes req \<noteq> [] then [(''notes'', JStr (Notes req))] else [])));
     ret (transition_response ''resolve'' result)
   }"

lemma Resolve_guarded: "Resolve E r = guarded E r need_resolution (resolve_act E)"
  by (auto simp: Resolve_def guarded_def need_resolution_def need_actor_def resolve_act_def split: sum.split)

lemma AddNote_guarded: "\<exists>act. AddNote E r = guarded E r need_content act"
  by (rule exI [of _ "\<lambda>tid i req. do {
        got \<leftarrow> DiscrepancyStore_GetByID E tid i;
        case got of
          Inl e \<Rightarrow> ret (RespondError 404 ''NOT_FOUND'' ''Discrepancy not found'')
        | Inr _ \<Rightarrow> do {
            event \<leftarrow> NewLedgerEvent E (uuid_text E tid) (uuid_text E i) EventNoteAdded
                       (Actor req) ActorUser (Some [(''content'', JStr (Content req))]);
            saved \<leftarrow> EventStore_Append E tid event;
            ret (case saved of
                   Inl e \<Rightarrow> RespondError 500 ''EVENT_FAILED'' ''Failed to append event''
                 | Inr savedEvent \<Rightarrow> RespondJSON 201 (NoteSaved savedEvent))
          } }"])
     (auto simp: AddNote_def guarded_def need_content_def need_actor_def split: sum.split)

lemma needs_fail:
  "need_actor req = Some resp \<Longrightarrow> \<not> succeeded resp"
  "need_resolution req = Some resp \<Longrightarrow> \<not> succeeded resp"
  "need_content req = Some resp \<Longrightarrow> \<not> succeeded resp"
  by (auto simp: need_actor_def need_resolution_def need_content_def RespondError_def split: if_splits)

lemma handlers_guarded:
  "h \<in> set writing_handlers \<Longrightarrow>
     \<exists>check act. h E r = guarded E r check act \<and> (\<forall>req resp. check req = Some resp \<longrightarrow> \<not> succeeded resp)"
  unfolding writing_handlers_def
  using Acknowledge_guarded [of E r] Investigate_guarded [of E r] Resolve_guarded [of E r]
    AddNote_guarded [of E r] needs_fail
  by simp metis

lemma guarded_succeeds:
  assumes run: "run_state (guarded E r check act) w = (out, w')"
    and check: "\<And>req resp. check req = Some resp \<Longrightarrow> \<not> succeeded resp"
    and changed: "succeeded out \<or> db w' \<noteq> db w"
  obtains tid i req w1 where "parseTenantAndDiscrepancy E r = (Inr (tid, i) :: workflow_reply response + _)"
    and "decodeWorkflowRequest r = (Inr req :: workflow_reply response + _)" and "check req = None"
    and "run_state (checkOptimisticLock E tid i req) w = (None :: workflow_reply response option, w1)"
    and "db w1 = db w" and "run_state (act tid i req) w1 = (out, w')"
proof -
  obtain tid i where p: "parseTenantAndDiscrepancy E r = (Inr (tid, i) :: workflow_reply response + _)"
    using run changed
    by (cases "parseTenantAndDiscrepancy E r :: workflow_reply response + _")
       (auto simp: guarded_def dest: parse_failed)
  obtain req where d: "decodeWorkflowRequest r = (Inr req :: workflow_reply response + _)"
    using run changed p
    by (cases "decodeWorkflowRequest r :: workflow_reply response + _")
       (auto simp: guarded_def dest: decode_failed)
  have c: "check req = None"
    using run changed p d check by (cases "check req") (auto simp: guarded_def)
  obtain lock w1 where l: "run_state (checkOptimisticLock E tid i req) w = (lock :: workflow_reply response option, w1)"
    by fastforce
  note lock = checkOptimisticLock_cases [OF l]
  have "lock = None"
    using run changed p d c l lock by (cases lock) (auto simp: guarded_def)
  then show thesis
    using run p d c l lock(1) by (intro that [of tid i req w1]) (auto simp: guarded_def)
qed

text \<open>
  C9 (safety). Optimistic locking: when a writing handler is given an expected sequence, it succeeds, or
  changes anything at all, only if the discrepancy's latest sequence number is the expected one.
\<close>

theorem optimistic_lock:
  assumes h: "h \<in> set writing_handlers"
    and tid: "uuid_parse E (ctx_tenant r) = Some tid" and i: "uuid_parse E (url_id r) = Some i"
    and req: "Option.bind (body r) decode_workflow = Some req" "ExpectedSequence req = Some x"
    and run: "run_state (h E r) w = (out, w')"
    and changed: "succeeded out \<or> db w' \<noteq> db w"
  shows "latest E tid i (db w) = int64_of_float E x"
proof -
  obtain check act where g: "h E r = guarded E r check act"
    and check: "\<And>req resp. check req = Some resp \<Longrightarrow> \<not> succeeded resp"
    using handlers_guarded [OF h] by blast
  obtain tid' i' req' w1 where "parseTenantAndDiscrepancy E r = (Inr (tid', i') :: workflow_reply response + _)"
    and "decodeWorkflowRequest r = (Inr req' :: workflow_reply response + _)"
    and l: "run_state (checkOptimisticLock E tid' i' req') w = (None :: workflow_reply response option, w1)"
    by (rule guarded_succeeds [OF run [unfolded g] check changed])
  then have "tid' = tid" "i' = i" "req' = req"
    using tid i req by (auto simp: parse_Inr dest: decode_Inr)
  with checkOptimisticLock_cases(3) [OF l] req show ?thesis by simp
qed

definition sample_request :: "json \<Rightarrow> request" where
  "sample_request b =
     \<lparr>ctx_tenant = ''5'', url_id = ''7'', url_query = [], body = Some b, ctx_request_id = [], headers = [],
      RemoteAddr = [], Method = ''POST'', URL_Path = [], body_read = 0\<rparr>"

definition locked_body :: json where
  "locked_body = JObj [(''actor'', JStr ''bob''), (''expected_sequence'', JNum (Some 0) (Some 0))]"

lemma optimistic_lock_witness: "latest calm 5 7 (sample_db [sample_row StatusOpen None] []) = 0"
proof -
  let ?w = "sample_world (sample_db [sample_row StatusOpen None] [])"
  let ?m = "Acknowledge calm (sample_request locked_body)"
  have ok: "succeeded (fst (run_state ?m ?w))" by code_simp
  let ?req = "\<lparr>Actor = ''bob'', Notes = [], Content = [], ResolutionType = [], ExpectedSequence = Some 0\<rparr>"
  have dec: "decode_workflow locked_body = Some ?req"
    by code_simp
  have "latest calm 5 7 (db ?w) = int64_of_float calm 0"
    by (rule optimistic_lock [of Acknowledge calm "sample_request locked_body" 5 7 ?req 0 ?w
          "fst (run_state ?m ?w)" "snd (run_state ?m ?w)"])
       (use ok dec in \<open>simp_all add: writing_handlers_def sample_request_def\<close>)
  then show ?thesis by (simp add: int64_of_float_def truncate_rat_def)
qed

lemma respondTransitionError_fails: "\<not> succeeded (respondTransitionError e action)"
  unfolding respondTransitionError_def Let_def RespondError_def by (simp only: succeeded.simps split: if_split, simp)

lemma transition_response_succeeded:
  "succeeded (transition_response action res) \<longleftrightarrow> (\<exists>x ev. res = Inr (x, ev))"
  by (cases res) (auto simp: transition_response_def RespondJSON_def respondTransitionError_fails)

text \<open>
  C28 (functional). What a successful \<open>Resolve\<close> means: the request named an actor of at most 255 bytes
  and one of the four resolution types, the discrepancy was being investigated or was escalated, and
  now it is resolved, with the resolution time set and the event naming the actor and the type.
\<close>

theorem resolve_success:
  assumes codec: "uuid_codec E" and run: "run_state (Resolve E r) w = (out, w')" and ok: "succeeded out"
  shows "\<exists>tid i req d now res x ev.
     uuid_parse E (ctx_tenant r) = Some tid \<and> uuid_parse E (url_id r) = Some i \<and>
     Option.bind (body r) decode_workflow = Some req \<and>
     Actor req \<noteq> [] \<and> length (Actor req) \<le> 255 \<and> ValidResolutionType (ResolutionType req) \<and>
     d \<in> set (discrepancies (db w)) \<and> is_row E tid i d \<and>
     d_status d \<in> {StatusInvestigating, StatusEscalated} \<and>
     out = Reply 200 (Transitioned x ev) \<and>
     x = d\<lparr>d_status := StatusResolved, d_resolved_at := Some res\<rparr> \<and>
     e_event_type ev = EventResolved \<and> e_actor ev = Actor req \<and>
     jstring (e_payload ev) ''resolution_type'' = Some (ResolutionType req) \<and>
     db w' = transitioned E tid i StatusResolved (Some res) now ev (db w)"
proof -
  obtain tid i req w1 where p: "parseTenantAndDiscrepancy E r = (Inr (tid, i) :: workflow_reply response + _)"
    and d: "decodeWorkflowRequest r = (Inr req :: workflow_reply response + _)"
    and c: "need_resolution req = None" and w1: "db w1 = db w"
    and act: "run_state (resolve_act E tid i req) w1 = (out, w')"
    by (rule guarded_succeeds [OF run [unfolded Resolve_guarded] needs_fail(2)]) (use ok in auto)
  let ?payload = "Some ((''resolution_type'', JStr (ResolutionType req)) #
      (if Notes req \<noteq> [] then [(''notes'', JStr (Notes req))] else []))"
  let ?w2 = "w1\<lparr>tick := Suc (tick w1)\<rparr>"
  obtain res w3 where t: "run_state (executeTransition E tid i StatusResolved (Some (clock E (tick w1)))
      EventResolved (Actor req) ?payload) ?w2 = (res, w3)" by fastforce
  have out: "out = transition_response ''resolve'' res" and w3: "w' = w3"
    using act t by (simp_all add: resolve_act_def)
  obtain x ev where res: "res = Inr (x, ev)" using ok out by (auto simp: transition_response_succeeded)
  have actor: "Actor req \<noteq> []" "ValidResolutionType (ResolutionType req)"
    using c by (auto simp: need_resolution_def need_actor_def split: if_splits)
  show ?thesis
    using codec t
  proof (cases rule: executeTransition_cases)
    case (failed e seq)
    with res show ?thesis by simp
  next
    case (moved row now x' ev')
    have "d_status row \<in> {StatusInvestigating, StatusEscalated}"
      using ValidTransition_cases [OF moved(4)] by (auto simp: go_consts)
    moreover have "x' = x" "ev' = ev" using moved(1) res by simp_all
    moreover have "jstring (e_payload ev) ''resolution_type'' = Some (ResolutionType req)"
      using moved(12) \<open>ev' = ev\<close> by (simp add: jstring_def jlookup_def)
    moreover have "out = Reply 200 (Transitioned x ev)"
      using out res by (simp add: transition_response_def RespondJSON_def)
    moreover have "uuid_parse E (ctx_tenant r) = Some tid" "uuid_parse E (url_id r) = Some i"
      using p by (simp_all add: parse_Inr)
    moreover note decode_Inr [OF d] actor moved(2,3,5,9,10,14) w1 w3
    ultimately show ?thesis
      by (intro exI [of _ tid] exI [of _ i] exI [of _ req] exI [of _ row] exI [of _ now]
          exI [of _ "clock E (tick w1)"] exI [of _ x] exI [of _ ev]) simp
  qed
qed

definition resolve_body :: json where
  "resolve_body = JObj [(''actor'', JStr ''bob''), (''resolution_type'', JStr ''write_off'')]"

lemma resolve_success_witness:
  "\<exists>x ev w'. run_state (Resolve calm (sample_request resolve_body))
       (sample_world (sample_db [sample_row StatusEscalated None] [])) = (Reply 200 (Transitioned x ev), w') \<and>
     d_status x = StatusResolved \<and> e_actor ev = ''bob''"
proof -
  let ?w = "sample_world (sample_db [sample_row StatusEscalated None] [])"
  let ?m = "Resolve calm (sample_request resolve_body)"
  have ok: "succeeded (fst (run_state ?m ?w))" by code_simp
  have dec: "decode_workflow resolve_body =
      Some \<lparr>Actor = ''bob'', Notes = [], Content = [], ResolutionType = ''write_off'', ExpectedSequence = None\<rparr>"
    by code_simp
  have run: "run_state ?m ?w = (fst (run_state ?m ?w), snd (run_state ?m ?w))" by simp
  from resolve_success [OF codec_calm run ok] dec show ?thesis
    by (auto simp: sample_request_def prod_eq_iff)
qed

lemma executeTransition_isolates:
  assumes "uuid_codec E"
  shows "state_io_rel (db_rel (isolates (uuid_text E tid))) (executeTransition E tid i s res ty actor payload)"
proof (rule db_relI)
  fix w out w'
  assume run: "run_state (executeTransition E tid i s res ty actor payload) w = (out, w')"
  show "isolates (uuid_text E tid) (db w) (db w')"
    using assms run
  proof (cases rule: executeTransition_cases)
    case (failed e seq)
    then show ?thesis by simp
  next
    case (moved r now x ev)
    have "isolates (uuid_text E tid) (db w) (updated (is_row E tid i) (set_status s res now) (db w))"
      by (rule isolates_updated) (auto simp: is_row_def set_status_def)
    with moved show ?thesis
      by (auto simp: transitioned_def intro: isolates.step_trans isolates_appended)
  qed
qed

lemma handlers_isolate:
  assumes codec: "uuid_codec E" and tid: "uuid_parse E (ctx_tenant r) = Some tid"
  shows "state_io_rel (db_rel (isolates (uuid_text E tid))) (Acknowledge E r)"
    and "state_io_rel (db_rel (isolates (uuid_text E tid))) (Investigate E r)"
    and "state_io_rel (db_rel (isolates (uuid_text E tid))) (Resolve E r)"
    and "state_io_rel (db_rel (isolates (uuid_text E tid))) (AddNote E r)"
  using tid
  unfolding Acknowledge_def Investigate_def Resolve_def AddNote_def parseTenantAndDiscrepancy_def
    checkOptimisticLock_def
  by (auto intro!: isolating.io_basic isolating.io_reads executeTransition_isolates [OF codec]
      isolating_writes split: sum.split option.split)

text \<open>
  Tenant isolation of the workflow: whatever the request and the failures, a writing handler
  leaves the discrepancies, the events, the rules and the reports of every other tenant than the
  caller's alone.
\<close>

lemma workflow_isolated:
  assumes h: "h \<in> set writing_handlers" and codec: "uuid_codec E"
    and tid: "uuid_parse E (ctx_tenant r) = Some tid"
    and run: "run_state (h E r) w = (out, w')"
  shows "isolates (uuid_text E tid) (db w) (db w')"
  using h run isolating.lifted.io_run [OF handlers_isolate(1) [OF codec tid]]
    isolating.lifted.io_run [OF handlers_isolate(2) [OF codec tid]]
    isolating.lifted.io_run [OF handlers_isolate(3) [OF codec tid]]
    isolating.lifted.io_run [OF handlers_isolate(4) [OF codec tid]]
  by (auto simp: writing_handlers_def db_rel_def)

lemma workflow_isolated_witness:
  "isolates ''5'' (sample_db [sample_row StatusOpen None] [])
     (db (snd (run_state (AddNote calm (sample_request locked_body)) (sample_world (sample_db [sample_row StatusOpen None] [])))))"
proof -
  let ?w = "sample_world (sample_db [sample_row StatusOpen None] [])"
  let ?m = "AddNote calm (sample_request locked_body)"
  have "run_state ?m ?w = (fst (run_state ?m ?w), snd (run_state ?m ?w))" by simp
  from workflow_isolated [of AddNote calm "sample_request locked_body" 5, OF _ _ _ this]
  show ?thesis by (simp add: writing_handlers_def sample_request_def)
qed

text \<open>The detail view shows the discrepancy and the events of the caller's tenant only.\<close>

lemma detail_of_tenant:
  assumes "run_state (DiscrepancyHandler_GetByID E r) w = (Reply c (Detail d es), w')"
    and "uuid_parse E (ctx_tenant r) = Some tid"
  shows "d_tenant_id d = uuid_text E tid \<and> (\<forall>e\<in>set es. e_tenant_id e = uuid_text E tid)"
  using assms
  by (auto simp: DiscrepancyHandler_GetByID_def RespondError_def RespondJSON_def ListByDiscrepancy_def
      events_of_def dest!: GetByID_Inr wrapped_query_Inr split: if_splits option.splits prod.splits sum.splits)
     (auto simp: is_row_def)

end
