(* ===== verification/RulesApi.thy ===== *)
theory RulesApi
  imports RuleStore
begin

text \<open>
  \<open>internal/api/handlers/rules.go\<close>: the endpoints of the escalation rules, from the decoded request to
  the store. The table of the rules satisfies its constraints after every operation, and no operation
  reaches the rules of another tenant.
\<close>

section \<open>Requests\<close>

record createRuleRequest =
  cr_Name :: string
  cr_SeverityMatch :: string
  cr_TriggerAfterHrs :: "int option"
  cr_TriggerStatus :: string
  cr_Action :: string
  cr_ActionConfig :: jobject
  cr_Priority :: "int option"

text \<open>A \<open>*map[string]interface{}\<close>: null is the nil pointer.\<close>

fun as_map_ptr :: "json \<Rightarrow> jobject option \<Rightarrow> jobject option option" where
  "as_map_ptr (JObj kvs) acc =
     Some (Some (Some (rev kvs @ (case acc of Some (Some m) \<Rightarrow> m | _ \<Rightarrow> []))))"
| "as_map_ptr JNull acc = Some None"
| "as_map_ptr _ acc = None"

definition decode_create :: "json \<Rightarrow> createRuleRequest option" where
  "decode_create j = do {
     kvs \<leftarrow> members j;
     nm \<leftarrow> dec_field as_string ''name'' [] kvs;
     sev \<leftarrow> dec_field as_string ''severity_match'' [] kvs;
     hrs \<leftarrow> dec_field as_int_ptr ''trigger_after_hrs'' None kvs;
     st \<leftarrow> dec_field as_string ''trigger_status'' [] kvs;
     act \<leftarrow> dec_field as_string ''action'' [] kvs;
     cfg \<leftarrow> dec_field as_map ''action_config'' None kvs;
     prio \<leftarrow> dec_field as_int_ptr ''priority'' None kvs;
     Some \<lparr>cr_Name = nm, cr_SeverityMatch = sev, cr_TriggerAfterHrs = hrs, cr_TriggerStatus = st,
           cr_Action = act, cr_ActionConfig = cfg, cr_Priority = prio\<rparr>
   }"

text \<open>\<open>updateRuleRequest\<close> has the fields of \<open>store.RuleUpdate\<close>, into which the handler copies them.\<close>

definition decode_update :: "json \<Rightarrow> RuleUpdate option" where
  "decode_update j = do {
     kvs \<leftarrow> members j;
     nm \<leftarrow> dec_field as_string_ptr ''name'' None kvs;
     sev \<leftarrow> dec_field as_string_ptr ''severity_match'' None kvs;
     hrs \<leftarrow> dec_field as_int_ptr ''trigger_after_hrs'' None kvs;
     st \<leftarrow> dec_field as_string_ptr ''trigger_status'' None kvs;
     act \<leftarrow> dec_field as_string_ptr ''action'' None kvs;
     cfg \<leftarrow> dec_field as_map_ptr ''action_config'' None kvs;
     active \<leftarrow> dec_field as_bool_ptr ''is_active'' None kvs;
     prio \<leftarrow> dec_field as_int_ptr ''priority'' None kvs;
     Some \<lparr>u_name = nm, u_severity_match = sev, u_trigger_after_hrs = hrs, u_trigger_status = st,
           u_action = act, u_action_config = cfg, u_is_active = active, u_priority = prio\<rparr>
   }"

text \<open>The message, or the empty string when the request is valid.\<close>

definition validateCreateRule :: "createRuleRequest \<Rightarrow> string" where
  "validateCreateRule req =
     (if cr_Name req = [] then ''name is required''
      else if length (cr_Name req) > 255 then ''name must be 255 characters or fewer''
      else if cr_SeverityMatch req = [] then ''severity_match is required''
      else if \<not> ValidSeverityMatch (cr_SeverityMatch req) then ''invalid severity_match value''
      else if cr_TriggerAfterHrs req = None then ''trigger_after_hrs is required''
      else if cr_TriggerStatus req = [] then ''trigger_status is required''
      else if \<not> ValidTriggerStatus (cr_TriggerStatus req) then ''invalid trigger_status value''
      else if cr_Action req = [] then ''action is required''
      else if \<not> ValidAction (cr_Action req) then ''invalid action value''
      else [])"

definition validateUpdateRule :: "RuleUpdate \<Rightarrow> string" where
  "validateUpdateRule req =
     (if (case u_name req of None \<Rightarrow> False | Some s \<Rightarrow> length s > 255)
      then ''name must be 255 characters or fewer''
      else if (case u_severity_match req of None \<Rightarrow> False | Some s \<Rightarrow> \<not> ValidSeverityMatch s)
      then ''invalid severity_match value''
      else if (case u_trigger_status req of None \<Rightarrow> False | Some s \<Rightarrow> \<not> ValidTriggerStatus s)
      then ''invalid trigger_status value''
      else if (case u_action req of None \<Rightarrow> False | Some s \<Rightarrow> \<not> ValidAction s)
      then ''invalid action value''
      else [])"

section \<open>The handlers\<close>

datatype rules_reply = Rules "escalation_rule list" | Rule escalation_rule | NoContent

definition RulesHandler_List :: "env \<Rightarrow> request \<Rightarrow> (world, rules_reply response) state" where
  "RulesHandler_List E r =
     (case parseTenantID E r of
        Inl resp \<Rightarrow> ret resp
      | Inr tid \<Rightarrow> do {
          listed \<leftarrow> RuleStore_List E tid (key_matches ''true'' (Query_Get r ''active_only''));
          ret (case listed of
                 Inl e \<Rightarrow> RespondError 500 ''LIST_FAILED'' ''Failed to list rules''
               | Inr rules \<Rightarrow> RespondJSON 200 (Rules rules))
        })"

text \<open>The rule the handler passes to the store; the other fields are Go's zero values.\<close>

definition new_rule :: "string \<Rightarrow> createRuleRequest \<Rightarrow> escalation_rule" where
  "new_rule tenantID req =
     \<lparr>r_id = [], r_tenant_id = tenantID, r_name = cr_Name req, r_severity_match = cr_SeverityMatch req,
      r_trigger_after_hrs = (case cr_TriggerAfterHrs req of None \<Rightarrow> 0 | Some h \<Rightarrow> h),
      r_trigger_status = cr_TriggerStatus req, r_action = cr_Action req,
      r_action_config = (case cr_ActionConfig req of None \<Rightarrow> Some [] | Some m \<Rightarrow> Some m),
      r_is_active = True, r_priority = (case cr_Priority req of None \<Rightarrow> 0 | Some p \<Rightarrow> p),
      r_created_at = zero_time, r_updated_at = zero_time\<rparr>"

definition RulesHandler_Create :: "env \<Rightarrow> request \<Rightarrow> (world, rules_reply response) state" where
  "RulesHandler_Create E r =
     (case parseTenantID E r of
        Inl resp \<Rightarrow> ret resp
      | Inr tid \<Rightarrow>
     (case Option.bind (body r) decode_create of
        None \<Rightarrow> ret (RespondError 400 ''INVALID_BODY'' ''Invalid JSON request body'')
      | Some req \<Rightarrow>
          if validateCreateRule req \<noteq> []
          then ret (RespondError 400 ''VALIDATION_ERROR'' (validateCreateRule req))
          else do {
            created \<leftarrow> RuleStore_Create E tid (new_rule (uuid_text E tid) req);
            ret (case created of
                   Inl e \<Rightarrow> RespondError 500 ''CREATE_FAILED'' ''Failed to create rule''
                 | Inr rule \<Rightarrow> RespondJSON 201 (Rule rule))
          }))"

definition RulesHandler_Update :: "env \<Rightarrow> request \<Rightarrow> (world, rules_reply response) state" where
  "RulesHandler_Update E r =
     (case parseTenantID E r of
        Inl resp \<Rightarrow> ret resp
      | Inr tid \<Rightarrow>
     (case parseURLParamUUID E r of
        Inl resp \<Rightarrow> ret resp
      | Inr ruleID \<Rightarrow>
     (case Option.bind (body r) decode_update of
        None \<Rightarrow> ret (RespondError 400 ''INVALID_BODY'' ''Invalid JSON request body'')
      | Some updates \<Rightarrow>
          if validateUpdateRule updates \<noteq> []
          then ret (RespondError 400 ''VALIDATION_ERROR'' (validateUpdateRule updates))
          else do {
            updated \<leftarrow> RuleStore_Update E tid ruleID updates;
            ret (case updated of
                   Inl e \<Rightarrow>
                     if contains (err_text e) ''not found''
                     then RespondError 404 ''NOT_FOUND'' ''Rule not found''
                     else RespondError 500 ''UPDATE_FAILED'' ''Failed to update rule''
                 | Inr rule \<Rightarrow> RespondJSON 200 (Rule rule))
          })))"

definition RulesHandler_Delete :: "env \<Rightarrow> request \<Rightarrow> (world, rules_reply response) state" where
  "RulesHandler_Delete E r =
     (case parseTenantID E r of
        Inl resp \<Rightarrow> ret resp
      | Inr tid \<Rightarrow>
     (case parseURLParamUUID E r of
        Inl resp \<Rightarrow> ret resp
      | Inr ruleID \<Rightarrow> do {
          deleted \<leftarrow> RuleStore_Delete E tid ruleID;
          ret (case deleted of
                 Inl e \<Rightarrow>
                   if contains (err_text e) ''not found''
                   then RespondError 404 ''NOT_FOUND'' ''Rule not found''
                   else RespondError 500 ''DELETE_FAILED'' ''Failed to delete rule''
               | Inr _ \<Rightarrow> RespondJSON 204 NoContent)
        }))"

section \<open>The table of the rules\<close>

text \<open>Migration 004: checks and keys.\<close>

definition rules_ok :: "database \<Rightarrow> bool" where
  "rules_ok d \<longleftrightarrow>
     (\<forall>r\<in>set (escalation_rules d). rule_check r \<and> tenant_exists d (r_tenant_id r)) \<and>
     distinct (map r_id (escalation_rules d)) \<and>
     distinct (map (\<lambda>r. (r_tenant_id r, r_name r)) (escalation_rules d))"

text \<open>Every operation keeps the constraints, and touches the rules of one tenant only.\<close>

definition rules_step :: "string \<Rightarrow> database \<Rightarrow> database \<Rightarrow> bool" where
  "rules_step t d d' \<longleftrightarrow> (rules_ok d \<longrightarrow> rules_ok d') \<and> rules_only d d' \<and>
     (rules_ok d \<longrightarrow> isolates t d d')"

interpretation rules_step: step_preorder "rules_step t" for t
proof
  show "rules_step t s s" for s by (simp add: rules_step_def)
  show "rules_step t s v" if "rules_step t s u" "rules_step t u v" for s u v
    using that unfolding rules_step_def by (metis isolates.step_trans rules_only.step_trans)
qed

interpretation rules_step: table_relation "rules_step t" for t ..

lemma rules_step_same [simp]: "rules_step t d d"
  by (rule rules_step.step_refl)

lemma rules_ok_append:
  assumes "rules_ok d" and "rule_insertable d x"
  shows "rules_ok (d\<lparr>escalation_rules := escalation_rules d @ [x]\<rparr>)"
  using assms by (auto simp: rules_ok_def rule_insertable_def tenant_exists_def)

lemma rules_ok_filter: "rules_ok d \<Longrightarrow> rules_ok (d\<lparr>escalation_rules := filter P (escalation_rules d)\<rparr>)"
  by (auto simp: rules_ok_def tenant_exists_def distinct_map_filter)

lemma rules_ok_replace:
  assumes ok: "rules_ok d" and r: "r \<in> set (escalation_rules d)" and rep: "rule_replaceable d x"
    and same: "r_id x = r_id r" "r_tenant_id x = r_tenant_id r"
  shows "rules_ok (replace_rule (r_id r) x d)"
proof -
  let ?f = "\<lambda>y. if r_id y = r_id r then x else y"
  have "map r_id (map ?f (escalation_rules d)) = map r_id (escalation_rules d)" using same by simp
  then have "distinct (map r_id (map ?f (escalation_rules d)))" using ok by (simp only: rules_ok_def)
  moreover have "distinct (map (\<lambda>y. (r_tenant_id y, r_name y)) (map ?f (escalation_rules d)))"
  proof -
    have "inj_on (\<lambda>y. (r_tenant_id (?f y), r_name (?f y))) (set (escalation_rules d))"
    proof (rule inj_onI)
      fix y z
      assume y: "y \<in> set (escalation_rules d)" and z: "z \<in> set (escalation_rules d)"
        and eq: "(r_tenant_id (?f y), r_name (?f y)) = (r_tenant_id (?f z), r_name (?f z))"
      have "r_id y = r_id z \<or> (r_tenant_id y, r_name y) = (r_tenant_id z, r_name z)"
        using eq y z rep same by (auto simp: rule_replaceable_def split: if_splits)
      then show "y = z" using ok y z by (auto simp: rules_ok_def distinct_map dest: inj_onD)
    qed
    moreover have "distinct (escalation_rules d)" using ok by (auto simp: rules_ok_def distinct_map)
    ultimately show ?thesis by (simp add: distinct_map comp_def)
  qed
  moreover have "\<forall>y\<in>set (map ?f (escalation_rules d)). rule_check y \<and> tenant_exists d (r_tenant_id y)"
    using ok r rep same by (auto simp: rules_ok_def rule_replaceable_def)
  ultimately show ?thesis
    unfolding rules_ok_def replace_rule_def by (simp add: tenant_exists_def del: map_map set_map)
qed

lemma isolates_replace:
  assumes ok: "rules_ok d" and r: "r \<in> set (escalation_rules d)" and same: "r_tenant_id x = r_tenant_id r"
  shows "isolates (r_tenant_id r) d (replace_rule (r_id r) x d)"
proof -
  have only: "y = r" if "y \<in> set (escalation_rules d)" "r_id y = r_id r" for y
    using ok r that by (auto simp: rules_ok_def distinct_map dest: inj_onD)
  have "filter (\<lambda>y. r_tenant_id y = t) (map (\<lambda>y. if r_id y = r_id r then x else y) rs) =
      filter (\<lambda>y. r_tenant_id y = t) rs"
    if "set rs \<subseteq> set (escalation_rules d)" "t \<noteq> r_tenant_id r" for rs t
    using that only same by (induction rs) auto
  then show ?thesis by (simp add: isolates_def replace_rule_def)
qed

lemma rules_step_statements:
  "rules_step (uuid_text E tid) d (snd (insert_rule E tid x t d))"
  "rules_step (uuid_text E tid) d (snd (delete_rule E tid i t d))"
proof -
  show "rules_step (uuid_text E tid) d (snd (insert_rule E tid x t d))"
    using rules_only_statements(1) [of d E tid x t]
    by (auto simp: rules_step_def insert_rule_def Let_def isolates_def rules_ok_append)
  show "rules_step (uuid_text E tid) d (snd (delete_rule E tid i t d))"
    using rules_only_statements(3) [of d E tid i t]
    by (auto simp: rules_step_def delete_rule_def Let_def isolates_def rules_ok_filter is_rule_def
        intro!: filter_cong)
qed

lemma rules_step_update:
  assumes built: "buildRuleUpdateSets u = (cs, args, n)"
  shows "rules_step (uuid_text E tid) d
    (snd (update_rule E (cs @ [SetNow ''updated_at'']) (args @ [AUuid tid, AUuid i]) n (n + 1) t d))"
proof (cases "list_all arg_ok args")
  case True
  note refines = rule_update_refines [OF built True, of E tid i t d]
  show ?thesis
  proof (cases "filter (is_rule E tid i) (escalation_rules d)")
    case Nil
    show ?thesis unfolding refines Nil by simp
  next
    case (Cons r rs)
    then have r: "r \<in> set (escalation_rules d)" "r_tenant_id r = uuid_text E tid"
      by (auto simp: filter_eq_Cons_iff is_rule_def)
    let ?x = "apply_update u (clock E t) r"
    have same: "r_id ?x = r_id r" "r_tenant_id ?x = r_tenant_id r" by (simp_all add: apply_update_def)
    have "rules_step (uuid_text E tid) d (replace_rule (r_id r) ?x d)" if "rule_replaceable d ?x"
      using rules_ok_replace [OF _ r(1) that same] isolates_replace [OF _ r(1) same(2)] r(2)
      by (auto simp: rules_step_def rules_only_def replace_rule_def)
    then show ?thesis unfolding refines Cons by (simp add: Let_def)
  qed
next
  case False
  then show ?thesis by (auto simp: update_rule_def split: option.split sql_arg.split)
qed

lemma rules_step_ops:
  "state_io_rel (db_rel (rules_step (uuid_text E tid))) (RuleStore_Create E tid x)"
  "state_io_rel (db_rel (rules_step (uuid_text E tid))) (RuleStore_GetByID E tid i)"
  "state_io_rel (db_rel (rules_step (uuid_text E tid))) (RuleStore_List E tid active)"
  "state_io_rel (db_rel (rules_step (uuid_text E tid))) (RuleStore_Update E tid i u)"
  "state_io_rel (db_rel (rules_step (uuid_text E tid))) (RuleStore_Delete E tid i)"
  unfolding RuleStore_Create_def RuleStore_GetByID_def RuleStore_List_def RuleStore_Update_def
    RuleStore_Delete_def rows_or_not_found_def
  by (auto intro!: rules_step.io_basic rules_step.io_pg rules_step_statements rules_step_update [simplified]
      split: prod.split)

definition rules_handlers :: "(env \<Rightarrow> request \<Rightarrow> (world, rules_reply response) state) set" where
  "rules_handlers = {RulesHandler_List, RulesHandler_Create, RulesHandler_Update, RulesHandler_Delete}"

lemma rules_handlers_step:
  assumes "h \<in> rules_handlers" and "tenant_of E r tid"
  shows "state_io_rel (db_rel (rules_step (uuid_text E tid))) (h E r)"
  using assms
  by (auto simp: rules_handlers_def RulesHandler_List_def RulesHandler_Create_def RulesHandler_Update_def
      RulesHandler_Delete_def intro!: rules_step.io_basic rules_step_ops split: sum.split option.split)

text \<open>
  Every call of a rules endpoint, whatever it answers and whatever statement fails,
  keeps the checks and the keys of the rules table, changes no other table, and leaves the rules of
  every other tenant as they are.
\<close>

lemma rules_api_invariant:
  assumes "h \<in> rules_handlers" and "tenant_of E r tid" and "run_state (h E r) w = (resp, w')"
    and "rules_ok (db w)"
  shows "rules_ok (db w') \<and> (\<exists>rs. db w' = (db w)\<lparr>escalation_rules := rs\<rparr>) \<and>
    (\<forall>t. t \<noteq> uuid_text E tid \<longrightarrow>
       filter (\<lambda>x. r_tenant_id x = t) (escalation_rules (db w')) =
       filter (\<lambda>x. r_tenant_id x = t) (escalation_rules (db w)))"
proof -
  have "rules_step (uuid_text E tid) (db w) (db w')"
    using state_io_relD [OF rules_handlers_step [OF assms(1,2)] assms(3)] by (simp add: db_rel_def)
  with assms(4) show ?thesis by (auto simp: rules_step_def rules_only_def isolates_def)
qed

section \<open>Creating a rule\<close>

lemma validateCreateRule_empty:
  "validateCreateRule req = [] \<longleftrightarrow> cr_Name req \<noteq> [] \<and> length (cr_Name req) \<le> 255 \<and>
     cr_SeverityMatch req \<noteq> [] \<and> ValidSeverityMatch (cr_SeverityMatch req) \<and> cr_TriggerAfterHrs req \<noteq> None \<and>
     cr_TriggerStatus req \<noteq> [] \<and> ValidTriggerStatus (cr_TriggerStatus req) \<and>
     cr_Action req \<noteq> [] \<and> ValidAction (cr_Action req)"
  by (auto simp: validateCreateRule_def)

text \<open>The row a request asks for.\<close>

definition requested_rule :: "env \<Rightarrow> nat \<Rightarrow> uuid \<Rightarrow> createRuleRequest \<Rightarrow> escalation_rule" where
  "requested_rule E t tid req = (new_rule (uuid_text E tid) req)
     \<lparr>r_id := uuid_text E (gen_uuid E t), r_created_at := clock E t, r_updated_at := clock E t\<rparr>"

lemma insert_rule_requested:
  "insert_rule E tid (new_rule (uuid_text E tid) req) t d =
     (let row = requested_rule E t tid req in
      if rule_insertable d row then (Inr row, d\<lparr>escalation_rules := escalation_rules d @ [row]\<rparr>)
      else (rejected E t, d))"
  by (simp add: insert_rule_def requested_rule_def new_rule_def Let_def)

text \<open>
  What a created rule means: the request was valid, the rule is exactly what it asked
  for (active, priority 0 and an empty configuration unless given), and it is the one row that was
  added.
\<close>

lemma create_rule_success:
  assumes "run_state (RulesHandler_Create E r) w = (Reply code (Rule x), w')"
  shows "code = 201 \<and> (\<exists>tid req. tenant_of E r tid \<and> Option.bind (body r) decode_create = Some req \<and>
    validateCreateRule req = [] \<and> x = requested_rule E (tick w) tid req \<and> r_is_active x \<and>
    db w' = (db w)\<lparr>escalation_rules := escalation_rules (db w) @ [x]\<rparr>)"
proof (cases "parseTenantID E r :: rules_reply response + uuid")
  case (Inl resp)
  then show ?thesis
    using assms by (auto simp: RulesHandler_Create_def parseTenantID_def RespondError_def Let_def
        split: if_splits option.splits)
next
  case (Inr tid)
  with assms obtain req where req: "Option.bind (body r) decode_create = Some req" "validateCreateRule req = []"
    by (auto simp: RulesHandler_Create_def RespondError_def split: option.splits if_splits)
  with assms Inr have "code = 201" and "x = requested_rule E (tick w) tid req"
    and "db w' = (db w)\<lparr>escalation_rules := escalation_rules (db w) @ [x]\<rparr>"
    by (auto simp: RulesHandler_Create_def RuleStore_Create_def run_wrapped run_pg insert_rule_requested
        RespondError_def RespondJSON_def rejected_def Let_def split: if_splits sum.splits)
  with Inr req show ?thesis
    by (auto simp: parseTenantID_Inr requested_rule_def new_rule_def)
qed

text \<open>
  The validation of the handler is enough for the checks of the table, up to the range
  of the two numbers and NUL bytes, which it does not look at: such a request of a tenant that has no
  rule of that name creates the rule when the statement does not fail.
\<close>

lemma valid_rule_created:
  assumes "no_faults E" and "tenant_of E r tid" and "tenant_exists (db w) (uuid_text E tid)"
    and "Option.bind (body r) decode_create = Some req" and "validateCreateRule req = []"
    and "text_ok (cr_Name req)" and "jsonb_ok (cr_ActionConfig req)"
    and "pred_option int4 (cr_TriggerAfterHrs req)" and "pred_option int4 (cr_Priority req)"
    and "\<forall>x\<in>set (escalation_rules (db w)). r_id x \<noteq> uuid_text E (gen_uuid E (tick w)) \<and>
          \<not> (r_tenant_id x = uuid_text E tid \<and> r_name x = cr_Name req)"
  shows "\<exists>x w'. run_state (RulesHandler_Create E r) w = (Reply 201 (Rule x), w') \<and>
    db w' = (db w)\<lparr>escalation_rules := escalation_rules (db w) @ [x]\<rparr>"
proof -
  have "varchar 255 (cr_Name req)"
    using assms(5,6) char_count_le_length [of "cr_Name req"]
    by (simp add: varchar_def validateCreateRule_empty)
  moreover have "one_of [''low'', ''medium'', ''high'', ''critical'', ''*''] (cr_SeverityMatch req)"
    "one_of [''open'', ''acknowledged'', ''investigating''] (cr_TriggerStatus req)"
    "one_of [''notify'', ''escalate'', ''auto_close''] (cr_Action req)"
    using assms(5)
    by (auto simp: validateCreateRule_empty ValidSeverityMatch_def ValidTriggerStatus_def ValidAction_def
        validSeverityMatches_def validTriggerStatuses_def validActions_def one_of_def bool_at_def go_consts
        split: if_splits option.splits)
  ultimately have "rule_check (requested_rule E (tick w) tid req)"
    using assms(5,7-9)
    by (auto simp: rule_check_def requested_rule_def new_rule_def jsonb_ok_def int4_def validateCreateRule_empty
        split: option.split)
  then have "rule_insertable (db w) (requested_rule E (tick w) tid req)"
    using assms(3,10) by (auto simp: rule_insertable_def requested_rule_def new_rule_def)
  then show ?thesis
    using assms(1,2,4,5)
    by (simp add: RulesHandler_Create_def RuleStore_Create_def run_wrapped run_pg insert_rule_requested
        RespondJSON_def no_faults_def Let_def)
qed

text \<open>An update may blank the name, which a creation may not.\<close>

lemma update_allows_empty_name: "u_name u = Some [] \<Longrightarrow> u_severity_match u = None \<Longrightarrow> u_trigger_status u = None \<Longrightarrow>
  u_action u = None \<Longrightarrow> validateUpdateRule u = []"
  by (simp add: validateUpdateRule_def)

section \<open>On a concrete outside\<close>

definition rule_body :: json where
  "rule_body = JObj [(''name'', JStr ''R''), (''severity_match'', JStr ''*''),
     (''trigger_after_hrs'', JNum (Some 24) (Some 24)), (''trigger_status'', JStr ''open''),
     (''action'', JStr ''notify'')]"

definition rule_request :: request where
  "rule_request = (header_request [] [])\<lparr>ctx_tenant := ''5'', url_id := ''7'', body := Some rule_body\<rparr>"

definition decoded_rule :: createRuleRequest where
  "decoded_rule = \<lparr>cr_Name = ''R'', cr_SeverityMatch = ''*'', cr_TriggerAfterHrs = Some 24,
     cr_TriggerStatus = ''open'', cr_Action = ''notify'', cr_ActionConfig = None, cr_Priority = None\<rparr>"

lemma rule_request_facts:
  "tenant_of calm rule_request 5" "Option.bind (body rule_request) decode_create = Some decoded_rule"
  "validateCreateRule decoded_rule = []" "text_ok (cr_Name decoded_rule)"
  "jsonb_ok (cr_ActionConfig decoded_rule)" "pred_option int4 (cr_TriggerAfterHrs decoded_rule)"
  "pred_option int4 (cr_Priority decoded_rule)" "tenant_exists (sample_db [] []) (uuid_text calm 5)"
  "no_faults calm"
proof -
  show "tenant_of calm rule_request 5" by (simp add: tenant_of_def rule_request_def)
  show "tenant_exists (sample_db [] []) (uuid_text calm 5)"
    by (simp add: tenant_exists_def sample_db_def acme_def)
  show "no_faults calm" by (simp add: no_faults_def)
  show "pred_option int4 (cr_TriggerAfterHrs decoded_rule)" "pred_option int4 (cr_Priority decoded_rule)"
    by (simp_all add: decoded_rule_def int4_def)
qed code_simp+

lemma valid_rule_created_witness:
  "\<exists>x w'. run_state (RulesHandler_Create calm rule_request) (sample_world (sample_db [] [])) =
     (Reply 201 (Rule x), w') \<and> escalation_rules (db w') = [x]"
  using valid_rule_created [of calm rule_request 5 "sample_world (sample_db [] [])" decoded_rule] rule_request_facts
  by (auto simp: sample_db_def)

lemma rule_created:
  "\<exists>x w'. run_state (RulesHandler_Create calm rule_request) (sample_world (sample_db [] [])) =
     (Reply 201 (Rule x), w')"
proof -
  have "rule_insertable (sample_db [] []) (requested_rule calm 0 5 decoded_rule)"
    by (simp add: rule_insertable_def requested_rule_def new_rule_def decoded_rule_def tenant_exists_def
        sample_db_def acme_def rule_check_def one_of_def int4_def jsonb_ok_def) code_simp
  then show ?thesis
    using rule_request_facts
    by (simp add: RulesHandler_Create_def RuleStore_Create_def run_wrapped run_pg insert_rule_requested [of calm 5, simplified]
        RespondJSON_def Let_def)
qed

lemma create_rule_success_witness:
  "\<exists>x w'. run_state (RulesHandler_Create calm rule_request) (sample_world (sample_db [] [])) =
     (Reply 201 (Rule x), w') \<and> r_is_active x"
  using rule_created create_rule_success by blast

lemma rules_api_invariant_witness:
  "rules_ok (db (snd (run_state (RulesHandler_Delete calm rule_request)
     (sample_world ((sample_db [] [])\<lparr>escalation_rules := [sample_rule StatusOpen ActionNotify 24]\<rparr>)))))"
proof -
  let ?w = "sample_world ((sample_db [] [])\<lparr>escalation_rules := [sample_rule StatusOpen ActionNotify 24]\<rparr>)"
  obtain resp w' where run: "run_state (RulesHandler_Delete calm rule_request) ?w = (resp, w')" by fastforce
  have "rule_check (sample_rule StatusOpen ActionNotify 24)" by code_simp
  then have "rules_ok (db ?w)"
    by (simp add: rules_ok_def tenant_exists_def sample_db_def acme_def) (simp add: sample_rule_def)
  moreover have "RulesHandler_Delete \<in> rules_handlers" by (simp add: rules_handlers_def)
  ultimately show ?thesis
    using rules_api_invariant [where h = RulesHandler_Delete, OF _ rule_request_facts(1) run] run by simp
qed

end
