(* ===== verification/RateLimit.thy ===== *)
theory RateLimit
  imports Samples
begin

text \<open>
  \<open>internal/api/middleware/ratelimit.go\<close>. The mutex makes \<open>allow\<close> atomic, so a run is a sequence of
  calls; the theorems are about every such sequence with a clock that does not go back. A record is
  never removed from the table.
\<close>

section \<open>The middleware\<close>

definition minute :: int where
  "minute = 60 * 10 ^ 9"

text \<open>\<open>allow\<close>, at the time its \<open>time.Now()\<close> reads, on the table of records.\<close>

definition allow_at ::
  "int \<Rightarrow> string \<Rightarrow> gotime \<Rightarrow> (string \<Rightarrow> ipRecord option) \<Rightarrow> bool \<times> (string \<Rightarrow> ipRecord option)" where
  "allow_at requestsPerMinute ip now records =
     (case records ip of
        None \<Rightarrow> (True, records(ip \<mapsto> \<lparr>ip_count = 1, windowEnd = now + minute\<rparr>))
      | Some rec \<Rightarrow>
          if now > windowEnd rec
          then (True, records(ip \<mapsto> \<lparr>ip_count = 1, windowEnd = now + minute\<rparr>))
          else if ip_count rec \<ge> requestsPerMinute then (False, records)
          else (True, records(ip \<mapsto> rec\<lparr>ip_count := ip_count rec + 1\<rparr>)))"

definition allow :: "env \<Rightarrow> int \<Rightarrow> string \<Rightarrow> (server, bool) state" where
  "allow E requestsPerMinute ip = do {
     now \<leftarrow> on_backend (time_Now E);
     State (\<lambda>s. case allow_at requestsPerMinute ip now (limiter s) of (ok, recs) \<Rightarrow> (ok, s\<lparr>limiter := recs\<rparr>))
   }"

definition extractIP :: "request \<Rightarrow> string" where
  "extractIP r =
     (let xff = Header_Get r ''X-Forwarded-For'';
          ip = TrimSpace (before_comma xff);
          remote = (case split_host (RemoteAddr r) of None \<Rightarrow> RemoteAddr r | Some host \<Rightarrow> host)
      in if xff \<noteq> [] \<and> ip \<noteq> [] then ip else remote)"

definition NewRateLimiter :: "env \<Rightarrow> int \<Rightarrow> 'b handler \<Rightarrow> 'b handler" where
  "NewRateLimiter E requestsPerMinute next_handler r = do {
     ok \<leftarrow> allow E requestsPerMinute (extractIP r);
     if \<not> ok then ret (RespondError 429 ''RATE_LIMIT_EXCEEDED'' ''Too many requests'')
     else next_handler r
   }"

section \<open>How many requests a client gets through\<close>

text \<open>
  Serving a sequence of calls, the oldest first: the table afterwards, and the times at which the
  calls of one address were admitted.
\<close>

primrec serve :: "int \<Rightarrow> (gotime \<times> string) list \<Rightarrow> (string \<Rightarrow> ipRecord option) \<Rightarrow> (string \<Rightarrow> ipRecord option)" where
  "serve rpm [] records = records"
| "serve rpm (c # cs) records = serve rpm cs (snd (allow_at rpm (snd c) (fst c) records))"

primrec admitted :: "int \<Rightarrow> string \<Rightarrow> (gotime \<times> string) list \<Rightarrow> (string \<Rightarrow> ipRecord option) \<Rightarrow> gotime list" where
  "admitted rpm ip [] records = []"
| "admitted rpm ip (c # cs) records =
     (let out = allow_at rpm (snd c) (fst c) records in
      (if snd c = ip \<and> fst out then [fst c] else []) @ admitted rpm ip cs (snd out))"

lemma serve_snoc: "serve rpm (cs @ [c]) recs = snd (allow_at rpm (snd c) (fst c) (serve rpm cs recs))"
  by (induction cs arbitrary: recs) simp_all

lemma admitted_snoc:
  "admitted rpm ip (cs @ [c]) recs =
     admitted rpm ip cs recs @
     (if snd c = ip \<and> fst (allow_at rpm (snd c) (fst c) (serve rpm cs recs)) then [fst c] else [])"
  by (induction cs arbitrary: recs) (simp_all add: Let_def)

lemma allow_at_other: "ip' \<noteq> ip \<Longrightarrow> snd (allow_at rpm ip' now recs) ip = recs ip"
  by (simp add: allow_at_def split: option.split)

text \<open>How many of the times lie in the 60 seconds from \<open>a\<close>.\<close>

definition in_minute :: "gotime \<Rightarrow> gotime list \<Rightarrow> nat" where
  "in_minute a ts = length (filter (\<lambda>t. a \<le> t \<and> t \<le> a + minute) ts)"

lemma in_minute_append: "in_minute a (xs @ ys) = in_minute a xs + in_minute a ys"
  by (simp add: in_minute_def)

lemma in_minute_le: "in_minute a ts \<le> length ts"
  by (simp add: in_minute_def)

text \<open>
  The invariant: the admitted times split into those of earlier windows and those of the current
  one, which began at \<open>windowEnd - minute\<close> with the first of them.
\<close>

definition window_parts :: "nat \<Rightarrow> gotime \<Rightarrow> int \<Rightarrow> gotime list \<Rightarrow> gotime list \<Rightarrow> bool" where
  "window_parts m s c old cur \<longleftrightarrow>
     Suc (length cur) \<le> m \<and> c = 1 + int (length cur) \<and>
     (\<forall>t\<in>set cur. s \<le> t \<and> t \<le> s + minute) \<and> (\<forall>t\<in>set old. t < s) \<and>
     length (filter (\<lambda>t. s \<le> t + minute) old) \<le> m - 1 \<and> (\<forall>a. in_minute a old \<le> 2 * m - 1)"

definition window_inv :: "nat \<Rightarrow> gotime list \<Rightarrow> ipRecord option \<Rightarrow> bool" where
  "window_inv m ts rec =
     (case rec of None \<Rightarrow> ts = []
      | Some r \<Rightarrow> \<exists>s old cur. windowEnd r = s + minute \<and> ts = old @ s # cur \<and>
                    window_parts m s (ip_count r) old cur)"

lemma window_parts_bound:
  assumes "window_parts m s c old cur"
  shows "in_minute a (old @ s # cur) \<le> 2 * m - 1"
proof (cases "a + minute < s")
  case True
  have "\<not> x \<le> a + minute" if "s \<le> x" for x using True that by linarith
  with True assms have "filter (\<lambda>t. a \<le> t \<and> t \<le> a + minute) (s # cur) = []"
    by (auto simp: filter_empty_conv window_parts_def)
  then have "in_minute a (s # cur) = 0" unfolding in_minute_def by (metis list.size(3))
  with assms show ?thesis by (simp add: in_minute_append window_parts_def)
next
  case False
  have "in_minute a old \<le> length (filter (\<lambda>t. s \<le> t + minute) old)"
    unfolding in_minute_def using False by (induction old) auto
  then have "in_minute a old \<le> m - 1" using assms by (simp add: window_parts_def)
  moreover have "in_minute a (s # cur) \<le> m"
    using assms in_minute_le [of a "s # cur"] by (simp add: window_parts_def)
  moreover have "0 < m" using assms by (simp add: window_parts_def)
  ultimately show ?thesis by (simp add: in_minute_append)
qed

lemma window_inv_bound: "window_inv m ts rec \<Longrightarrow> in_minute a ts \<le> 2 * m - 1"
  by (cases rec) (auto simp: window_inv_def in_minute_def [of a "[]"] dest: window_parts_bound)

lemma window_parts_fresh:
  assumes "window_parts m s c old cur" and "s + minute < now"
  shows "window_parts m now 1 (old @ s # cur) []"
proof -
  have "filter (\<lambda>t. now \<le> t + minute) old = []"
    using assms by (force simp: filter_empty_conv window_parts_def)
  then have "length (filter (\<lambda>t. now \<le> t + minute) (old @ s # cur)) \<le> length cur"
    using assms(2) length_filter_le by simp
  moreover have "\<forall>t\<in>set (old @ s # cur). t < now"
    using assms by (force simp: window_parts_def minute_def)
  moreover have "in_minute a (old @ s # cur) \<le> 2 * m - 1" for a
    by (rule window_parts_bound [OF assms(1)])
  moreover have "Suc (length cur) \<le> m" using assms(1) by (simp add: window_parts_def)
  ultimately show ?thesis unfolding window_parts_def by simp
qed

lemma window_inv_fresh:
  assumes "window_inv m ts rec" and "0 < m" and "\<And>r. rec = Some r \<Longrightarrow> now > windowEnd r"
  shows "window_inv m (ts @ [now]) (Some \<lparr>ip_count = 1, windowEnd = now + minute\<rparr>)"
proof (cases rec)
  case None
  with assms show ?thesis
    by (auto simp: window_inv_def window_parts_def in_minute_def intro!: exI [of _ "[]"])
next
  case (Some r)
  with assms obtain s old cur where "ts = old @ s # cur" and "window_parts m s (ip_count r) old cur"
    and "s + minute < now" by (auto simp: window_inv_def)
  then show ?thesis
    unfolding window_inv_def using window_parts_fresh [of m s "ip_count r" old cur now]
    by (simp, intro exI [of _ now] exI [of _ "old @ s # cur"] exI [of _ "[]"], simp)
qed

lemma window_inv_more:
  assumes "window_inv m ts (Some r)" and "now \<le> windowEnd r" and "ip_count r < int m"
    and "\<forall>t\<in>set ts. t \<le> now"
  shows "window_inv m (ts @ [now]) (Some (r\<lparr>ip_count := ip_count r + 1\<rparr>))"
proof -
  from assms(1) obtain s old cur where w: "windowEnd r = s + minute" and ts: "ts = old @ s # cur"
    and parts: "window_parts m s (ip_count r) old cur" by (auto simp: window_inv_def)
  have "s \<le> now" using assms(4) ts by simp
  then have "window_parts m s (ip_count r + 1) old (cur @ [now])"
    using parts assms(2,3) w by (auto simp: window_parts_def)
  with w ts show ?thesis by (auto simp: window_inv_def)
qed

lemma window_inv_step:
  assumes inv: "window_inv m ts (recs ip)" and m: "m = nat (max 1 rpm)"
    and mono: "\<forall>t\<in>set ts. t \<le> now"
  shows "window_inv m (ts @ (if fst (allow_at rpm ip now recs) then [now] else []))
           (snd (allow_at rpm ip now recs) ip)"
proof (cases "recs ip")
  case None
  then show ?thesis using window_inv_fresh [OF inv, of now] m by (simp add: allow_at_def)
next
  case (Some r)
  show ?thesis
  proof (cases "now > windowEnd r")
    case True
    then show ?thesis using window_inv_fresh [OF inv, of now] m Some by (simp add: allow_at_def)
  next
    case False
    show ?thesis
    proof (cases "ip_count r \<ge> rpm")
      case True
      then show ?thesis using inv False Some by (simp add: allow_at_def)
    next
      case less: False
      then have "ip_count r < int m" using m by linarith
      then show ?thesis
        using window_inv_more [of m ts r now] inv mono False less Some by (simp add: allow_at_def)
    qed
  qed
qed

lemma admitted_times: "t \<in> set (admitted rpm ip cs recs) \<Longrightarrow> t \<in> fst ` set cs"
  by (induction cs arbitrary: recs) (auto simp: Let_def split: if_splits)

lemma window_inv_serve:
  assumes "sorted (map fst cs)" and "m = nat (max 1 rpm)"
  shows "window_inv m (admitted rpm ip cs Map.empty) (serve rpm cs Map.empty ip)"
  using assms(1)
proof (induction cs rule: rev_induct)
  case Nil
  then show ?case by (simp add: window_inv_def)
next
  case (snoc c cs)
  then have IH: "window_inv m (admitted rpm ip cs Map.empty) (serve rpm cs Map.empty ip)"
    by (simp add: sorted_append)
  have mono: "\<forall>t\<in>set (admitted rpm ip cs Map.empty). t \<le> fst c"
    using snoc.prems by (auto simp: sorted_append dest!: admitted_times)
  show ?case
  proof (cases "snd c = ip")
    case True
    with window_inv_step [where recs = "serve rpm cs Map.empty" and ip = ip, OF IH assms(2) mono] show ?thesis
      by (simp add: admitted_snoc serve_snoc)
  next
    case False
    with IH show ?thesis by (simp add: admitted_snoc serve_snoc allow_at_other)
  qed
qed

text \<open>
  C25 (bounds). Whatever the other clients do, at most \<open>2 * max 1 rpm - 1\<close> requests of one address are
  admitted within any 60 seconds.
\<close>

theorem rate_limit_bound:
  assumes "sorted (map fst cs)"
  shows "in_minute a (admitted rpm ip cs Map.empty) \<le> 2 * nat (max 1 rpm) - 1"
  using window_inv_bound [OF window_inv_serve [OF assms refl]] by simp

theorem rate_limit_bound_witness:
  "in_minute 5 (admitted 2 ''a'' [(1, ''a''), (5, ''a''), (6, ''b''), (7, ''a'')] Map.empty)
     \<le> 2 * nat (max 1 2) - 1"
  by (rule rate_limit_bound) simp

text \<open>
  The bound is reached: with a limit of 2 a client gets 3 requests through within 60
  seconds (the comment says at most 2 within a rolling 60-second window).
\<close>

lemma rate_limit_not_rolling:
  "in_minute (55 * 10 ^ 9)
     (admitted 2 ''a'' [(0, ''a''), (59 * 10 ^ 9, ''a''), (61 * 10 ^ 9, ''a''), (62 * 10 ^ 9, ''a'')] Map.empty) = 3"
  by (simp add: allow_at_def minute_def in_minute_def Let_def)

section \<open>Who the client is\<close>

text \<open>A rejected request does not reach the handler: only the clock is read.\<close>

lemma rejected_untouched:
  assumes "fst (run_state (allow E rpm (extractIP r)) s) = False"
  shows "run_state (NewRateLimiter E rpm h r) s =
           (RespondError 429 ''RATE_LIMIT_EXCEEDED'' ''Too many requests'',
            s\<lparr>backend := (backend s)\<lparr>tick := Suc (tick (backend s))\<rparr>\<rparr>)"
  using assms
  by (auto simp: NewRateLimiter_def allow_def allow_at_def split: option.splits if_splits prod.splits)

text \<open>
  The address is what the client writes into \<open>X-Forwarded-For\<close>, so a client that sends
  another value each time is never limited, whatever the limit.
\<close>

lemma spoofed_address_unlimited:
  assumes "limiter s (TrimSpace (before_comma xff)) = None"
    and "Header_Get r ''X-Forwarded-For'' = xff" and "TrimSpace (before_comma xff) \<noteq> []"
  shows "fst (run_state (NewRateLimiter E rpm h r) s) =
     fst (run_state (h r) (snd (run_state (allow E rpm (TrimSpace (before_comma xff))) s)))
     \<and> fst (run_state (allow E rpm (TrimSpace (before_comma xff))) s)"
proof -
  have "xff \<noteq> []"
    using assms(3) length_TrimSpace [of "before_comma xff"] by (auto simp: before_comma_def)
  then have ip: "extractIP r = TrimSpace (before_comma xff)"
    using assms by (simp add: extractIP_def Let_def)
  show ?thesis
    using assms(1) by (simp add: NewRateLimiter_def allow_def allow_at_def ip)
qed

lemma trim_sample: "TrimSpace (before_comma ''1.2.3.4, 10.0.0.1'') = ''1.2.3.4''"
  by code_simp

lemma spoofed_address_unlimited_witness:
  "fst (run_state (allow calm 0 ''1.2.3.4'') (sample_server (sample_db [] [])))"
proof -
  let ?xff = "''1.2.3.4, 10.0.0.1''"
  have "limiter (sample_server (sample_db [] [])) (TrimSpace (before_comma ?xff)) = None"
    by (simp add: sample_server_def)
  moreover have "Header_Get (header_request ''X-Forwarded-For'' ?xff) ''X-Forwarded-For'' = ?xff"
    by (simp add: Header_Get_def header_request_def first_value_def)
  moreover have "TrimSpace (before_comma ?xff) \<noteq> []" by (simp add: trim_sample)
  ultimately show ?thesis
    using spoofed_address_unlimited
      [where E = calm and rpm = 0 and h = "\<lambda>r. ret (Reply 200 ())" and xff = ?xff]
    by (metis trim_sample)
qed

end
