(* ===== verification/Config.thy ===== *)
theory Config
  imports GoText
begin

text \<open>
  \<open>internal/config/config.go\<close>: the configuration as a function of the environment, \<open>getenv\<close> being
  \<open>os.Getenv\<close> (the empty string when the variable is not set).
\<close>

record Config =
  DatabaseURL :: string
  NATSURL :: string
  NATSToken :: string
  NATSSubject :: string
  NATSConsumerName :: string
  Port :: string
  LogLevel :: string
  NotificationHubURL :: string
  NotificationHubAPIKey :: string
  NotificationHubEnabled :: bool
  RAGPlatformURL :: string
  RAGPlatformAPIKey :: string
  RAGFeedEnabled :: bool
  EscalationIntervalMinutes :: int
  MaxNotificationRetries :: int
  SelfRegistrationEnabled :: bool
  ReportStoragePath :: string
  ReportMaxEvents :: int

definition getEnv :: "(string \<Rightarrow> string) \<Rightarrow> string \<Rightarrow> string \<Rightarrow> string" where
  "getEnv getenv key fallback = (if getenv key \<noteq> [] then getenv key else fallback)"

definition getEnvInt :: "(string \<Rightarrow> string) \<Rightarrow> string \<Rightarrow> int \<Rightarrow> int" where
  "getEnvInt getenv key fallback =
     (if getenv key = [] then fallback
      else case Atoi (getenv key) of None \<Rightarrow> fallback | Some n \<Rightarrow> n)"

definition getEnvBool :: "(string \<Rightarrow> string) \<Rightarrow> string \<Rightarrow> bool \<Rightarrow> bool" where
  "getEnvBool getenv key fallback =
     (if getenv key = [] then fallback
      else case ParseBool (getenv key) of None \<Rightarrow> False | Some b \<Rightarrow> b)"

definition Load :: "(string \<Rightarrow> string) \<Rightarrow> Config" where
  "Load getenv =
     \<lparr>DatabaseURL = getEnv getenv ''DATABASE_URL'' [],
      NATSURL = getEnv getenv ''NATS_URL'' [],
      NATSToken = getEnv getenv ''NATS_TOKEN'' [],
      NATSSubject = getEnv getenv ''NATS_SUBJECT'' ''recon.discrepancy.detected'',
      NATSConsumerName = getEnv getenv ''NATS_CONSUMER_NAME'' ''compliance-ledger'',
      Port = getEnv getenv ''PORT'' ''8080'',
      LogLevel = getEnv getenv ''LOG_LEVEL'' ''info'',
      NotificationHubURL = getEnv getenv ''NOTIFICATION_HUB_URL'' [],
      NotificationHubAPIKey = getEnv getenv ''NOTIFICATION_HUB_API_KEY'' [],
      NotificationHubEnabled = getEnvBool getenv ''NOTIFICATION_HUB_ENABLED'' False,
      RAGPlatformURL = getEnv getenv ''RAG_PLATFORM_URL'' [],
      RAGPlatformAPIKey = getEnv getenv ''RAG_PLATFORM_API_KEY'' [],
      RAGFeedEnabled = getEnvBool getenv ''RAG_FEED_ENABLED'' False,
      EscalationIntervalMinutes = getEnvInt getenv ''ESCALATION_INTERVAL_MINUTES'' 15,
      MaxNotificationRetries = getEnvInt getenv ''MAX_NOTIFICATION_RETRIES'' 3,
      SelfRegistrationEnabled = getEnvBool getenv ''SELF_REGISTRATION_ENABLED'' True,
      ReportStoragePath = getEnv getenv ''REPORT_STORAGE_PATH'' ''data/reports'',
      ReportMaxEvents = getEnvInt getenv ''REPORT_MAX_EVENTS'' 10000\<rparr>"

section \<open>What the accessors give\<close>

text \<open>A number written in decimal is read back; anything that is not a number gives the fallback.\<close>

lemma digit_not_sign: "is_digit c \<Longrightarrow> c \<noteq> CHR ''-'' \<and> c \<noteq> CHR ''+''"
  by (auto simp: is_digit_def)

lemma Atoi_show_int:
  assumes "- (2 ^ 63) \<le> i" and "i < 2 ^ 63"
  shows "Atoi (show_int i) = Some i"
proof -
  have digits: "list_all is_digit (show_nat n)" "show_nat n \<noteq> []" for n
    using show_nat_digits [of n] by auto
  have first: "show_nat n ! 0 \<noteq> CHR ''-''" "show_nat n ! 0 \<noteq> CHR ''+''" for n
    using digits [of n] digit_not_sign [of "show_nat n ! 0"] by (cases "show_nat n"; simp)+
  show ?thesis
    using assms digits first
    by (auto simp: Atoi_def show_int_def Let_def digits_val_show_nat)
qed

lemma getEnvInt_show:
  assumes "getenv key = show_int i" and "- (2 ^ 63) \<le> i" and "i < 2 ^ 63"
  shows "getEnvInt getenv key fallback = i"
proof -
  have "show_int i \<noteq> []" using show_nat_digits by (simp add: show_int_def)
  then show ?thesis using assms by (simp add: getEnvInt_def Atoi_show_int)
qed

text \<open>
  A boolean variable that is set is true exactly on six texts; a text that is no boolean gives
  \<open>false\<close>, not the fallback.
\<close>

lemma getEnvBool_values:
  "getEnvBool getenv key fallback \<longleftrightarrow>
     getenv key \<in> {''1'', ''t'', ''T'', ''TRUE'', ''true'', ''True''} \<or> getenv key = [] \<and> fallback"
  by (auto simp: getEnvBool_def ParseBool_def)

lemma registration_typo_disables:
  "\<not> SelfRegistrationEnabled (Load (\<lambda>k. if k = ''SELF_REGISTRATION_ENABLED'' then ''yes'' else []))"
  by (simp add: Load_def getEnvBool_def ParseBool_def)

text \<open>In an empty environment: registration is open, the hub and the RAG feed are off.\<close>

lemma Load_empty:
  "SelfRegistrationEnabled (Load (\<lambda>k. []))" "\<not> NotificationHubEnabled (Load (\<lambda>k. []))"
  "\<not> RAGFeedEnabled (Load (\<lambda>k. []))" "MaxNotificationRetries (Load (\<lambda>k. [])) = 3"
  "EscalationIntervalMinutes (Load (\<lambda>k. [])) = 15" "ReportMaxEvents (Load (\<lambda>k. [])) = 10000"
  by (simp_all add: Load_def getEnvBool_def getEnvInt_def)

end
