(* ===== verification/TenantAuth.thy ===== *)
theory TenantAuth
  imports Config Samples
begin

text \<open>
  Who a request belongs to: \<open>internal/api/middleware/tenant.go\<close>, which resolves the API key to a tenant
  with an in-memory cache, and \<open>internal/api/handlers/tenant.go\<close>, which registers tenants. The hash and
  the source of random bytes are parameters (\<open>crypto\<close>). The \<open>RWMutex\<close> makes each access of the cache
  atomic; one run of the middleware is one sequence of accesses.
\<close>

text \<open>\<open>sha256.Sum256\<close> as a byte string, and the 32 bytes of \<open>rand.Read\<close> at a tick (or an error).\<close>

record crypto =
  sha256 :: "string \<Rightarrow> string"
  rand_read :: "nat \<Rightarrow> string result"

section \<open>middleware/tenant.go\<close>

definition apiKeyHeader :: string where
  "apiKeyHeader = ''X-API-Key''"

definition cacheTTL :: int where
  "cacheTTL = 5 * 60 * 10 ^ 9"

definition hashKey :: "crypto \<Rightarrow> string \<Rightarrow> string" where
  "hashKey C raw = hex_encode (sha256 C raw)"

definition tenants_by_key :: "string \<Rightarrow> database \<Rightarrow> tenant list" where
  "tenants_by_key hashedKey d = filter (\<lambda>x. t_api_key x = hashedKey) (tenants d)"

definition lookupTenant :: "env \<Rightarrow> string \<Rightarrow> (world, (string \<times> bool) result) state" where
  "lookupTenant E hashedKey =
     pg E (query (\<lambda>t d. first_row (map (\<lambda>x. (t_id x, t_is_active x)) (tenants_by_key hashedKey d))))"

definition getFromCache :: "env \<Rightarrow> string \<Rightarrow> (server, tenantCacheEntry option) state" where
  "getFromCache E hashedKey = do {
     s \<leftarrow> State_Monad.get;
     case tenant_cache s hashedKey of
       None \<Rightarrow> ret None
     | Some entry \<Rightarrow> do {
         now \<leftarrow> on_backend (time_Now E);
         ret (if now - cachedAt entry > cacheTTL then None else Some entry)
       }
   }"

definition setCache :: "env \<Rightarrow> string \<Rightarrow> string \<Rightarrow> bool \<Rightarrow> (server, unit) state" where
  "setCache E hashedKey tenantID isActive = do {
     now \<leftarrow> on_backend (time_Now E);
     modify (\<lambda>s. s\<lparr>tenant_cache := (tenant_cache s)(hashedKey \<mapsto>
       \<lparr>c_tenantID = tenantID, c_isActive = isActive, cachedAt = now\<rparr>)\<rparr>)
   }"

text \<open>The middleware up to \<open>next.ServeHTTP\<close>: the response it wrote, or the tenant it resolved.\<close>

definition authenticate :: "env \<Rightarrow> crypto \<Rightarrow> request \<Rightarrow> (server, 'b response + string) state" where
  "authenticate E C r =
     (let rawKey = Header_Get r apiKeyHeader in
      if rawKey = []
      then ret (Inl (RespondError 401 ''MISSING_API_KEY'' ''X-API-Key header is required''))
      else (let hashedKey = hashKey C rawKey in do {
        cached \<leftarrow> getFromCache E hashedKey;
        case cached of
          Some entry \<Rightarrow>
            (if \<not> c_isActive entry
             then ret (Inl (RespondError 403 ''TENANT_INACTIVE'' ''Tenant is inactive''))
             else ret (Inr (c_tenantID entry)))
        | None \<Rightarrow> do {
            found \<leftarrow> on_backend (lookupTenant E hashedKey);
            case found of
              Inl e \<Rightarrow> ret (Inl (RespondError 401 ''INVALID_API_KEY'' ''Invalid API key''))
            | Inr (tenantID, isActive) \<Rightarrow> do {
                setCache E hashedKey tenantID isActive;
                if \<not> isActive
                then ret (Inl (RespondError 403 ''TENANT_INACTIVE'' ''Tenant is inactive''))
                else ret (Inr tenantID)
              }
          }
      }))"

definition TenantMiddleware_Handler :: "env \<Rightarrow> crypto \<Rightarrow> 'b handler \<Rightarrow> 'b handler" where
  "TenantMiddleware_Handler E C next_handler r = do {
     who \<leftarrow> authenticate E C r;
     case who of Inl resp \<Rightarrow> ret resp
     | Inr tenantID \<Rightarrow> next_handler (SetTenantID r tenantID)
   }"

section \<open>handlers/tenant.go\<close>

record tenantResponse =
  tr_id :: string
  tr_name :: string
  tr_is_active :: bool
  tr_settings :: jobject
  tr_created_at :: gotime
  tr_updated_at :: gotime

datatype tenant_reply = Me tenantResponse | Registered string string string

definition queryTenant :: "env \<Rightarrow> string \<Rightarrow> (world, tenantResponse result) state" where
  "queryTenant E tenantID = do {
     r \<leftarrow> pg E (query (\<lambda>t d. case pg_uuid E tenantID of
            None \<Rightarrow> rejected E t
          | Some u \<Rightarrow> first_row (filter (\<lambda>x. t_id x = uuid_text E u) (tenants d))));
     ret (case r of
            Inl ErrNoRows \<Rightarrow> Inl (ErrText (''tenant not found: '' @ tenantID))
          | Inl e \<Rightarrow> Inl (wrap ''querying tenant'' e)
          | Inr x \<Rightarrow> Inr \<lparr>tr_id = t_id x, tr_name = t_name x, tr_is_active = t_is_active x,
                         tr_settings = (case t_settings x of None \<Rightarrow> Some [] | Some m \<Rightarrow> Some m),
                         tr_created_at = t_created_at x, tr_updated_at = t_updated_at x\<rparr>)
   }"

definition GetMe :: "env \<Rightarrow> request \<Rightarrow> (world, tenant_reply response) state" where
  "GetMe E r =
     (let tenantID = GetTenantID r in
      if tenantID = [] then ret (RespondError 401 ''MISSING_TENANT'' ''Tenant ID not found in context'')
      else do {
        found \<leftarrow> queryTenant E tenantID;
        ret (case found of
               Inl e \<Rightarrow> RespondError 404 ''TENANT_NOT_FOUND'' ''Tenant not found''
             | Inr x \<Rightarrow> RespondJSON 200 (Me x))
      })"

text \<open>The plain key and its hash.\<close>

definition generateAPIKey :: "crypto \<Rightarrow> (world, (string \<times> string) result) state" where
  "generateAPIKey C = do {
     t \<leftarrow> next_tick;
     ret (case rand_read C t of
            Inl e \<Rightarrow> Inl (wrap ''generating random bytes'' e)
          | Inr b \<Rightarrow> (let plainKey = ''fcl_live_'' @ hex_encode b
                      in Inr (plainKey, hex_encode (sha256 C plainKey))))
   }"

text \<open>Migration 001.\<close>

definition tenant_insertable :: "database \<Rightarrow> tenant \<Rightarrow> bool" where
  "tenant_insertable d x \<longleftrightarrow>
     varchar 255 (t_name x) \<and> varchar 255 (t_api_key x) \<and> jsonb_ok (t_settings x) \<and>
     (\<forall>y\<in>set (tenants d). t_id y \<noteq> t_id x \<and> t_api_key y \<noteq> t_api_key x)"

definition insert_tenant :: "env \<Rightarrow> string \<Rightarrow> string \<Rightarrow> string stmt" where
  "insert_tenant E name hashedKey = (\<lambda>t d.
     let now = clock E t;
         row = \<lparr>t_id = uuid_text E (gen_uuid E t), t_name = name, t_api_key = hashedKey,
                t_is_active = True, t_settings = Some [], t_created_at = now, t_updated_at = now\<rparr>
     in if tenant_insertable d row then (Inr (t_id row), d\<lparr>tenants := tenants d @ [row]\<rparr>)
        else (rejected E t, d))"

definition insertTenant :: "env \<Rightarrow> string \<Rightarrow> string \<Rightarrow> (world, string result) state" where
  "insertTenant E name hashedKey = wrapped ''inserting tenant'' (pg E (insert_tenant E name hashedKey))"

definition registerRequest :: "json \<Rightarrow> string option" where
  "registerRequest j = Option.bind (members j) (dec_field as_string ''name'' [])"

definition Register :: "env \<Rightarrow> crypto \<Rightarrow> Config \<Rightarrow> request \<Rightarrow> (world, tenant_reply response) state" where
  "Register E C cfg r =
     (if \<not> SelfRegistrationEnabled cfg
      then ret (RespondError 403 ''REGISTRATION_DISABLED'' ''Tenant self-registration is disabled'')
      else case Option.bind (body r) registerRequest of
        None \<Rightarrow> ret (RespondError 400 ''INVALID_BODY'' ''Invalid JSON body'')
      | Some raw \<Rightarrow> (let name = TrimSpace raw in
          if name = [] then ret (RespondError 400 ''MISSING_NAME'' ''Tenant name is required'')
          else if length name > 255
          then ret (RespondError 400 ''NAME_TOO_LONG'' ''Tenant name must be 255 characters or fewer'')
          else do {
            key \<leftarrow> generateAPIKey C;
            case key of
              Inl e \<Rightarrow> ret (RespondError 500 ''KEY_GENERATION_FAILED'' ''Failed to generate API key'')
            | Inr (plainKey, hashedKey) \<Rightarrow> do {
                inserted \<leftarrow> insertTenant E name hashedKey;
                ret (case inserted of
                       Inl e \<Rightarrow> RespondError 500 ''REGISTRATION_FAILED'' ''Failed to register tenant''
                     | Inr tenantID \<Rightarrow> RespondJSON 201 (Registered tenantID name plainKey))
              }
          }))"

section \<open>Whom the middleware lets through\<close>

text \<open>What a run of the middleware amounts to, by cases.\<close>

definition fresh_entry :: "env \<Rightarrow> string \<Rightarrow> server \<Rightarrow> tenantCacheEntry option" where
  "fresh_entry E h s =
     (case tenant_cache s h of None \<Rightarrow> None
      | Some e \<Rightarrow> if clock E (tick (backend s)) - cachedAt e > cacheTTL then None else Some e)"

lemma getFromCache_result: "fst (run_state (getFromCache E h) s) = fresh_entry E h s"
  by (simp add: getFromCache_def fresh_entry_def split: option.split)

lemma getFromCache_state:
  "run_state (getFromCache E h) s = (e, s') \<Longrightarrow>
     tenant_cache s' = tenant_cache s \<and> limiter s' = limiter s \<and> db (backend s') = db (backend s) \<and>
     tick (backend s) \<le> tick (backend s')"
  by (auto simp: getFromCache_def split: option.splits)

lemma authenticate_cases:
  assumes run: "run_state (authenticate E C r) s = (out, s')"
    and h: "h = hashKey C (Header_Get r apiKeyHeader)"
  obtains (no_key) resp where "Header_Get r apiKeyHeader = []" "out = Inl resp" "s' = s"
  | (cached) e where "Header_Get r apiKeyHeader \<noteq> []" "fresh_entry E h s = Some e"
      "out = (if c_isActive e then Inr (c_tenantID e)
              else Inl (RespondError 403 ''TENANT_INACTIVE'' ''Tenant is inactive''))"
      "tenant_cache s' = tenant_cache s" "db (backend s') = db (backend s)"
  | (unknown) "Header_Get r apiKeyHeader \<noteq> []" "fresh_entry E h s = None"
      "out = Inl (RespondError 401 ''INVALID_API_KEY'' ''Invalid API key'')"
      "tenant_cache s' = tenant_cache s" "db (backend s') = db (backend s)"
  | (looked_up) x t where "Header_Get r apiKeyHeader \<noteq> []" "fresh_entry E h s = None"
      "x \<in> set (tenants_by_key h (db (backend s)))"
      "out = (if t_is_active x then Inr (t_id x)
              else Inl (RespondError 403 ''TENANT_INACTIVE'' ''Tenant is inactive''))"
      "tenant_cache s' = (tenant_cache s)(h \<mapsto>
         \<lparr>c_tenantID = t_id x, c_isActive = t_is_active x, cachedAt = clock E t\<rparr>)"
      "db (backend s') = db (backend s)" "tick (backend s) \<le> t" "t < tick (backend s')"
proof (cases "Header_Get r apiKeyHeader = []")
  case True
  with run show ?thesis by (auto simp: authenticate_def intro: no_key)
next
  case key: False
  obtain c s1 where g: "run_state (getFromCache E h) s = (c, s1)" by fastforce
  then have c: "c = fresh_entry E h s" using getFromCache_result [of E h s] by simp
  note s1 = getFromCache_state [OF g]
  show ?thesis
  proof (cases c)
    case (Some e)
    with run g key h have "out = (if c_isActive e then Inr (c_tenantID e)
       else Inl (RespondError 403 ''TENANT_INACTIVE'' ''Tenant is inactive''))" and "s' = s1"
      by (auto simp: authenticate_def Let_def split: if_splits)
    then show ?thesis by (intro cached [of e]) (use key c Some s1 in simp_all)
  next
    case None
    obtain found w where l: "run_state (lookupTenant E h) (backend s1) = (found, w)" by fastforce
    then have w: "db w = db (backend s1)" "tick w = Suc (tick (backend s1))"
      by (auto simp: lookupTenant_def run_pg query_def split: if_splits)
    show ?thesis
    proof (cases found)
      case (Inl e)
      with run g key h None l have "out = Inl (RespondError 401 ''INVALID_API_KEY'' ''Invalid API key'')"
        and "s' = s1\<lparr>backend := w\<rparr>"
        by (auto simp: authenticate_def Let_def)
      with unknown key c None s1 w show ?thesis by auto
    next
      case (Inr y)
      have "y \<in> set (map (\<lambda>x. (t_id x, t_is_active x)) (tenants_by_key h (db (backend s1))))"
        using l Inr by (auto simp: lookupTenant_def run_pg query_def split: if_splits dest: first_row_Inr)
      then obtain x where x: "x \<in> set (tenants_by_key h (db (backend s)))" "y = (t_id x, t_is_active x)"
        using s1 by auto
      with run g key h None l Inr have "out = (if t_is_active x then Inr (t_id x)
          else Inl (RespondError 403 ''TENANT_INACTIVE'' ''Tenant is inactive''))"
        and "tenant_cache s' = (tenant_cache s1)(h \<mapsto>
          \<lparr>c_tenantID = t_id x, c_isActive = t_is_active x, cachedAt = clock E (tick w)\<rparr>)"
        and "db (backend s') = db w" and "tick (backend s') = Suc (tick w)"
        by (auto simp: authenticate_def setCache_def Let_def split: if_splits)
      then show ?thesis
        using looked_up [where x = x and t = "tick w"] key c None s1 w x by auto
    qed
  qed
qed


section \<open>A revoked key stops working\<close>

text \<open>No active tenant has the hash \<open>h\<close>.\<close>

definition revoked :: "string \<Rightarrow> server \<Rightarrow> bool" where
  "revoked h s \<longleftrightarrow> (\<forall>x\<in>set (tenants (db (backend s))). t_api_key x = h \<longrightarrow> \<not> t_is_active x)"

text \<open>
  Runs after the revocation: requests through the middleware, and any other change of the world and
  of the rate limiter that does not bring the key back.
\<close>

inductive revoked_run :: "env \<Rightarrow> crypto \<Rightarrow> string \<Rightarrow> server \<Rightarrow> server \<Rightarrow> bool" for E C h where
  start: "revoked h s \<Longrightarrow> revoked_run E C h s s"
| request: "revoked_run E C h s s' \<Longrightarrow>
     revoked_run E C h s (snd (run_state (authenticate E C r :: (server, unit response + string) state) s'))"
| other: "revoked_run E C h s s' \<Longrightarrow> revoked h s'' \<Longrightarrow> tenant_cache s'' = tenant_cache s' \<Longrightarrow>
     revoked_run E C h s s''"

definition stale_before :: "string \<Rightarrow> gotime \<Rightarrow> server \<Rightarrow> bool" where
  "stale_before h t0 s \<longleftrightarrow> (\<forall>e. tenant_cache s h = Some e \<longrightarrow> c_isActive e \<longrightarrow> cachedAt e \<le> t0)"

lemma revoked_request:
  assumes "run_state (authenticate E C r) s = (out, s')" and "revoked h s" and "stale_before h t0 s"
  shows "revoked h s' \<and> stale_before h t0 s'"
proof (rule authenticate_cases [OF assms(1) refl], goal_cases)
  case (4 x t)
  then show ?case using assms(2,3) by (auto simp: revoked_def stale_before_def tenants_by_key_def)
qed (use assms(2,3) in \<open>simp_all add: revoked_def stale_before_def\<close>)

lemma revoked_run_inv:
  "revoked_run E C h s s' \<Longrightarrow> stale_before h t0 s \<Longrightarrow> revoked h s' \<and> stale_before h t0 s'"
proof (induction rule: revoked_run.induct)
  case (request s s' r)
  then show ?case by (metis prod.collapse revoked_request)
next
  case (other s s' s'')
  then have "stale_before h t0 s'" by blast
  then show ?case unfolding stale_before_def other.hyps(3) using other.hyps(2) by blast
qed simp

text \<open>
  C22 (safety). Once the tenant of a key is inactive or gone, and later than five minutes after it, no
  request with that key gets through, whatever requests were served in between (nothing in the
  program removes a cache entry; it is the age that ends it).
\<close>

theorem revocation_within_ttl:
  assumes "revoked_run E C (hashKey C (Header_Get r apiKeyHeader)) s s'"
    and "stale_before (hashKey C (Header_Get r apiKeyHeader)) t0 s"
    and "clock E (tick (backend s')) > t0 + cacheTTL"
  shows "\<exists>resp. fst (run_state (authenticate E C r) s') = Inl (resp :: 'b response)"
proof -
  obtain out s'' where run: "run_state (authenticate E C r) s' = (out :: 'b response + string, s'')"
    by fastforce
  have "revoked (hashKey C (Header_Get r apiKeyHeader)) s'"
    and "stale_before (hashKey C (Header_Get r apiKeyHeader)) t0 s'"
    using revoked_run_inv [OF assms(1,2)] by auto
  with run assms(3) show ?thesis
    by (cases rule: authenticate_cases [OF _ refl])
       (auto simp: revoked_def stale_before_def tenants_by_key_def fresh_entry_def split: option.splits if_splits)
qed

section \<open>Registration\<close>

lemma Register_created:
  assumes "run_state (Register E C cfg r) w = (Reply 201 (Registered i name key), w')"
  obtains raw b row where "SelfRegistrationEnabled cfg" and "Option.bind (body r) registerRequest = Some raw"
    and "name = TrimSpace raw" and "name \<noteq> []" and "length name \<le> 255"
    and "rand_read C (tick w) = Inr b" and "key = ''fcl_live_'' @ hex_encode b"
    and "db w' = (db w)\<lparr>tenants := tenants (db w) @ [row]\<rparr>" and "tenant_insertable (db w) row"
    and "t_id row = i" and "t_name row = name" and "t_api_key row = hashKey C key" and "t_is_active row"
  using assms
  by (auto simp: Register_def generateAPIKey_def insertTenant_def insert_tenant_def wrapped_def run_pg
      RespondError_def RespondJSON_def hashKey_def rejected_def Let_def wrap_def
      split: if_splits option.splits sum.splits prod.splits)

text \<open>
  C24 (roundtrip). The key a registration hands out is the key of exactly that new, active tenant: the
  next request that presents it is let through as the new tenant, when no statement fails and no
  entry for the hash of this random key is in the cache. The table holds the hash, not the key.
\<close>

theorem register_then_authenticate:
  assumes "run_state (Register E C cfg r) (backend s) = (Reply 201 (Registered i name key), w)"
    and "no_faults E" and "Header_Get q apiKeyHeader = key" and "tenant_cache s (hashKey C key) = None"
  shows "fst (run_state (authenticate E C q) (s\<lparr>backend := w\<rparr>)) = Inr i \<and>
    name \<noteq> [] \<and> length name \<le> 255 \<and>
    (\<exists>row. tenants (db w) = tenants (db (backend s)) @ [row] \<and> t_id row = i \<and> t_name row = name \<and>
       t_is_active row \<and> t_api_key row = hashKey C key)"
proof -
  from assms(1) obtain row where name: "name \<noteq> []" "length name \<le> 255" and "key \<noteq> []"
    and d: "db w = (db (backend s))\<lparr>tenants := tenants (db (backend s)) @ [row]\<rparr>"
    and ins: "tenant_insertable (db (backend s)) row"
    and row: "t_id row = i" "t_name row = name" "t_api_key row = hashKey C key" "t_is_active row"
    by (cases rule: Register_created) auto
  have "filter (\<lambda>x. t_api_key x = hashKey C key) (tenants (db (backend s))) = []"
    using ins row by (auto simp: tenant_insertable_def filter_empty_conv)
  then have "tenants_by_key (hashKey C key) (db w) = [row]"
    using row by (simp add: tenants_by_key_def d)
  then have "fst (run_state (authenticate E C q) (s\<lparr>backend := w\<rparr>)) = Inr i"
    using assms(2-4) row \<open>key \<noteq> []\<close>
    by (simp add: authenticate_def getFromCache_def setCache_def lookupTenant_def run_pg query_def
        no_faults_def first_row_def Let_def)
  with name row d show ?thesis by auto
qed

section \<open>On a concrete outside\<close>

definition toy_crypto :: crypto where
  "toy_crypto = \<lparr>sha256 = (\<lambda>s. take 32 s), rand_read = (\<lambda>t. Inr (replicate 32 CHR ''r''))\<rparr>"

definition keyed_db :: "bool \<Rightarrow> database" where
  "keyed_db active =
     (sample_db [] [])\<lparr>tenants := [acme\<lparr>t_api_key := hashKey toy_crypto ''k'', t_is_active := active\<rparr>]\<rparr>"



theorem revocation_within_ttl_witness:
  "\<exists>resp. fst (run_state (authenticate calm toy_crypto (header_request apiKeyHeader ''k''))
     (sample_server (keyed_db False)\<lparr>tenant_cache := [hashKey toy_crypto ''k'' \<mapsto>
        \<lparr>c_tenantID = ''5'', c_isActive = True, cachedAt = 0\<rparr>]\<rparr>)) = Inl (resp :: unit response)"
proof -
  let ?s = "sample_server (keyed_db False)\<lparr>tenant_cache := [hashKey toy_crypto ''k'' \<mapsto>
    \<lparr>c_tenantID = ''5'', c_isActive = True, cachedAt = 0\<rparr>]\<rparr>"
  have "revoked (hashKey toy_crypto ''k'') ?s" by (simp add: revoked_def keyed_db_def)
  then have "revoked_run calm toy_crypto (hashKey toy_crypto ''k'') ?s ?s" by (rule start)
  then show ?thesis
    using revocation_within_ttl
      [where E = calm and C = toy_crypto and r = "header_request apiKeyHeader ''k''" and s = ?s and s' = ?s and ?t0.0 = 0]
    by (simp add: stale_before_def calm_def cacheTTL_def)
qed

definition register_request :: request where
  "register_request = (header_request apiKeyHeader [])\<lparr>body := Some (JObj [(''name'', JStr ''B'')])\<rparr>"

definition registered_key :: string where
  "registered_key = ''fcl_live_'' @ hex_encode (replicate 32 CHR ''r'')"

lemma trim_B: "TrimSpace ''B'' = ''B''"
  by code_simp

lemma register_body: "Option.bind (body register_request) registerRequest = Some ''B''"
  by (simp add: register_request_def registerRequest_def key_matches_def)

lemma registered_hash: "varchar 255 (hashKey toy_crypto registered_key)" "text_of_uuid 1001 \<noteq> text_of_uuid 5"
    "hashKey toy_crypto registered_key \<noteq> ''key''" "varchar 255 ''B''"
  by code_simp+

lemma run_register:
  "\<exists>w. run_state (Register calm toy_crypto (Load (\<lambda>k. [])) register_request) (sample_world (sample_db [] [])) =
     (Reply 201 (Registered (text_of_uuid 1001) ''B'' registered_key), w)"
  using register_body registered_hash
  by (simp add: Register_def Load_empty trim_B generateAPIKey_def insertTenant_def insert_tenant_def wrapped_def
      run_pg RespondJSON_def tenant_insertable_def toy_crypto_def sample_db_def acme_def Let_def
      hashKey_def registered_key_def jsonb_ok_def)

theorem register_then_authenticate_witness:
  "\<exists>w. fst (run_state (authenticate calm toy_crypto (header_request apiKeyHeader registered_key))
          ((sample_server (sample_db [] []))\<lparr>backend := w\<rparr>)) = (Inr (text_of_uuid 1001) :: unit response + string)"
proof -
  obtain w where "run_state (Register calm toy_crypto (Load (\<lambda>k. [])) register_request)
      (backend (sample_server (sample_db [] []))) =
     (Reply 201 (Registered (text_of_uuid 1001) ''B'' registered_key), w)"
    using run_register by auto
  from register_then_authenticate [OF this, of "header_request apiKeyHeader registered_key"]
  show ?thesis by (auto simp: no_faults_def)
qed

end
