(* ===== verification/Stats.thy ===== *)
theory Stats
  imports Samples LedgerSpec
begin

text \<open>
  The statistics endpoint (\<open>handlers/stats.go\<close>), the collector of the Prometheus gauges
  (\<open>engine/metrics.go\<close>) and the health endpoint (\<open>handlers/health.go\<close>). A Go map from labels to counts is
  a partial function; the gauges are a map from status and severity to a count.
\<close>

section \<open>stats.go\<close>

text \<open>\<open>SELECT key, COUNT(*) ... GROUP BY key\<close>: one row per key that occurs.\<close>

definition group_count :: "('a \<Rightarrow> 'k) \<Rightarrow> 'a list \<Rightarrow> ('k \<times> nat) list" where
  "group_count key xs = map (\<lambda>k. (k, length (filter (\<lambda>x. key x = k) xs))) (remdups (map key xs))"

record statsResponse =
  s_ByStatus :: "(string \<times> nat) list"
  s_BySeverity :: "(string \<times> nat) list"
  s_Total :: nat

text \<open>
  The column is \<open>status\<close> or \<open>severity\<close>. The loop over the rows writes \<open>counts[key] = count\<close>; a map is the
  list of its entries here, the last one written for a key first.
\<close>

definition put :: "'k \<Rightarrow> 'v \<Rightarrow> ('k \<times> 'v) list \<Rightarrow> ('k \<times> 'v) list" where
  "put k v m = (k, v) # filter (\<lambda>e. fst e \<noteq> k) m"

definition countByColumn :: "env \<Rightarrow> uuid \<Rightarrow> string \<Rightarrow> (world, (string \<times> nat) list result) state" where
  "countByColumn E tid column =
     (if column \<noteq> ''status'' \<and> column \<noteq> ''severity'' then ret (Inl (ErrText (''invalid column: '' @ column)))
      else do {
        got \<leftarrow> wrapped (''stats.countByColumn('' @ column @ '')'')
          (pg E (query (\<lambda>t d. Inr (rows E t (group_count (if column = ''status'' then d_status else d_severity)
             (filter (\<lambda>r. d_tenant_id r = uuid_text E tid) (discrepancies d)))))));
        ret (case got of Inl e \<Rightarrow> Inl e | Inr rs \<Rightarrow> Inr (foldl (\<lambda>m (k, n). put k n m) [] rs))
      })"

definition GetStats :: "env \<Rightarrow> request \<Rightarrow> (world, statsResponse response) state" where
  "GetStats E r =
     (case parseTenantID E r of
        Inl resp \<Rightarrow> ret resp
      | Inr tid \<Rightarrow> do {
          byStatus \<leftarrow> countByColumn E tid ''status'';
          case byStatus of
            Inl e \<Rightarrow> ret (RespondError 500 ''STATS_FAILED'' ''Failed to compute statistics'')
          | Inr st \<Rightarrow> do {
              bySeverity \<leftarrow> countByColumn E tid ''severity'';
              ret (case bySeverity of
                     Inl e \<Rightarrow> RespondError 500 ''STATS_FAILED'' ''Failed to compute statistics''
                   | Inr sev \<Rightarrow> RespondJSON 200
                       \<lparr>s_ByStatus = st, s_BySeverity = sev, s_Total = foldl (\<lambda>n e. n + snd e) 0 st\<rparr>)
            }
        })"

section \<open>metrics.go\<close>

record metrics_world =
  mw :: world
  gauges :: "string \<times> string \<Rightarrow> nat option"

definition on_metrics :: "(world, 'a) state \<Rightarrow> (metrics_world, 'a) state" where
  "on_metrics m = State (\<lambda>s. case run_state m (mw s) of (x, w) \<Rightarrow> (x, s\<lparr>mw := w\<rparr>))"

lemma run_on_metrics [simp]:
  "run_state (on_metrics m) s = (fst (run_state m (mw s)), s\<lparr>mw := snd (run_state m (mw s))\<rparr>)"
  by (simp add: on_metrics_def split_beta)

primrec set_gauges :: "((string \<times> string) \<times> nat) list \<Rightarrow> (metrics_world, unit) state" where
  "set_gauges [] = ret ()"
| "set_gauges (r # rs) = do { modify (\<lambda>s. s\<lparr>gauges := (gauges s)(fst r \<mapsto> snd r)\<rparr>); set_gauges rs }"

definition Snapshot :: "env \<Rightarrow> (metrics_world, unit result) state" where
  "Snapshot E = do {
     modify (\<lambda>s. s\<lparr>gauges := Map.empty\<rparr>);
     got \<leftarrow> on_metrics (wrapped ''metrics.Snapshot: query'' (pg E (query (\<lambda>t d. Inr (rows E t
       (group_count (\<lambda>r. (d_status r, d_severity r)) (discrepancies d)))))));
     case got of
       Inl e \<Rightarrow> ret (Inl e)
     | Inr rs \<Rightarrow> do { set_gauges rs; ret (Inr ()) }
   }"

section \<open>health.go\<close>

text \<open>
  The outside of the health checks: \<open>pool.Ping\<close>, \<open>url.Parse\<close> with the host of the URL, and
  \<open>net.DialTimeout\<close>; \<open>join_port\<close> is \<open>net.JoinHostPort\<close>.
\<close>

record network =
  Ping :: "nat \<Rightarrow> bool"
  url_host :: "string \<Rightarrow> string option"
  join_port :: "string \<Rightarrow> string \<Rightarrow> string"
  Dial :: "nat \<Rightarrow> string \<Rightarrow> bool"

record health =
  hl_pg :: string
  hl_nats :: string

definition checkPostgres :: "network \<Rightarrow> bool \<Rightarrow> (world, string) state" where
  "checkPostgres N has_pool =
     (if \<not> has_pool then ret ''disconnected''
      else do { t \<leftarrow> next_tick; ret (if Ping N t then ''connected'' else ''disconnected'') })"

definition checkNATS :: "network \<Rightarrow> string \<Rightarrow> (world, string) state" where
  "checkNATS N natsURL =
     (if natsURL = [] then ret ''disconnected''
      else case url_host N natsURL of
        None \<Rightarrow> ret ''disconnected''
      | Some host \<Rightarrow>
          if host = [] then ret ''disconnected''
          else (let addr = (case split_host host of None \<Rightarrow> join_port N host ''4222'' | Some h \<Rightarrow> host) in do {
            t \<leftarrow> next_tick;
            ret (if Dial N t addr then ''connected'' else ''disconnected'')
          }))"

definition HealthHandler_Handle :: "network \<Rightarrow> bool \<Rightarrow> string \<Rightarrow> (world, health response) state" where
  "HealthHandler_Handle N has_pool natsURL = do {
     pgStatus \<leftarrow> checkPostgres N has_pool;
     natsStatus \<leftarrow> checkNATS N natsURL;
     ret (RespondJSON 200 \<lparr>hl_pg = pgStatus, hl_nats = natsStatus\<rparr>)
   }"

section \<open>The counts are right\<close>

lemma group_count_keys: "distinct (map fst (group_count key xs))"
  by (simp add: group_count_def comp_def)

lemma group_count_map_of: "map_of (group_count key xs) = count_of key xs"
proof
  fix k
  have "k \<in> set (map key xs) \<longleftrightarrow> filter (\<lambda>x. key x = k) xs \<noteq> []" by (auto simp: filter_empty_conv)
  then show "map_of (group_count key xs) k = count_of key xs k"
    by (simp add: group_count_def map_of_map_restrict restrict_map_def count_of_def)
qed

lemma sum_of_counts:
  "finite A \<Longrightarrow> key ` set xs \<subseteq> A \<Longrightarrow> (\<Sum>k\<in>A. length (filter (\<lambda>x. key x = k) xs)) = length xs"
proof (induction xs)
  case (Cons x xs)
  have "(\<Sum>k\<in>A. length (filter (\<lambda>y. key y = k) (x # xs))) =
      (\<Sum>k\<in>A. (if key x = k then 1 else 0) + length (filter (\<lambda>y. key y = k) xs))"
    by (rule sum.cong) auto
  also have "\<dots> = 1 + length xs" using Cons by (simp add: sum.distrib)
  finally show ?case by simp
qed simp

lemma group_count_sum: "sum_list (map snd (group_count key xs)) = length xs"
  using sum_of_counts [of "set (map key xs)" key xs]
  by (simp add: group_count_def comp_def sum_list_distinct_conv_sum_set)

text \<open>Reading the rows into a map keeps them all, because the keys of the rows are distinct.\<close>

lemma put_rows:
  assumes "distinct (map fst (rs @ m))"
  shows "foldl (\<lambda>m (k, n). put k n m) m rs = rev rs @ m"
  using assms
proof (induction rs arbitrary: m)
  case (Cons e rs)
  obtain k n where e: "e = (k, n)" by fastforce
  have "filter (\<lambda>e. fst e \<noteq> k) m = m" using Cons.prems e by (intro filter_True) force
  with Cons e show ?case by (auto simp: put_def)
qed simp

lemma same_map:
  assumes "mset xs = mset ys" and "distinct (map fst ys)"
  shows "map_of xs = map_of ys"
proof -
  have "distinct (map fst xs)" using assms by (metis mset_eq_imp_distinct_iff mset_map)
  with assms show ?thesis by (metis map_of_inject_set mset_eq_setD)
qed

lemma counted_rows:
  assumes "m = foldl (\<lambda>m (k, n). put k n m) [] (rows E t (group_count key xs))"
  shows "map_of m = count_of key xs \<and> foldl (\<lambda>n e. n + snd e) 0 m = length xs"
proof -
  let ?g = "group_count key xs"
  have "distinct (map fst (rows E t ?g))" using group_count_keys by (simp add: rows_def)
  then have m: "m = rev (rows E t ?g)" using put_rows [of "rows E t ?g" "[]"] assms by simp
  then have "mset m = mset ?g" by simp
  moreover have "foldl (\<lambda>n e. n + snd e) 0 m = sum_list (map snd m)" for m :: "('a \<times> nat) list"
    by (induction m rule: rev_induct) simp_all
  moreover have "sum_list (map snd m) = sum_list (map snd ?g)"
    by (metis calculation(1) mset_map sum_mset_sum_list)
  ultimately show ?thesis
    using same_map [OF \<open>mset m = mset ?g\<close> group_count_keys] by (simp add: group_count_map_of group_count_sum)
qed

lemma countByColumn_ok:
  assumes "run_state (countByColumn E tid column) w = (Inr m, w')"
  shows "db w' = db w \<and> map_of m = count_of (if column = ''status'' then d_status else d_severity)
      (filter (\<lambda>r. d_tenant_id r = uuid_text E tid) (discrepancies (db w))) \<and>
    foldl (\<lambda>n e. n + snd e) 0 m = length (filter (\<lambda>r. d_tenant_id r = uuid_text E tid) (discrepancies (db w)))"
  using assms counted_rows [OF refl, of E "tick w"]
  by (auto simp: countByColumn_def wrapped_def run_pg query_def split: sum.splits if_splits)

text \<open>
  The statistics a tenant gets are those of the table: for every status and severity
  the number of the tenant's discrepancies, absent where there is none, and the total is their number,
  which both breakdowns add up to.
\<close>

lemma stats_counts:
  assumes "tenant_of E r tid" and "run_state (GetStats E r) w = (Reply code resp, w')"
    and "ds = filter (\<lambda>r. d_tenant_id r = uuid_text E tid) (discrepancies (db w))"
  shows "code = 200 \<and> map_of (s_ByStatus resp) = count_of d_status ds \<and>
    map_of (s_BySeverity resp) = count_of d_severity ds \<and> s_Total resp = length ds \<and>
    foldl (\<lambda>n e. n + snd e) 0 (s_BySeverity resp) = s_Total resp"
proof -
  obtain st w1 sev w2 where st: "run_state (countByColumn E tid ''status'') w = (Inr st, w1)"
    and sev: "run_state (countByColumn E tid ''severity'') w1 = (Inr sev, w2)"
    and resp: "code = 200" "resp = \<lparr>s_ByStatus = st, s_BySeverity = sev, s_Total = foldl (\<lambda>n e. n + snd e) 0 st\<rparr>"
    using assms(1,2)
    by (auto simp: GetStats_def RespondError_def RespondJSON_def split: sum.splits prod.splits)
  show ?thesis using countByColumn_ok [OF st] countByColumn_ok [OF sev] resp assms(3) by simp
qed

section \<open>The gauges\<close>

lemma set_gauges_result:
  assumes "distinct (map fst rs)"
  shows "run_state (set_gauges rs) s = ((), s\<lparr>gauges := gauges s ++ map_of rs\<rparr>)"
  using assms
proof (induction rs arbitrary: s)
  case (Cons r rs)
  then have "fst r \<notin> dom (map_of rs)" by (simp add: dom_map_of_conv_image_fst)
  then have m: "(gauges t)(fst r \<mapsto> snd r) ++ map_of rs = gauges t ++ map_of (r # rs)" for t
    by (cases r) (auto simp: map_add_def fun_eq_iff split: option.split)
  have "run_state (set_gauges rs) t = ((), t\<lparr>gauges := gauges t ++ map_of rs\<rparr>)" for t
    by (rule Cons.IH) (use Cons.prems in simp)
  then show ?case using m [of s] by (simp del: map_of.simps fun_upd_apply map_add_upd)
qed simp

text \<open>
  A snapshot that succeeds leaves exactly the counts of the table in the gauges, over
  all tenants, and one that fails leaves none: the gauges are reset before the query.
\<close>

lemma snapshot_gauges:
  assumes "run_state (Snapshot E) s = (out, s')"
  shows "gauges s' = (case out of
      Inl e \<Rightarrow> Map.empty
    | Inr _ \<Rightarrow> count_of (\<lambda>r. (d_status r, d_severity r)) (discrepancies (db (mw s))))"
proof -
  let ?g = "group_count (\<lambda>r. (d_status r, d_severity r)) (discrepancies (db (mw s)))"
  have d: "distinct (map fst (rows E t ?g))" for t using group_count_keys by (simp add: rows_def)
  have m: "map_of (rows E t ?g) = map_of ?g" for t by (rule same_map) (simp_all add: group_count_keys)
  show ?thesis
    using assms set_gauges_result [OF d] m
    by (auto simp: Snapshot_def wrapped_def run_pg query_def group_count_map_of split: if_splits)
qed

section \<open>On a concrete table\<close>

lemma stats_counts_witness:
  "\<exists>resp w'. run_state (GetStats calm (sample_get ''5'')) (sample_world (sample_db [sample_row StatusOpen None] [])) =
     (Reply 200 resp, w') \<and> s_Total resp = 1"
proof -
  let ?w = "sample_world (sample_db [sample_row StatusOpen None] [])"
  have t: "tenant_of calm (sample_get ''5'') 5" by (simp add: tenant_of_def sample_get_def)
  have "\<exists>resp w'. run_state (GetStats calm (sample_get ''5'')) ?w = (Reply 200 resp, w')"
    using t by (simp add: GetStats_def countByColumn_def wrapped_def run_pg query_def RespondJSON_def)
  then obtain resp w' where run: "run_state (GetStats calm (sample_get ''5'')) ?w = (Reply 200 resp, w')" by blast
  have "filter (\<lambda>r. d_tenant_id r = uuid_text calm 5) (discrepancies (db ?w)) = [sample_row StatusOpen None]"
    by (simp add: sample_db_def sample_row_def)
  with stats_counts [OF t run refl] run show ?thesis by auto
qed

lemma snapshot_gauges_witness:
  "gauges (snd (run_state (Snapshot (failing [0]))
     \<lparr>mw = sample_world (sample_db [sample_row StatusOpen None] []), gauges = [(''open'', ''high'') \<mapsto> 7]\<rparr>)) = Map.empty"
  (is "gauges (snd ?r) = _")
proof -
  have "fst ?r = Inl (wrap ''metrics.Snapshot: query'' (ErrText (pg_msg (failing [0]) 0)))"
    by (simp add: Snapshot_def wrapped_def run_pg)
  moreover have "run_state (Snapshot (failing [0])) \<lparr>mw = sample_world (sample_db [sample_row StatusOpen None] []),
      gauges = [(''open'', ''high'') \<mapsto> 7]\<rparr> = (fst ?r, snd ?r)" by simp
  ultimately show ?thesis using snapshot_gauges by fastforce
qed

end
