(* ===== verification/ReportStore.thy ===== *)
theory ReportStore
  imports LedgerSpec
begin

text \<open>
  \<open>internal/store/report_store.go\<close> on the table of migrations 005 and 007: the statements and the
  methods, and what the life of a report looks like in the table.
\<close>

section \<open>The table\<close>

definition report_check :: "report \<Rightarrow> bool" where
  "report_check r \<longleftrightarrow>
     one_of [''daily_summary'', ''monthly_audit'', ''discrepancy_detail'', ''custom''] (p_report_type r) \<and>
     varchar 500 (p_title r) \<and> jsonb_ok (p_parameters r) \<and>
     one_of [''pending'', ''generating'', ''completed'', ''failed'', ''cleaned''] (p_status r) \<and>
     pred_option (varchar 1000) (p_file_path r) \<and>
     pred_option (\<lambda>n. - (2 ^ 63) \<le> n \<and> n < 2 ^ 63) (p_file_size_bytes r) \<and>
     pred_option (varchar 255) (p_generated_by r)"

definition report_insertable :: "database \<Rightarrow> report \<Rightarrow> bool" where
  "report_insertable d r \<longleftrightarrow>
     report_check r \<and> tenant_exists d (p_tenant_id r) \<and> (\<forall>r'\<in>set (reports d). p_id r' \<noteq> p_id r)"

section \<open>Create, GetByID, List\<close>

definition insert_report :: "env \<Rightarrow> uuid \<Rightarrow> report \<Rightarrow> report stmt" where
  "insert_report E tid x = (\<lambda>t d.
     let now = clock E t;
         row = \<lparr>p_id = uuid_text E (gen_uuid E t), p_tenant_id = uuid_text E tid,
                p_report_type = p_report_type x, p_title = p_title x, p_parameters = p_parameters x,
                p_status = p_status x, p_file_path = None, p_file_size_bytes = None,
                p_generated_by = p_generated_by x, p_created_at = now, p_updated_at = now\<rparr>
     in if report_insertable d row then (Inr row, d\<lparr>reports := reports d @ [row]\<rparr>)
        else (rejected E t, d))"

definition ReportStore_Create :: "env \<Rightarrow> uuid \<Rightarrow> report \<Rightarrow> (world, report result) state" where
  "ReportStore_Create E tid x = pg E (insert_report E tid x)"

definition is_report :: "env \<Rightarrow> uuid \<Rightarrow> uuid \<Rightarrow> report \<Rightarrow> bool" where
  "is_report E tid i r \<longleftrightarrow> p_tenant_id r = uuid_text E tid \<and> p_id r = uuid_text E i"

definition ReportStore_GetByID :: "env \<Rightarrow> uuid \<Rightarrow> uuid \<Rightarrow> (world, report result) state" where
  "ReportStore_GetByID E tid i =
     wrapped ''report_store.GetByID''
       (pg E (query (\<lambda>t d. first_row (filter (is_report E tid i) (reports d)))))"

definition ReportStore_List :: "env \<Rightarrow> uuid \<Rightarrow> (world, report list result) state" where
  "ReportStore_List E tid =
     wrapped ''report_store.List'' (pg E (query (\<lambda>t d. Inr (sort_key (\<lambda>r. - p_created_at r)
       (rows E t (filter (\<lambda>r. p_tenant_id r = uuid_text E tid) (reports d)))))))"

section \<open>Updates\<close>

definition update_reports ::
  "env \<Rightarrow> (report \<Rightarrow> bool) \<Rightarrow> (gotime \<Rightarrow> report \<Rightarrow> report) \<Rightarrow> nat stmt" where
  "update_reports E hit f = (\<lambda>t d.
     let now = clock E t; old = filter hit (reports d) in
     if (\<forall>r\<in>set old. report_check (f now r))
     then (Inr (length old), d\<lparr>reports := map (\<lambda>r. if hit r then f now r else r) (reports d)\<rparr>)
     else (rejected E t, d))"

definition coalesce :: "'a option \<Rightarrow> 'a option \<Rightarrow> 'a option" where
  "coalesce x y = (case x of None \<Rightarrow> y | Some v \<Rightarrow> Some v)"

definition set_report_status ::
  "string \<Rightarrow> string option \<Rightarrow> int option \<Rightarrow> gotime \<Rightarrow> report \<Rightarrow> report" where
  "set_report_status status filePath fileSize now r =
     r\<lparr>p_status := status, p_file_path := coalesce filePath (p_file_path r),
       p_file_size_bytes := coalesce fileSize (p_file_size_bytes r), p_updated_at := now\<rparr>"

definition ReportStore_UpdateStatus ::
  "env \<Rightarrow> uuid \<Rightarrow> uuid \<Rightarrow> string \<Rightarrow> string option \<Rightarrow> int option \<Rightarrow> (world, unit result) state" where
  "ReportStore_UpdateStatus E tid i status filePath fileSize =
     rows_or_not_found ''report_store.UpdateStatus''
       (pg E (update_reports E (is_report E tid i) (set_report_status status filePath fileSize)))"

definition ListOlderThan :: "env \<Rightarrow> gotime \<Rightarrow> string \<Rightarrow> (world, report list result) state" where
  "ListOlderThan E olderThan status =
     wrapped ''report_store.ListOlderThan'' (pg E (query (\<lambda>t d. Inr (sort_key p_created_at
       (rows E t (filter (\<lambda>r. p_created_at r < olderThan \<and> p_status r = status) (reports d)))))))"

definition cleaned :: "gotime \<Rightarrow> report \<Rightarrow> report" where
  "cleaned now r =
     r\<lparr>p_status := ''cleaned'', p_file_path := None, p_file_size_bytes := None, p_updated_at := now\<rparr>"

definition MarkCleaned :: "env \<Rightarrow> uuid \<Rightarrow> (world, unit result) state" where
  "MarkCleaned E i =
     rows_or_not_found ''report_store.MarkCleaned''
       (pg E (update_reports E (\<lambda>r. p_id r = uuid_text E i) cleaned))"

section \<open>What the operations do\<close>

text \<open>The constraints of the table.\<close>

definition reports_ok :: "database \<Rightarrow> bool" where
  "reports_ok d \<longleftrightarrow> distinct (map p_id (reports d)) \<and>
     (\<forall>r\<in>set (reports d). report_check r \<and> tenant_exists d (p_tenant_id r))"

text \<open>Only the reports change, the constraints stay, and only the rows of one tenant are touched.\<close>

definition reports_step :: "string \<Rightarrow> database \<Rightarrow> database \<Rightarrow> bool" where
  "reports_step t d d' \<longleftrightarrow> (\<exists>ps. d' = d\<lparr>reports := ps\<rparr>) \<and> (reports_ok d \<longrightarrow> reports_ok d') \<and>
     (\<forall>t'. t' \<noteq> t \<longrightarrow> filter (\<lambda>r. p_tenant_id r = t') (reports d') = filter (\<lambda>r. p_tenant_id r = t') (reports d))"

interpretation reports_step: step_preorder "reports_step t" for t
proof
  show "reports_step t s s" for s
    unfolding reports_step_def by (auto intro: exI [of _ "reports s"])
  show "reports_step t s v" if "reports_step t s u" "reports_step t u v" for s u v
    using that by (auto simp: reports_step_def)
qed

interpretation reporting: table_relation "reports_step t" for t ..

lemma reports_step_same [simp]: "reports_step t d d"
  by (rule reports_step.step_refl)

lemma reports_ok_update:
  assumes "reports_ok d" and "\<And>r. r \<in> set (reports d) \<Longrightarrow> hit r \<Longrightarrow> report_check (f r)"
    and "\<And>r. p_id (f r) = p_id r \<and> p_tenant_id (f r) = p_tenant_id r"
  shows "reports_ok (d\<lparr>reports := map (\<lambda>r. if hit r then f r else r) (reports d)\<rparr>)"
proof -
  have "map p_id (map (\<lambda>r. if hit r then f r else r) (reports d)) = map p_id (reports d)"
    using assms(3) by simp
  with assms show ?thesis
    unfolding reports_ok_def by (auto simp: tenant_exists_def simp del: map_map)
qed

lemma reports_step_append:
  "report_insertable d row \<Longrightarrow> p_tenant_id row = t \<Longrightarrow> reports_step t d (d\<lparr>reports := reports d @ [row]\<rparr>)"
  by (auto simp: reports_step_def reports_ok_def report_insertable_def tenant_exists_def)

lemma reports_unchanged [simp]: "\<exists>ps. d = d\<lparr>reports := ps\<rparr>"
  by (rule exI [of _ "reports d"]) simp

lemma reports_step_statements:
  "reports_step (uuid_text E tid) d (snd (insert_report E tid x t d))"
  "reports_step (uuid_text E tid) d
     (snd (update_reports E (is_report E tid i) (set_report_status st path sz) t d))"
proof -
  show "reports_step (uuid_text E tid) d (snd (insert_report E tid x t d))"
    by (simp add: insert_report_def Let_def reports_step_append)
  have "reports_ok d \<Longrightarrow> (\<forall>r\<in>set (reports d). is_report E tid i r \<longrightarrow> report_check (set_report_status st path sz now r)) \<Longrightarrow>
      reports_ok (d\<lparr>reports := map (\<lambda>r. if is_report E tid i r then set_report_status st path sz now r else r) (reports d)\<rparr>)" for now
    by (rule reports_ok_update) (auto simp: set_report_status_def)
  then show "reports_step (uuid_text E tid) d
     (snd (update_reports E (is_report E tid i) (set_report_status st path sz) t d))"
    by (auto simp: update_reports_def Let_def reports_step_def is_report_def set_report_status_def
        intro!: filter_map_other)
qed

lemma reports_step_ops:
  "state_io_rel (db_rel (reports_step (uuid_text E tid))) (ReportStore_Create E tid x)"
  "state_io_rel (db_rel (reports_step t)) (ReportStore_GetByID E tid i)"
  "state_io_rel (db_rel (reports_step t)) (ReportStore_List E tid)"
  "state_io_rel (db_rel (reports_step t)) (ListOlderThan E cutoff st)"
  "state_io_rel (db_rel (reports_step (uuid_text E tid))) (ReportStore_UpdateStatus E tid i st path sz)"
  unfolding ReportStore_Create_def ReportStore_GetByID_def ReportStore_List_def ListOlderThan_def
    ReportStore_UpdateStatus_def rows_or_not_found_def
  by (auto intro!: reporting.io_basic reporting.io_pg reports_step_statements)

end
