(* ===== verification/Paging.thy ===== *)
theory Paging
  imports LedgerSpec "HOL-Library.Product_Lexorder"
begin

text \<open>
  The paginated list: \<open>List\<close> and \<open>parseListFilters\<close> of \<open>internal/api/handlers/discrepancies.go\<close>, and
  \<open>buildListWhere\<close>, \<open>listCount\<close>, \<open>listPage\<close> and \<open>List\<close> of \<open>internal/store/discrepancy_store.go\<close>. The
  condition that the code builds as text with numbered placeholders is a list of clauses that name
  the numbers of their arguments.
\<close>

section \<open>The contract of a page\<close>

text \<open>
  A listing in the order of a key, and a page: the first rows behind a key. A client walks through
  the pages until it gets one that is not full; \<open>walk\<close> also says whether it came to that end.
\<close>

primrec walk ::
  "('a \<Rightarrow> 'k) \<Rightarrow> ('k option \<Rightarrow> nat \<Rightarrow> 'a list) \<Rightarrow> nat \<Rightarrow> nat \<Rightarrow> 'k option \<Rightarrow> 'a list \<times> bool" where
  "walk key page n 0 c = ([], False)"
| "walk key page n (Suc k) c =
     (let p = page c n in
      if p \<noteq> [] \<and> length p = n
      then (case walk key page n k (Some (key (last p))) of (rest, ended) \<Rightarrow> (p @ rest, ended))
      else (p, True))"

locale keyed_pages =
  fixes key :: "'a \<Rightarrow> 'k :: linorder"
    and whole :: "'a list"
    and page :: "'k option \<Rightarrow> nat \<Rightarrow> 'a list"
  assumes whole_sorted: "sorted (map key whole)"
    and page_law: "page c n = take n (filter (\<lambda>r. case c of None \<Rightarrow> True | Some k \<Rightarrow> k < key r) whole)"
begin

lemma filter_behind:
  assumes "distinct (map key whole)" and "j < length whole"
  shows "filter (\<lambda>r. key (whole ! j) < key r) whole = drop (Suc j) whole"
proof -
  have less: "key (whole ! a) < key (whole ! b)" if "a < b" "b < length whole" for a b
  proof -
    have "sorted_wrt (<) (map key whole)" using assms(1) whole_sorted by (simp add: strict_sorted_iff)
    from sorted_wrt_nth_less [OF this that(1)] that show ?thesis by simp
  qed
  have front: "filter (\<lambda>r. key (whole ! j) < key r) (take (Suc j) whole) = []"
  proof -
    have "\<not> key (whole ! j) < key r" if "r \<in> set (take (Suc j) whole)" for r
    proof -
      from that assms(2) obtain a where "a \<le> j" "r = whole ! a" by (auto simp: in_set_conv_nth less_Suc_eq_le)
      then show ?thesis using less [of a j] assms(2) by (cases "a = j") auto
    qed
    then show ?thesis by (simp add: filter_empty_conv)
  qed
  have behind: "filter (\<lambda>r. key (whole ! j) < key r) (drop (Suc j) whole) = drop (Suc j) whole"
    unfolding filter_id_conv by (auto simp: in_set_conv_nth less_diff_conv intro!: less)
  have "filter (\<lambda>r. key (whole ! j) < key r) (take (Suc j) whole @ drop (Suc j) whole) = drop (Suc j) whole"
    unfolding filter_append front behind by simp
  then show ?thesis by simp
qed

lemma walk_from:
  assumes "distinct (map key whole)" and "0 < n"
    and "filter (\<lambda>r. case c of None \<Rightarrow> True | Some k \<Rightarrow> k < key r) whole = drop i whole"
    and "i \<le> length whole" and "length whole - i < k * n"
  shows "walk key page n k c = (drop i whole, True)"
  using assms(3-)
proof (induction k arbitrary: c i)
  case (Suc k)
  have p: "page c n = take n (drop i whole)" using Suc.prems by (simp add: page_law)
  show ?case
  proof (cases "i + n \<le> length whole")
    case True
    have full: "length (page c n) = n" "page c n \<noteq> []" using True assms(2) p by auto
    moreover have "last (page c n) = whole ! (i + n - 1)"
      using True assms(2) by (simp add: p last_conv_nth)
    moreover have "filter (\<lambda>r. case Some (key (whole ! (i + n - 1))) of None \<Rightarrow> True | Some k \<Rightarrow> k < key r) whole
        = drop (i + n) whole"
      using filter_behind [OF assms(1), of "i + n - 1"] True assms(2) by simp
    ultimately have "walk key page n (Suc k) c = (page c n @ drop (i + n) whole, True)"
      using Suc.IH [of "Some (key (whole ! (i + n - 1)))" "i + n"] True Suc.prems(3) by (simp add: Let_def)
    also have "page c n @ drop (i + n) whole = drop i whole"
      by (metis add.commute append_take_drop_id drop_drop p)
    finally show ?thesis .
  next
    case False
    then have "\<not> (page c n \<noteq> [] \<and> length (page c n) = n)" using p Suc.prems(2) assms(2) by auto
    moreover have "page c n = drop i whole" using False p by simp
    ultimately show ?thesis by (auto simp: Let_def)
  qed
qed simp

lemma walk_whole:
  "distinct (map key whole) \<Longrightarrow> 0 < n \<Longrightarrow> length whole < k * n \<Longrightarrow> walk key page n k None = (whole, True)"
  by (simp add: walk_from [of n None 0 k])

end

section \<open>The condition\<close>

record ListFilters =
  f_Status :: string
  f_Severity :: string
  f_DiscrepancyType :: string
  f_DateFrom :: "gotime option"
  f_DateTo :: "gotime option"
  f_SourceSystem :: string
  f_Cursor :: string
  f_Limit :: int

text \<open>
  \<open>col = $i\<close>, \<open>created_at >= $i\<close>, \<open>created_at <= $i\<close>, and \<open>(created_at, id) < (SELECT created_at, id FROM
  discrepancies WHERE id = $i)\<close>.
\<close>

datatype where_clause = EqArg string nat | FromArg nat | ToArg nat | BeforeRow nat

type_synonym where_builder = "where_clause list \<times> sql_arg list \<times> nat"

definition and_if :: "bool \<Rightarrow> (nat \<Rightarrow> where_clause) \<Rightarrow> sql_arg \<Rightarrow> where_builder \<Rightarrow> where_builder" where
  "and_if cond mk a b =
     (case b of (cs, args, i) \<Rightarrow> if cond then (cs @ [mk i], args @ [a], i + 1) else b)"

definition and_time :: "gotime option \<Rightarrow> (nat \<Rightarrow> where_clause) \<Rightarrow> where_builder \<Rightarrow> where_builder" where
  "and_time x mk b = (case x of None \<Rightarrow> b | Some t \<Rightarrow> and_if True mk (ATime t) b)"

definition and_filters :: "ListFilters \<Rightarrow> bool \<Rightarrow> where_builder \<Rightarrow> where_builder" where
  "and_filters f includeCursor b0 =
     (let b1 = and_if (f_Status f \<noteq> []) (EqArg ''status'') (AText (f_Status f)) b0;
          b2 = and_if (f_Severity f \<noteq> []) (EqArg ''severity'') (AText (f_Severity f)) b1;
          b3 = and_if (f_DiscrepancyType f \<noteq> []) (EqArg ''discrepancy_type'') (AText (f_DiscrepancyType f)) b2;
          b4 = and_if (f_SourceSystem f \<noteq> []) (EqArg ''source_system'') (AText (f_SourceSystem f)) b3;
          b5 = and_time (f_DateFrom f) FromArg b4;
          b6 = and_time (f_DateTo f) ToArg b5
      in and_if (includeCursor \<and> f_Cursor f \<noteq> []) BeforeRow (AText (f_Cursor f)) b6)"

definition buildListWhere :: "uuid \<Rightarrow> ListFilters \<Rightarrow> bool \<Rightarrow> where_builder" where
  "buildListWhere tid f includeCursor =
     and_filters f includeCursor ([EqArg ''tenant_id'' 1], [AUuid tid], 2)"

section \<open>Running the statements\<close>

text \<open>The place of a row in the order \<open>created_at DESC, id DESC\<close>; a UUID is compared as a number.\<close>

type_synonym page_key = "int \<times> int"

definition id_value :: "env \<Rightarrow> string \<Rightarrow> int" where
  "id_value E i = (case pg_uuid E i of None \<Rightarrow> 0 | Some u \<Rightarrow> uint u)"

definition page_key :: "env \<Rightarrow> discrepancy \<Rightarrow> page_key" where
  "page_key E r = (- d_created_at r, - id_value E (d_id r))"

text \<open>The subquery of the cursor: any row with that identifier, or NULL, before which no row is.\<close>

definition row_key :: "env \<Rightarrow> uuid \<Rightarrow> database \<Rightarrow> page_key option" where
  "row_key E u d =
     (case filter (\<lambda>r. d_id r = uuid_text E u) (discrepancies d) of
        [] \<Rightarrow> None | r # _ \<Rightarrow> Some (page_key E r))"

fun clause_holds :: "env \<Rightarrow> database \<Rightarrow> sql_arg list \<Rightarrow> discrepancy \<Rightarrow> where_clause \<Rightarrow> bool" where
  "clause_holds E d args r (EqArg col i) =
     (case arg_at args i of
        Some (AUuid u) \<Rightarrow> col = ''tenant_id'' \<and> d_tenant_id r = uuid_text E u
      | Some (AText s) \<Rightarrow>
          (col = ''status'' \<and> d_status r = s) \<or> (col = ''severity'' \<and> d_severity r = s) \<or>
          (col = ''discrepancy_type'' \<and> d_discrepancy_type r = s) \<or>
          (col = ''source_system'' \<and> d_source_system r = s)
      | _ \<Rightarrow> False)"
| "clause_holds E d args r (FromArg i) =
     (case arg_at args i of Some (ATime t) \<Rightarrow> d_created_at r \<ge> t | _ \<Rightarrow> False)"
| "clause_holds E d args r (ToArg i) =
     (case arg_at args i of Some (ATime t) \<Rightarrow> d_created_at r \<le> t | _ \<Rightarrow> False)"
| "clause_holds E d args r (BeforeRow i) =
     (case arg_at args i of
        Some (AText s) \<Rightarrow>
          (case pg_uuid E s of None \<Rightarrow> False
           | Some u \<Rightarrow> (case row_key E u d of None \<Rightarrow> False | Some k \<Rightarrow> k < page_key E r))
      | _ \<Rightarrow> False)"

text \<open>An argument that the server cannot take as the value of its column makes the statement fail.\<close>

fun clause_typed :: "env \<Rightarrow> sql_arg list \<Rightarrow> where_clause \<Rightarrow> bool" where
  "clause_typed E args (EqArg col i) =
     (case arg_at args i of
        Some (AUuid u) \<Rightarrow> col = ''tenant_id''
      | Some (AText s) \<Rightarrow> text_ok s \<and> col \<in> {''status'', ''severity'', ''discrepancy_type'', ''source_system''}
      | _ \<Rightarrow> False)"
| "clause_typed E args (FromArg i) = (case arg_at args i of Some (ATime t) \<Rightarrow> True | _ \<Rightarrow> False)"
| "clause_typed E args (ToArg i) = (case arg_at args i of Some (ATime t) \<Rightarrow> True | _ \<Rightarrow> False)"
| "clause_typed E args (BeforeRow i) =
     (case arg_at args i of Some (AText s) \<Rightarrow> pg_uuid E s \<noteq> None | _ \<Rightarrow> False)"

definition rows_where :: "env \<Rightarrow> where_clause list \<Rightarrow> sql_arg list \<Rightarrow> database \<Rightarrow> discrepancy list" where
  "rows_where E cs args d = filter (\<lambda>r. list_all (clause_holds E d args r) cs) (discrepancies d)"

definition listCount :: "env \<Rightarrow> uuid \<Rightarrow> ListFilters \<Rightarrow> (world, nat result) state" where
  "listCount E tid f =
     (case buildListWhere tid f False of (cs, args, _) \<Rightarrow>
        wrapped ''discrepancy_store.List: count'' (pg E (query (\<lambda>t d.
          if list_all (clause_typed E args) cs then Inr (length (rows_where E cs args d)) else rejected E t))))"

text \<open>The limit is the argument that the text names with \<open>nextIdx\<close>, appended last.\<close>

definition listPage :: "env \<Rightarrow> uuid \<Rightarrow> ListFilters \<Rightarrow> int \<Rightarrow> (world, discrepancy list result) state" where
  "listPage E tid f limit =
     (case buildListWhere tid f True of (cs, args, nextIdx) \<Rightarrow>
        (let args' = args @ [AInt limit] in
         wrapped ''discrepancy_store.List: query'' (pg E (query (\<lambda>t d.
           case arg_at args' nextIdx of
             Some (AInt n) \<Rightarrow>
               if list_all (clause_typed E args') cs \<and> 0 \<le> n
               then Inr (take (nat n) (sort_key (page_key E) (rows E t (rows_where E cs args' d))))
               else rejected E t
           | _ \<Rightarrow> rejected E t)))))"

definition DiscrepancyStore_List ::
  "env \<Rightarrow> uuid \<Rightarrow> ListFilters \<Rightarrow> (world, (discrepancy list \<times> nat) result) state" where
  "DiscrepancyStore_List E tid f =
     (let limit0 = (if f_Limit f \<le> 0 then 25 else f_Limit f);
          limit = (if limit0 > 100 then 100 else limit0)
      in do {
        counted \<leftarrow> listCount E tid f;
        case counted of
          Inl e \<Rightarrow> ret (Inl e)
        | Inr n \<Rightarrow> do {
            page \<leftarrow> listPage E tid f limit;
            ret (case page of Inl e \<Rightarrow> Inl e | Inr results \<Rightarrow> Inr (results, n))
          }
      })"

section \<open>The handler\<close>

definition parseListFilters :: "request \<Rightarrow> ListFilters" where
  "parseListFilters r =
     (let l = Query_Get r ''limit'';
          limit0 = (if l \<noteq> [] then (case Atoi l of None \<Rightarrow> 25 | Some p \<Rightarrow> if p > 0 then p else 25) else 25);
          limit = (if limit0 > 100 then 100 else limit0)
      in \<lparr>f_Status = Query_Get r ''status'', f_Severity = Query_Get r ''severity'',
          f_DiscrepancyType = Query_Get r ''discrepancy_type'', f_DateFrom = None, f_DateTo = None,
          f_SourceSystem = Query_Get r ''source_system'', f_Cursor = Query_Get r ''cursor'',
          f_Limit = limit\<rparr>)"

datatype list_reply = Listed (listed: "discrepancy list") (total_count: nat) (next_cursor: string)

definition DiscrepancyHandler_List :: "env \<Rightarrow> request \<Rightarrow> (world, list_reply response) state" where
  "DiscrepancyHandler_List E r =
     (case parseTenantID E r of
        Inl resp \<Rightarrow> ret resp
      | Inr tid \<Rightarrow> (let filters = parseListFilters r in do {
          got \<leftarrow> DiscrepancyStore_List E tid filters;
          ret (case got of
                 Inl e \<Rightarrow> RespondError 500 ''LIST_FAILED'' ''Failed to list discrepancies''
               | Inr (ds, n) \<Rightarrow>
                   RespondJSON 200 (Listed ds n
                     (if length ds > 0 \<and> int (length ds) = f_Limit filters then d_id (last ds) else [])))
        }))"

section \<open>What the numbered clauses mean\<close>

text \<open>A clause only reads the argument it names.\<close>

fun clause_arg :: "where_clause \<Rightarrow> nat" where
  "clause_arg (EqArg col i) = i"
| "clause_arg (FromArg i) = i"
| "clause_arg (ToArg i) = i"
| "clause_arg (BeforeRow i) = i"

definition wf_where :: "where_builder \<Rightarrow> bool" where
  "wf_where b = (case b of (cs, args, i) \<Rightarrow>
     i = Suc (length args) \<and> (\<forall>c\<in>set cs. 1 \<le> clause_arg c \<and> clause_arg c \<le> length args))"

definition where_holds :: "env \<Rightarrow> database \<Rightarrow> discrepancy \<Rightarrow> where_builder \<Rightarrow> bool" where
  "where_holds E d r b = (case b of (cs, args, i) \<Rightarrow> list_all (clause_holds E d args r) cs)"

definition where_typed :: "env \<Rightarrow> where_builder \<Rightarrow> bool" where
  "where_typed E b = (case b of (cs, args, i) \<Rightarrow> list_all (clause_typed E args) cs)"

lemma arg_at_append: "1 \<le> i \<Longrightarrow> i \<le> length args \<Longrightarrow> arg_at (args @ xs) i = arg_at args i"
  by (auto simp: arg_at_def nth_append)

lemma arg_at_new [simp]: "arg_at (args @ a # xs) (Suc (length args)) = Some a"
  by (simp add: arg_at_def)

lemma clause_more:
  assumes "1 \<le> clause_arg c" and "clause_arg c \<le> length args"
  shows "clause_holds E d (args @ xs) r c = clause_holds E d args r c"
    and "clause_typed E (args @ xs) c = clause_typed E args c"
  using assms by (cases c; simp add: arg_at_append)+

lemma clauses_more:
  assumes "\<forall>c\<in>set cs. 1 \<le> clause_arg c \<and> clause_arg c \<le> length args"
  shows "list_all (clause_holds E d (args @ xs) r) cs = list_all (clause_holds E d args r) cs"
    and "list_all (clause_typed E (args @ xs)) cs = list_all (clause_typed E args) cs"
  using assms by (auto simp: list_all_iff clause_more)

lemma and_if_facts:
  assumes "wf_where b" and "\<And>i. clause_arg (mk i) = i"
  shows "wf_where (and_if cond mk a b)"
    and "where_holds E d r (and_if cond mk a b) \<longleftrightarrow>
      where_holds E d r b \<and> (cond \<longrightarrow> clause_holds E d (fst (snd b) @ [a]) r (mk (Suc (length (fst (snd b))))))"
    and "where_typed E (and_if cond mk a b) \<longleftrightarrow>
      where_typed E b \<and> (cond \<longrightarrow> clause_typed E (fst (snd b) @ [a]) (mk (Suc (length (fst (snd b))))))"
  using assms
  by (cases b; force simp: wf_where_def where_holds_def where_typed_def and_if_def clauses_more)+

lemma and_time_facts:
  assumes "wf_where b" and "\<And>i. clause_arg (mk i) = i"
  shows "wf_where (and_time x mk b)"
    and "where_holds E d r (and_time x mk b) \<longleftrightarrow> where_holds E d r b \<and>
      (case x of None \<Rightarrow> True
       | Some t \<Rightarrow> clause_holds E d (fst (snd b) @ [ATime t]) r (mk (Suc (length (fst (snd b))))))"
    and "where_typed E (and_time x mk b) \<longleftrightarrow> where_typed E b \<and>
      (case x of None \<Rightarrow> True
       | Some t \<Rightarrow> clause_typed E (fst (snd b) @ [ATime t]) (mk (Suc (length (fst (snd b))))))"
  using and_if_facts [OF assms, where cond = True] assms(1) by (auto simp: and_time_def split: option.split)

text \<open>What the condition means, without numbers.\<close>

definition matches :: "env \<Rightarrow> uuid \<Rightarrow> ListFilters \<Rightarrow> discrepancy \<Rightarrow> bool" where
  "matches E tid f r \<longleftrightarrow>
     d_tenant_id r = uuid_text E tid \<and>
     (f_Status f \<noteq> [] \<longrightarrow> d_status r = f_Status f) \<and>
     (f_Severity f \<noteq> [] \<longrightarrow> d_severity r = f_Severity f) \<and>
     (f_DiscrepancyType f \<noteq> [] \<longrightarrow> d_discrepancy_type r = f_DiscrepancyType f) \<and>
     (f_SourceSystem f \<noteq> [] \<longrightarrow> d_source_system r = f_SourceSystem f) \<and>
     (case f_DateFrom f of None \<Rightarrow> True | Some t \<Rightarrow> t \<le> d_created_at r) \<and>
     (case f_DateTo f of None \<Rightarrow> True | Some t \<Rightarrow> d_created_at r \<le> t)"

definition filters_ok :: "ListFilters \<Rightarrow> bool" where
  "filters_ok f \<longleftrightarrow> text_ok (f_Status f) \<and> text_ok (f_Severity f) \<and> text_ok (f_DiscrepancyType f) \<and>
     text_ok (f_SourceSystem f)"

text \<open>The key the cursor stands for, if its identifier is one and a row has it.\<close>

definition cursor_key :: "env \<Rightarrow> database \<Rightarrow> string \<Rightarrow> page_key option" where
  "cursor_key E d c = Option.bind (pg_uuid E c) (\<lambda>u. row_key E u d)"

lemma and_filters_facts:
  assumes "wf_where b"
  shows "wf_where (and_filters f ic b)"
    and "where_holds E d r (and_filters f ic b) \<longleftrightarrow> where_holds E d r b \<and>
      (f_Status f \<noteq> [] \<longrightarrow> d_status r = f_Status f) \<and>
      (f_Severity f \<noteq> [] \<longrightarrow> d_severity r = f_Severity f) \<and>
      (f_DiscrepancyType f \<noteq> [] \<longrightarrow> d_discrepancy_type r = f_DiscrepancyType f) \<and>
      (f_SourceSystem f \<noteq> [] \<longrightarrow> d_source_system r = f_SourceSystem f) \<and>
      (case f_DateFrom f of None \<Rightarrow> True | Some t \<Rightarrow> t \<le> d_created_at r) \<and>
      (case f_DateTo f of None \<Rightarrow> True | Some t \<Rightarrow> d_created_at r \<le> t) \<and>
      (ic \<and> f_Cursor f \<noteq> [] \<longrightarrow>
        (case cursor_key E d (f_Cursor f) of None \<Rightarrow> False | Some k \<Rightarrow> k < page_key E r))"
    and "filters_ok f \<Longrightarrow> where_typed E (and_filters f ic b) \<longleftrightarrow> where_typed E b \<and>
      (ic \<and> f_Cursor f \<noteq> [] \<longrightarrow> pg_uuid E (f_Cursor f) \<noteq> None)"
  using assms
  by (auto simp: and_filters_def Let_def and_if_facts and_time_facts cursor_key_def filters_ok_def
      cong: option.case_cong split: option.split)

lemma buildListWhere_meaning:
  "wf_where (buildListWhere tid f ic)"
  "where_holds E d r (buildListWhere tid f ic) \<longleftrightarrow> matches E tid f r \<and>
     (ic \<and> f_Cursor f \<noteq> [] \<longrightarrow>
        (case cursor_key E d (f_Cursor f) of None \<Rightarrow> False | Some k \<Rightarrow> k < page_key E r))"
  "filters_ok f \<Longrightarrow> where_typed E (buildListWhere tid f ic) \<longleftrightarrow>
     (ic \<and> f_Cursor f \<noteq> [] \<longrightarrow> pg_uuid E (f_Cursor f) \<noteq> None)"
proof -
  have b: "wf_where ([EqArg ''tenant_id'' 1], [AUuid tid], 2)"
    "where_holds E d r ([EqArg ''tenant_id'' 1], [AUuid tid], 2) \<longleftrightarrow> d_tenant_id r = uuid_text E tid"
    "where_typed E ([EqArg ''tenant_id'' 1], [AUuid tid], 2)"
    by (simp_all add: wf_where_def where_holds_def where_typed_def arg_at_def)
  show "wf_where (buildListWhere tid f ic)"
    unfolding buildListWhere_def by (rule and_filters_facts(1) [OF b(1)])
  show "where_holds E d r (buildListWhere tid f ic) \<longleftrightarrow> matches E tid f r \<and>
     (ic \<and> f_Cursor f \<noteq> [] \<longrightarrow>
        (case cursor_key E d (f_Cursor f) of None \<Rightarrow> False | Some k \<Rightarrow> k < page_key E r))"
    unfolding buildListWhere_def and_filters_facts(2) [OF b(1)] b(2) matches_def by blast
  show "where_typed E (buildListWhere tid f ic) \<longleftrightarrow>
     (ic \<and> f_Cursor f \<noteq> [] \<longrightarrow> pg_uuid E (f_Cursor f) \<noteq> None)" if "filters_ok f"
    unfolding buildListWhere_def and_filters_facts(3) [OF b(1) that] using b(3) by blast
qed

section \<open>A page of the table\<close>

definition listing :: "env \<Rightarrow> uuid \<Rightarrow> ListFilters \<Rightarrow> database \<Rightarrow> discrepancy list" where
  "listing E tid f d = sort_key (page_key E) (filter (matches E tid f) (discrepancies d))"

definition page_after ::
  "env \<Rightarrow> uuid \<Rightarrow> ListFilters \<Rightarrow> database \<Rightarrow> page_key option \<Rightarrow> nat \<Rightarrow> discrepancy list" where
  "page_after E tid f d c n =
     take n (sort_key (page_key E) (filter (\<lambda>r. matches E tid f r \<and>
       (case c of None \<Rightarrow> True | Some k \<Rightarrow> k < page_key E r)) (discrepancies d)))"

interpretation pages: keyed_pages "page_key E" "listing E tid f d" "page_after E tid f d" for E tid f d
proof
  show "sorted (map (page_key E) (listing E tid f d))" by (simp add: listing_def)
  show "page_after E tid f d c n = take n (filter
      (\<lambda>r. case c of None \<Rightarrow> True | Some k \<Rightarrow> k < page_key E r) (listing E tid f d))" for c n
    by (simp add: page_after_def listing_def filter_sort conj_commute flip: filter_filter)
qed

text \<open>On a sound database the keys tell the rows apart.\<close>

lemma page_key_inj:
  assumes "sound E d" and "uuid_codec E"
  shows "distinct (map (page_key E) (discrepancies d))"
proof -
  have "inj_on (page_key E) (set (discrepancies d))"
  proof (rule inj_onI)
    fix x y
    assume x: "x \<in> set (discrepancies d)" and y: "y \<in> set (discrepancies d)" and k: "page_key E x = page_key E y"
    obtain u v where "d_id x = uuid_text E u" "d_id y = uuid_text E v"
      using x y assms(1) unfolding sound_def ids_ok_def by blast
    with k assms(2) have "uint u = uint v" and "d_id x = uuid_text E u" "d_id y = uuid_text E v"
      by (simp_all add: page_key_def id_value_def)
    then have "d_id x = d_id y" by (metis word_uint_eqI)
    with x y assms(1) show "x = y" by (auto simp: sound_def ledger_inv_def intro: same_id)
  qed
  moreover have "distinct (discrepancies d)"
    using assms(1) by (auto simp: sound_def ledger_inv_def schema_ok_def distinct_map)
  ultimately show ?thesis by (simp add: distinct_map)
qed

lemma distinct_listing: "sound E d \<Longrightarrow> uuid_codec E \<Longrightarrow> distinct (map (page_key E) (listing E tid f d))"
  using page_key_inj [of E d] by (simp add: listing_def distinct_map inj_on_def)

lemma sort_rows:
  assumes "distinct (map (page_key E) xs)"
  shows "sort_key (page_key E) (rows E t xs) = sort_key (page_key E) xs"
proof (rule sort_key_inj_key_eq)
  show "inj_on (page_key E) (set (rows E t xs))" using assms by (simp add: distinct_map)
qed simp_all

lemma set_listing: "set (listing E tid f d) = {r \<in> set (discrepancies d). matches E tid f r}"
  by (simp add: listing_def)

lemma rows_where_meaning:
  assumes "buildListWhere tid f ic = (cs, args, i)"
  shows "rows_where E cs (args @ xs) d = filter (\<lambda>r. matches E tid f r \<and> (ic \<and> f_Cursor f \<noteq> [] \<longrightarrow>
     (case cursor_key E d (f_Cursor f) of None \<Rightarrow> False | Some k \<Rightarrow> k < page_key E r))) (discrepancies d)"
proof -
  have wf: "\<forall>c\<in>set cs. 1 \<le> clause_arg c \<and> clause_arg c \<le> length args"
    using buildListWhere_meaning(1) [of tid f ic] assms by (simp add: wf_where_def)
  show ?thesis
    using buildListWhere_meaning(2) [of E d _ tid f ic] assms
    by (simp add: rows_where_def clauses_more(1) [OF wf] where_holds_def)
qed

text \<open>The two statements, when they do not fail.\<close>

lemma listCount_result:
  assumes "no_faults E" and "filters_ok f" and "run_state (listCount E tid f) w = (out, w')"
  shows "out = Inr (length (listing E tid f (db w))) \<and> db w' = db w"
proof -
  obtain cs args i where b: "buildListWhere tid f False = (cs, args, i)" by (metis surj_pair)
  have "list_all (clause_typed E args) cs"
    using buildListWhere_meaning(3) [OF assms(2), of E tid False] b by (simp add: where_typed_def)
  then show ?thesis
    using assms(1,3) b rows_where_meaning [OF b, of E "[]"]
    by (auto simp: listCount_def wrapped_def run_pg query_def no_faults_def listing_def length_sort)
qed

definition cursor_selects :: "env \<Rightarrow> database \<Rightarrow> string \<Rightarrow> page_key option \<Rightarrow> bool" where
  "cursor_selects E d c k \<longleftrightarrow> (if c = [] then k = None else k \<noteq> None \<and> cursor_key E d c = k)"

lemma listPage_result:
  assumes "no_faults E" and "filters_ok f" and "cursor_selects E (db w) (f_Cursor f) c" and "0 \<le> limit"
    and "sound E (db w)" and "uuid_codec E" and "run_state (listPage E tid f limit) w = (out, w')"
  shows "out = Inr (page_after E tid f (db w) c (nat limit)) \<and> db w' = db w"
proof -
  obtain cs args i where b: "buildListWhere tid f True = (cs, args, i)" by (metis surj_pair)
  have i: "i = Suc (length args)" and wf: "\<forall>c\<in>set cs. 1 \<le> clause_arg c \<and> clause_arg c \<le> length args"
    using buildListWhere_meaning(1) [of tid f True] b by (simp_all add: wf_where_def)
  have "pg_uuid E (f_Cursor f) \<noteq> None" if "f_Cursor f \<noteq> []"
    using that assms(3) by (cases "pg_uuid E (f_Cursor f)") (auto simp: cursor_selects_def cursor_key_def)
  then have typed: "list_all (clause_typed E (args @ [AInt limit])) cs"
    using buildListWhere_meaning(3) [OF assms(2), of E tid True] b
    by (simp add: where_typed_def clauses_more(2) [OF wf])
  have sel: "rows_where E cs (args @ [AInt limit]) (db w) = filter (\<lambda>r. matches E tid f r \<and>
      (case c of None \<Rightarrow> True | Some k \<Rightarrow> k < page_key E r)) (discrepancies (db w))"
    using assms(3) by (auto simp: rows_where_meaning [OF b] cursor_selects_def split: if_splits intro!: filter_cong)
  have dist: "distinct (map (page_key E) (rows_where E cs (args @ [AInt limit]) (db w)))"
    using page_key_inj [OF assms(5,6)] by (simp add: sel distinct_map inj_on_def)
  show ?thesis
    using assms(1,4,7) b i typed sort_rows [OF dist]
    by (auto simp: listPage_def wrapped_def run_pg query_def no_faults_def page_after_def sel)
qed

section \<open>What the endpoint returns\<close>

lemma parse_limit: "1 \<le> f_Limit (parseListFilters r) \<and> f_Limit (parseListFilters r) \<le> 100"
  by (auto simp: parseListFilters_def Let_def split: option.split)

lemma List_result:
  assumes "no_faults E" and "filters_ok f" and "cursor_selects E (db w) (f_Cursor f) c"
    and "1 \<le> f_Limit f" and "f_Limit f \<le> 100"
    and "sound E (db w)" and "uuid_codec E" and "run_state (DiscrepancyStore_List E tid f) w = (out, w')"
  shows "out = Inr (page_after E tid f (db w) c (nat (f_Limit f)), length (listing E tid f (db w))) \<and>
    db w' = db w"
proof -
  obtain n w1 where n: "run_state (listCount E tid f) w = (n, w1)" by fastforce
  note count = listCount_result [OF assms(1,2) n]
  obtain p w2 where p: "run_state (listPage E tid f (f_Limit f)) w1 = (p, w2)" by fastforce
  have "p = Inr (page_after E tid f (db w1) c (nat (f_Limit f))) \<and> db w2 = db w1"
    by (rule listPage_result [OF assms(1,2) _ _ _ assms(7) p]) (use assms count in simp_all)
  with count n p assms(4,5,8) show ?thesis by (auto simp: DiscrepancyStore_List_def)
qed

text \<open>The filters of a request, in the order in which the endpoint reads them.\<close>

definition listed_filters :: "request \<Rightarrow> ListFilters" where
  "listed_filters r = (parseListFilters r)\<lparr>f_Cursor := []\<rparr>"

lemma matches_cursor: "matches E tid (f\<lparr>f_Cursor := c\<rparr>) = matches E tid f"
  by (simp add: matches_def fun_eq_iff)

lemma Listed_result:
  assumes "no_faults E" and "sound E (db w)" and "uuid_codec E" and "filters_ok (parseListFilters r)"
    and "cursor_selects E (db w) (f_Cursor (parseListFilters r)) c" and "tenant_of E r tid"
    and "run_state (DiscrepancyHandler_List E r) w = (out, w')"
    and "p = page_after E tid (parseListFilters r) (db w) c (nat (f_Limit (parseListFilters r)))"
  shows "out = Reply 200 (Listed p (length (listing E tid (parseListFilters r) (db w)))
     (if p \<noteq> [] \<and> length p = nat (f_Limit (parseListFilters r)) then d_id (last p) else [])) \<and> db w' = db w"
proof -
  obtain got w1 where g: "run_state (DiscrepancyStore_List E tid (parseListFilters r)) w = (got, w1)" by fastforce
  have lim: "1 \<le> f_Limit (parseListFilters r)" "f_Limit (parseListFilters r) \<le> 100" using parse_limit by auto
  note List_result [OF assms(1,4,5) lim assms(2,3) g]
  then show ?thesis
    using assms(6,7,8) g lim
    by (auto simp: DiscrepancyHandler_List_def RespondJSON_def Let_def)
qed

text \<open>
  A client that asks for one page after the other, with the cursor of the page before, until there
  is no cursor any more; \<open>True\<close> when it came to that end within \<open>k\<close> requests.
\<close>

primrec fetch_all :: "env \<Rightarrow> request \<Rightarrow> nat \<Rightarrow> string \<Rightarrow> (world, discrepancy list \<times> bool) state" where
  "fetch_all E r 0 c = ret ([], False)"
| "fetch_all E r (Suc k) c = do {
     resp \<leftarrow> DiscrepancyHandler_List E (r\<lparr>url_query := (''cursor'', c) # url_query r\<rparr>);
     case resp of
       Reply code (Listed ds n next) \<Rightarrow>
         if next = [] then ret (ds, True)
         else do { (rest, ended) \<leftarrow> fetch_all E r k next; ret (ds @ rest, ended) }
     | _ \<Rightarrow> ret ([], False)
   }"

lemma parse_with_cursor:
  "parseListFilters (r\<lparr>url_query := (''cursor'', c) # url_query r\<rparr>) = (parseListFilters r)\<lparr>f_Cursor := c\<rparr>"
  by (simp add: parseListFilters_def Query_Get_def first_value_def Let_def)

lemma listing_cursor: "listing E tid (f\<lparr>f_Cursor := c\<rparr>) d = listing E tid f d"
  "page_after E tid (f\<lparr>f_Cursor := c\<rparr>) d k n = page_after E tid f d k n"
  by (simp_all add: listing_def page_after_def matches_cursor)

lemma cursor_of_row:
  assumes "sound E d" and "uuid_codec E" and "pg_uuid E [] = None" and "r \<in> set (discrepancies d)"
  shows "d_id r \<noteq> []" and "cursor_selects E d (d_id r) (Some (page_key E r))"
proof -
  obtain u where u: "d_id r = uuid_text E u" using assms(1,4) unfolding sound_def ids_ok_def by blast
  show ne: "d_id r \<noteq> []" using u assms(2,3) by (metis option.distinct(1) uuid_codecD(2))
  have "x = r" if "x \<in> set (discrepancies d)" "d_id x = uuid_text E u" for x
    by (rule same_id [of d]) (use that assms(1,4) u in \<open>simp_all add: sound_def ledger_inv_def\<close>)
  then have "\<forall>x\<in>set (filter (\<lambda>x. d_id x = uuid_text E u) (discrepancies d)). x = r" by simp
  moreover have "r \<in> set (filter (\<lambda>x. d_id x = uuid_text E u) (discrepancies d))" using assms(4) u by simp
  ultimately have "row_key E u d = Some (page_key E r)"
    unfolding row_key_def by (cases "filter (\<lambda>x. d_id x = uuid_text E u) (discrepancies d)") auto
  then show "cursor_selects E d (d_id r) (Some (page_key E r))"
    using ne u assms(2) by (simp add: cursor_selects_def cursor_key_def)
qed

lemma set_page_after: "set (page_after E tid f d c n) \<subseteq> set (discrepancies d)"
  by (auto simp: page_after_def dest: in_set_takeD)

lemma fetch_all_walks:
  assumes "no_faults E" and "uuid_codec E" and "pg_uuid E [] = None" and "filters_ok (parseListFilters r)"
    and "tenant_of E r tid"
    and "sound E (db w)" and "cursor_selects E (db w) c key"
  shows "fst (run_state (fetch_all E r k c) w) =
    walk (page_key E) (page_after E tid (parseListFilters r) (db w)) (nat (f_Limit (parseListFilters r))) k key"
  using assms(6,7)
proof (induction k arbitrary: w c key)
  case (Suc k)
  let ?f = "parseListFilters r" let ?n = "nat (f_Limit ?f)"
  define p where "p = page_after E tid ?f (db w) key ?n"
  define q where "q = r\<lparr>url_query := (''cursor'', c) # url_query r\<rparr>"
  obtain out w1 where run: "run_state (DiscrepancyHandler_List E q) w = (out, w1)" by fastforce
  have parse: "parseListFilters q = ?f\<lparr>f_Cursor := c\<rparr>" by (simp add: q_def parse_with_cursor)
  have "out = Reply 200 (Listed p (length (listing E tid ?f (db w)))
      (if p \<noteq> [] \<and> length p = ?n then d_id (last p) else [])) \<and> db w1 = db w"
  proof -
    have "filters_ok (parseListFilters q)" using assms(4) by (simp add: parse filters_ok_def)
    moreover have "cursor_selects E (db w) (f_Cursor (parseListFilters q)) key" using Suc.prems(2) by (simp add: parse)
    moreover have "tenant_of E q tid" using assms(5) by (simp add: tenant_of_def q_def)
    moreover have "p = page_after E tid (parseListFilters q) (db w) key (nat (f_Limit (parseListFilters q)))"
      by (simp add: p_def parse listing_cursor)
    ultimately show ?thesis
      using Listed_result [OF assms(1) Suc.prems(1) assms(2) _ _ _ run, of key tid p]
      by (simp add: parse listing_cursor)
  qed
  then have out: "out = Reply 200 (Listed p (length (listing E tid ?f (db w)))
      (if p \<noteq> [] \<and> length p = ?n then d_id (last p) else []))" and w1: "db w1 = db w" by auto
  show ?case
  proof (cases "p \<noteq> [] \<and> length p = ?n")
    case True
    then have "last p \<in> set (discrepancies (db w))" using set_page_after last_in_set by (fastforce simp: p_def)
    note last = cursor_of_row [OF Suc.prems(1) assms(2,3) this]
    have "fst (run_state (fetch_all E r k (d_id (last p))) w1) =
        walk (page_key E) (page_after E tid ?f (db w)) ?n k (Some (page_key E (last p)))"
      using Suc.IH [of w1 "d_id (last p)" "Some (page_key E (last p))"] Suc.prems(1) last w1 by simp
    with True last(1) out run show ?thesis
      by (simp add: q_def p_def Let_def split_beta)
  next
    case False
    with out run show ?thesis by (auto simp: q_def p_def Let_def)
  qed
qed simp

text \<open>
  C13 (functional). Walking through the pages of an unchanged table returns every discrepancy of the
  tenant that matches the filters, each once, the latest first, and ends after at most one request
  more than there are full pages.
\<close>

theorem pagination_complete:
  assumes "no_faults E" and "uuid_codec E" and "pg_uuid E [] = None" and "sound E (db w)"
    and "filters_ok (parseListFilters r)" and "tenant_of E r tid"
    and "length (filter (matches E tid (parseListFilters r)) (discrepancies (db w)))
           < k * nat (f_Limit (parseListFilters r))"
  shows "\<exists>ds. fst (run_state (fetch_all E r k []) w) = (ds, True) \<and>
    mset ds = mset (filter (matches E tid (parseListFilters r)) (discrepancies (db w))) \<and>
    sorted_wrt (\<lambda>x y. d_created_at y < d_created_at x \<or>
      d_created_at x = d_created_at y \<and> id_value E (d_id y) < id_value E (d_id x)) ds"
proof -
  let ?ds = "listing E tid (parseListFilters r) (db w)"
  have dist: "distinct (map (page_key E) ?ds)" by (rule distinct_listing) fact+
  have "cursor_selects E (db w) [] None" by (simp add: cursor_selects_def)
  then have "fst (run_state (fetch_all E r k []) w) = (?ds, True)"
    using fetch_all_walks [of E r tid w "[]" None k] pages.walk_whole [OF dist] assms parse_limit [of r]
    by (simp add: listing_def)
  moreover have "mset ?ds = mset (filter (matches E tid (parseListFilters r)) (discrepancies (db w)))"
    by (simp add: listing_def)
  moreover have "sorted_wrt (<) (map (page_key E) ?ds)"
    using dist pages.whole_sorted by (simp add: strict_sorted_iff)
  then have "sorted_wrt (\<lambda>x y. page_key E x < page_key E y) ?ds" by (simp add: sorted_wrt_map)
  then have "sorted_wrt (\<lambda>x y. d_created_at y < d_created_at x \<or>
      d_created_at x = d_created_at y \<and> id_value E (d_id y) < id_value E (d_id x)) ?ds"
    by (rule sorted_wrt_mono_rel [rotated]) (auto simp: page_key_def)
  ultimately show ?thesis by blast
qed

text \<open>
  Whatever the query says and whatever fails, an answer has at most as many rows as the
  limit, which is at most 100, and each of them is a row of the tenant that passes the filters; a
  cursor is only given with a full page.
\<close>

lemma list_answer_bounded:
  assumes "tenant_of E r tid"
    and "run_state (DiscrepancyHandler_List E r) w = (Reply code (Listed ds n next), w')"
  shows "code = 200 \<and> int (length ds) \<le> f_Limit (parseListFilters r) \<and> length ds \<le> 100 \<and>
    (\<forall>x\<in>set ds. x \<in> set (discrepancies (db w)) \<and> matches E tid (parseListFilters r) x) \<and>
    (next \<noteq> [] \<longrightarrow> int (length ds) = f_Limit (parseListFilters r))"
proof -
  let ?f = "parseListFilters r"
  have lim: "1 \<le> f_Limit ?f" "f_Limit ?f \<le> 100" using parse_limit by auto
  from assms obtain c w1 p w2 where c: "run_state (listCount E tid ?f) w = (Inr c, w1)"
    and p: "run_state (listPage E tid ?f (f_Limit ?f)) w1 = (Inr ds, w2)" and "code = 200"
    and full: "next \<noteq> [] \<longrightarrow> int (length ds) = f_Limit ?f"
    using lim
    by (auto simp: DiscrepancyHandler_List_def DiscrepancyStore_List_def RespondJSON_def RespondError_def Let_def
        split: sum.splits prod.splits if_splits)
  obtain cs args i where b: "buildListWhere tid ?f True = (cs, args, i)" by (metis surj_pair)
  have "i = Suc (length args)" using buildListWhere_meaning(1) [of tid ?f True] b by (simp add: wf_where_def)
  with p b lim obtain t where
    ds: "ds = take (nat (f_Limit ?f))
      (sort_key (page_key E) (rows E t (rows_where E cs (args @ [AInt (f_Limit ?f)]) (db w1))))"
    by (auto simp: listPage_def wrapped_def run_pg query_def rejected_def Let_def split: if_splits)
  have "db w1 = db w" using c
    by (auto simp: listCount_def wrapped_def run_pg query_def split: prod.splits if_splits)
  with ds have "\<forall>x\<in>set ds. x \<in> set (discrepancies (db w)) \<and> matches E tid ?f x"
    by (auto simp: rows_where_meaning [OF b] dest!: in_set_takeD)
  moreover have "int (length ds) \<le> f_Limit ?f" using ds lim by simp
  ultimately show ?thesis using \<open>code = 200\<close> full lim by linarith
qed

text \<open>A cursor that is no identifier is answered with an internal error.\<close>

lemma bad_cursor:
  assumes "tenant_of E r tid" and "filters_ok (parseListFilters r)" and "no_faults E"
    and "f_Cursor (parseListFilters r) \<noteq> []" and "pg_uuid E (f_Cursor (parseListFilters r)) = None"
  shows "fst (run_state (DiscrepancyHandler_List E r) w) =
    RespondError 500 ''LIST_FAILED'' ''Failed to list discrepancies''"
proof -
  let ?f = "parseListFilters r"
  have lim: "1 \<le> f_Limit ?f" "f_Limit ?f \<le> 100" using parse_limit by auto
  obtain c w1 where c: "run_state (listCount E tid ?f) w = (c, w1)" by fastforce
  note count = listCount_result [OF assms(3,2) c]
  obtain cs args i where b: "buildListWhere tid ?f True = (cs, args, i)" by (metis surj_pair)
  have i: "i = Suc (length args)" and wf: "\<forall>c\<in>set cs. 1 \<le> clause_arg c \<and> clause_arg c \<le> length args"
    using buildListWhere_meaning(1) [of tid ?f True] b by (simp_all add: wf_where_def)
  have "\<not> list_all (clause_typed E (args @ [AInt (f_Limit ?f)])) cs"
    using buildListWhere_meaning(3) [OF assms(2), of E tid True] b assms(4,5)
    by (simp add: where_typed_def clauses_more(2) [OF wf])
  then have "\<exists>e. fst (run_state (listPage E tid ?f (f_Limit ?f)) w1) = Inl e"
    using b i by (simp add: listPage_def wrapped_def run_pg query_def rejected_def)
  then show ?thesis
    using c count lim assms(1)
    by (auto simp: DiscrepancyHandler_List_def DiscrepancyStore_List_def Let_def split_beta)
qed

section \<open>On a concrete table\<close>

definition list_request :: request where
  "list_request = (header_request [] [])\<lparr>ctx_tenant := ''5'', url_query := [(''limit'', ''1'')]\<rparr>"

definition list_world :: world where
  "list_world = sample_world (sample_db [sample_row StatusOpen None] [])"

lemma list_request_facts:
  "filters_ok (parseListFilters list_request)" "tenant_of calm list_request 5"
  "f_Limit (parseListFilters list_request) = 1"
  by (code_simp, simp add: tenant_of_def list_request_def, code_simp)

lemma list_world_facts: "sound calm (db list_world)" "length (discrepancies (db list_world)) = 1"
  using sample_sound [of "[]" "[]"] by (simp_all add: list_world_def sample_db_def)

theorem pagination_complete_witness:
  "\<exists>ds. fst (run_state (fetch_all calm list_request 2 []) list_world) = (ds, True)"
proof -
  have "length (filter (matches calm 5 (parseListFilters list_request)) (discrepancies (db list_world)))
      < 2 * nat (f_Limit (parseListFilters list_request))"
    using length_filter_le [of "matches calm 5 (parseListFilters list_request)" "discrepancies (db list_world)"]
    unfolding list_world_facts(2) list_request_facts(3) by simp
  from pagination_complete [OF _ codec_calm _ list_world_facts(1) list_request_facts(1,2) this]
  show ?thesis by (auto simp: no_faults_def uuid_of_text_def)
qed

lemma run_list:
  "\<exists>ds n next w'. run_state (DiscrepancyHandler_List calm list_request) list_world =
     (Reply 200 (Listed ds n next), w')"
proof -
  have c: "cursor_selects calm (db list_world) (f_Cursor (parseListFilters list_request)) None"
    by (simp add: cursor_selects_def parseListFilters_def list_request_def header_request_def Query_Get_def
        first_value_def Let_def)
  obtain out w1 where run: "run_state (DiscrepancyHandler_List calm list_request) list_world = (out, w1)"
    by fastforce
  have "no_faults calm" by (simp add: no_faults_def)
  from Listed_result [OF this list_world_facts(1) codec_calm list_request_facts(1) c list_request_facts(2) run refl]
  show ?thesis unfolding run by blast
qed

lemma list_answer_bounded_witness:
  "\<exists>ds n next w'. run_state (DiscrepancyHandler_List calm list_request) list_world =
     (Reply 200 (Listed ds n next), w') \<and> length ds \<le> 100"
  using run_list list_answer_bounded [OF list_request_facts(2)] by blast

end
