(* ===== verification/GoDate.thy ===== *)
theory GoDate
  imports GoText
begin

text \<open>
  Calendar dates as Go's \<open>time.Parse("2006-01-02", s)\<close> reads them and \<open>t.Format("2006-01-02")\<close> writes
  them, in UTC. A time is the number of nanoseconds since 1970-01-01 00:00 UTC, as everywhere in the
  development; the calendar is the proleptic Gregorian one.
\<close>

section \<open>The calendar\<close>

definition leap :: "int \<Rightarrow> bool" where
  "leap y \<longleftrightarrow> y mod 4 = 0 \<and> (y mod 100 \<noteq> 0 \<or> y mod 400 = 0)"

text \<open>Days from 0000-01-01 to the first day of the year \<open>y\<close>.\<close>

definition days_before_year :: "int \<Rightarrow> int" where
  "days_before_year y = 365 * y + (y + 3) div 4 - (y + 99) div 100 + (y + 399) div 400"

text \<open>Days of the year before the month \<open>m\<close> (from 1), and \<open>13\<close> for the end of the year.\<close>

definition days_before_month :: "bool \<Rightarrow> nat \<Rightarrow> int" where
  "days_before_month lp m =
     [0, 31, 59, 90, 120, 151, 181, 212, 243, 273, 304, 334, 365] ! (m - 1) + (if lp \<and> m > 2 then 1 else 0)"

definition day_number :: "int \<Rightarrow> nat \<Rightarrow> int \<Rightarrow> int" where
  "day_number y m d = days_before_year y + days_before_month (leap y) m + (d - 1)"

text \<open>The day number of 1970-01-01.\<close>

definition epoch_day :: int where
  "epoch_day = 719528"

definition ns_per_day :: int where
  "ns_per_day = 24 * 60 * 60 * 10 ^ 9"

section \<open>Parsing\<close>

definition valid_date :: "int \<Rightarrow> nat \<Rightarrow> int \<Rightarrow> bool" where
  "valid_date y m d \<longleftrightarrow> 1 \<le> m \<and> m \<le> 12 \<and> 1 \<le> d \<and>
     d \<le> days_before_month (leap y) (m + 1) - days_before_month (leap y) m"

definition parse_fields :: "string \<Rightarrow> (int \<times> nat \<times> int) option" where
  "parse_fields s =
     (if length s = 10 \<and> s ! 4 = CHR ''-'' \<and> s ! 7 = CHR ''-'' \<and>
         list_all is_digit (take 4 s @ take 2 (drop 5 s) @ drop 8 s)
      then (let y = digits_val (take 4 s); m = nat (digits_val (take 2 (drop 5 s))); d = digits_val (drop 8 s)
            in if valid_date y m d then Some (y, m, d) else None)
      else None)"

definition parse_date :: "string \<Rightarrow> int option" where
  "parse_date s =
     (case parse_fields s of None \<Rightarrow> None
      | Some (y, m, d) \<Rightarrow> Some ((day_number y m d - epoch_day) * ns_per_day))"

section \<open>Formatting\<close>

text \<open>The last \<open>k\<close> decimal digits.\<close>

primrec pad :: "nat \<Rightarrow> int \<Rightarrow> string" where
  "pad 0 n = []"
| "pad (Suc k) n = pad k (n div 10) @ [char_of (48 + nat (n mod 10))]"

text \<open>The year and the month a day lies in, found from an estimate of the year.\<close>

definition year_of :: "int \<Rightarrow> int option" where
  "year_of n =
     (let g = n * 400 div 146097 in
      find (\<lambda>y. days_before_year y \<le> n \<and> n < days_before_year (y + 1)) [g - 1, g, g + 1])"

definition month_of :: "bool \<Rightarrow> int \<Rightarrow> nat option" where
  "month_of lp k = find (\<lambda>m. days_before_month lp m \<le> k \<and> k < days_before_month lp (m + 1)) [1..<13]"

text \<open>Years with four digits; the program only formats dates it has parsed.\<close>

definition format_date :: "int \<Rightarrow> string option" where
  "format_date t =
     (let n = t div ns_per_day + epoch_day in
      case year_of n of None \<Rightarrow> None
      | Some y \<Rightarrow>
     (case month_of (leap y) (n - days_before_year y) of None \<Rightarrow> None
      | Some m \<Rightarrow> Some (pad 4 y @ ''-'' @ pad 2 (int m) @ ''-'' @
          pad 2 (n - days_before_year y - days_before_month (leap y) m + 1))))"

section \<open>Reading back what was written\<close>

lemma div_bounds: "0 < b \<Longrightarrow> b * (x div b) \<le> x \<and> x < b * (x div b) + b" for b :: int
  using div_mult_mod_eq [of x b] pos_mod_bound [of b x] pos_mod_sign [of b x] by (smt (verit) mult.commute)

lemma ceiling_step:
  fixes b :: int
  assumes "0 < b" and c: "c = b - 1"
  shows "(y + 1 + c) div b = (y + c) div b + (if y mod b = 0 then 1 else 0)"
proof -
  let ?q = "y div b"
  have y: "y = b * ?q + y mod b" by simp
  have r: "0 \<le> y mod b" "y mod b < b" using assms by simp_all
  have low: "(y + (b - 1)) div b = (if y mod b = 0 then ?q else ?q + 1)"
  proof (cases "y mod b = 0")
    case True
    then have "y + (b - 1) = b * ?q + (b - 1)" using y by linarith
    then have "(y + (b - 1)) div b = ?q" by (rule int_div_pos_eq) (use assms in linarith)+
    with True show ?thesis by simp
  next
    case False
    have "y + (b - 1) = b * (?q + 1) + (y mod b - 1)" using y by (simp add: distrib_left)
    then have "(y + (b - 1)) div b = ?q + 1" by (rule int_div_pos_eq) (use r False in linarith)+
    with False show ?thesis by simp
  qed
  have "y + 1 + (b - 1) = b * (?q + 1) + y mod b" using y by (simp add: distrib_left)
  then have "(y + 1 + (b - 1)) div b = ?q + 1" by (rule int_div_pos_eq) (use r in linarith)+
  with low show ?thesis unfolding c by simp
qed

lemma year_step: "days_before_year (y + 1) = days_before_year y + (if leap y then 366 else 365)"
proof -
  define A B C where "A = (y + 3) div 4" and "B = (y + 99) div 100" and "C = (y + 399) div 400"
  have steps: "(y + 1 + 3) div 4 = A + (if y mod 4 = 0 then 1 else 0)"
    "(y + 1 + 99) div 100 = B + (if y mod 100 = 0 then 1 else 0)"
    "(y + 1 + 399) div 400 = C + (if y mod 400 = 0 then 1 else 0)"
    unfolding A_def B_def C_def by (rule ceiling_step; simp)+
  define p q r where "p \<longleftrightarrow> y mod 4 = 0" and "q \<longleftrightarrow> y mod 100 = 0" and "r \<longleftrightarrow> y mod 400 = 0"
  have "r \<Longrightarrow> q" and "q \<Longrightarrow> p"
    unfolding p_def q_def r_def mod_eq_0_iff_dvd
    by (rule dvd_trans [of 100 400]; simp) (rule dvd_trans [of 4 100]; simp)
  moreover have "leap y \<longleftrightarrow> p \<and> (\<not> q \<or> r)" by (simp add: leap_def p_def q_def r_def)
  ultimately show ?thesis
    unfolding days_before_year_def steps A_def [symmetric] B_def [symmetric] C_def [symmetric]
      p_def [symmetric] q_def [symmetric] r_def [symmetric]
    by (cases p; cases q; cases r; simp)
qed

lemma year_mono: "a \<le> b \<Longrightarrow> days_before_year a \<le> days_before_year b"
  by (induction b rule: int_ge_induct) (auto simp: year_step)

lemma year_bounds:
  "146097 * y - 500 \<le> 400 * days_before_year y" "400 * days_before_year y \<le> 146097 * y + 1200"
proof -
  obtain A B C where div: "(y + 3) div 4 = A" "(y + 99) div 100 = B" "(y + 399) div 400 = C" by blast
  have "4 * A \<le> y + 3" "y + 3 < 4 * A + 4" "100 * B \<le> y + 99" "y + 99 < 100 * B + 100"
    "400 * C \<le> y + 399" "y + 399 < 400 * C + 400"
    using div_bounds [of 4 "y + 3"] div_bounds [of 100 "y + 99"] div_bounds [of 400 "y + 399"]
    unfolding div by simp_all
  then have "146097 * y - 500 \<le> 400 * (365 * y + A - B + C)" and "400 * (365 * y + A - B + C) \<le> 146097 * y + 1200"
    by simp_all
  then show "146097 * y - 500 \<le> 400 * days_before_year y" "400 * days_before_year y \<le> 146097 * y + 1200"
    unfolding days_before_year_def div by simp_all
qed

text \<open>The one element of a list that a test accepts.\<close>

lemma find_only: "x \<in> set xs \<Longrightarrow> (\<And>z. z \<in> set xs \<Longrightarrow> P z \<longleftrightarrow> z = x) \<Longrightarrow> find P xs = Some x"
  by (induction xs) auto

lemma month_cases:
  "1 \<le> m \<Longrightarrow> m \<le> 12 \<Longrightarrow> m = 1 \<or> m = 2 \<or> m = 3 \<or> m = 4 \<or> m = 5 \<or> m = 6 \<or> m = 7 \<or> m = 8 \<or> m = 9 \<or> m = 10 \<or>
     m = 11 \<or> m = (12 :: nat)"
  by presburger

lemma days_before_month_13: "days_before_month lp 13 = (if lp then 366 else 365)"
  by (simp add: days_before_month_def)

lemma year_of_day:
  assumes "days_before_year y \<le> n" and "n < days_before_year (y + 1)"
  shows "year_of n = Some y"
proof -
  have only: "y' = y" if "days_before_year y' \<le> n" "n < days_before_year (y' + 1)" for y'
    using that assms year_mono [of "y' + 1" y] year_mono [of "y + 1" y'] by linarith
  obtain g where g: "n * 400 div 146097 = g" by blast
  have "146097 * g \<le> n * 400" "n * 400 < 146097 * g + 146097"
    using div_bounds [of 146097 "n * 400"] unfolding g by simp_all
  moreover have "146097 * y - 500 \<le> 400 * n" and "400 * n < 146097 * (y + 1) + 1200"
    using assms year_bounds(1) [of y] year_bounds(2) [of "y + 1"] by simp_all
  ultimately have "g - 1 \<le> y" and "y \<le> g + 1" by simp_all
  then have "y \<in> set [g - 1, g, g + 1]" by auto
  moreover have "(days_before_year z \<le> n \<and> n < days_before_year (z + 1)) \<longleftrightarrow> z = y" for z
    using assms only by blast
  ultimately show ?thesis unfolding year_of_def Let_def g by (rule find_only)
qed

lemma month_step: "1 \<le> m \<Longrightarrow> m \<le> 12 \<Longrightarrow> days_before_month lp m \<le> days_before_month lp (m + 1)"
  using month_cases [of m] by (auto simp: days_before_month_def)

lemma month_mono: "a \<le> b \<Longrightarrow> 1 \<le> a \<Longrightarrow> b \<le> 13 \<Longrightarrow> days_before_month lp a \<le> days_before_month lp b"
proof (induction b rule: dec_induct)
  case (step m)
  then show ?case using month_step [of m lp] by simp
qed simp

lemma month_of_day:
  assumes "1 \<le> m" and "m \<le> 12" and "days_before_month lp m \<le> k" and "k < days_before_month lp (m + 1)"
  shows "month_of lp k = Some m"
  unfolding month_of_def
proof (rule find_only)
  fix z
  assume "z \<in> set [1..<13]"
  then show "(days_before_month lp z \<le> k \<and> k < days_before_month lp (z + 1)) \<longleftrightarrow> z = m"
    using assms month_mono [of "z + 1" m lp] month_mono [of "m + 1" z lp] by (cases z m rule: linorder_cases) auto
qed (use assms in auto)

lemma digit_char: "is_digit c \<Longrightarrow> 0 \<le> digit_val c \<and> digit_val c < 10 \<and> char_of (48 + nat (digit_val c)) = c"
  by (auto simp: is_digit_def digit_val_def; code_simp)

lemma digits_val_snoc: "digits_val (s @ [c]) = 10 * digits_val s + digit_val c"
  by (simp add: digits_val_def)

lemma pad_digits: "list_all is_digit s \<Longrightarrow> pad (length s) (digits_val s) = s \<and> 0 \<le> digits_val s"
proof (induction s rule: rev_induct)
  case (snoc c s)
  then show ?case using digit_char [of c] by (simp add: digits_val_snoc)
qed (simp add: digits_val_def)

text \<open>
  The round trip: any time of the day of a parsed date is formatted as the text of that date. In
  particular a report prints the dates it was asked for.
\<close>

lemma format_parse:
  assumes "parse_date s = Some t" and "0 \<le> k" and "k < ns_per_day"
  shows "format_date (t + k) = Some s"
proof -
  from assms(1) obtain y m d where f: "parse_fields s = Some (y, m, d)"
    and t: "t = (day_number y m d - epoch_day) * ns_per_day"
    by (auto simp: parse_date_def split: option.splits prod.splits)
  then have len: "length s = 10" and dash: "s ! 4 = CHR ''-''" "s ! 7 = CHR ''-''"
    and dig: "list_all is_digit (take 4 s)" "list_all is_digit (take 2 (drop 5 s))" "list_all is_digit (drop 8 s)"
    and v: "valid_date y m d" and y: "y = digits_val (take 4 s)"
    and m: "m = nat (digits_val (take 2 (drop 5 s)))" and d: "d = digits_val (drop 8 s)"
    by (auto simp: parse_fields_def Let_def split: if_splits)
  have pads: "pad 4 y = take 4 s" "pad 2 (int m) = take 2 (drop 5 s)" "pad 2 d = drop 8 s"
    using pad_digits [OF dig(1)] pad_digits [OF dig(2)] pad_digits [OF dig(3)] len
    by (simp_all add: y m d)
  have "s = take 4 s @ s ! 4 # take 2 (drop 5 s) @ s ! 7 # drop 8 s"
    using len by (simp add: list_eq_iff_nth_eq nth_append nth_Cons' less_Suc_eq numeral_eq_Suc)
  then have s: "take 4 s @ ''-'' @ take 2 (drop 5 s) @ ''-'' @ drop 8 s = s" using dash by simp
  let ?k = "days_before_month (leap y) m + (d - 1)"
  have day: "(t + k) div ns_per_day + epoch_day = days_before_year y + ?k"
    using assms(2,3) by (simp add: t day_number_def)
  have month: "days_before_month (leap y) m \<le> ?k" "?k < days_before_month (leap y) (m + 1)"
    "1 \<le> m" "m \<le> 12" using v by (auto simp: valid_date_def)
  have "days_before_month (leap y) (m + 1) \<le> days_before_month (leap y) 13"
    using month(3,4) by (intro month_mono) simp_all
  moreover have "0 \<le> days_before_month (leap y) m"
    using month_mono [of 1 m "leap y"] month(3,4) by (simp add: days_before_month_def)
  ultimately have "days_before_year y \<le> days_before_year y + ?k" and "days_before_year y + ?k < days_before_year (y + 1)"
    using month by (simp_all add: year_step days_before_month_13)
  then have "year_of (days_before_year y + ?k) = Some y" by (rule year_of_day)
  moreover have "month_of (leap y) ?k = Some m" by (rule month_of_day) fact+
  ultimately show ?thesis
    unfolding format_date_def Let_def day using pads s by simp
qed

end
