(* ===== verification/Files.thy ===== *)
theory Files
  imports Http
begin

text \<open>
  Files and paths: the file system the reports are kept in, with the calls of \<open>os\<close> that the program
  makes, and \<open>path/filepath\<close>. A file is its content; directories matter only through the error of
  \<open>MkdirAll\<close>. Which calls fail is a parameter, as for the statements of the database.
\<close>

section \<open>Paths\<close>

fun segments :: "string \<Rightarrow> string list" where
  "segments [] = [[]]"
| "segments (c # s) =
     (if c = CHR ''/'' then [] # segments s
      else (case segments s of [] \<Rightarrow> [[c]] | p # ps \<Rightarrow> (c # p) # ps))"

text \<open>\<open>filepath.Clean\<close>: the segments that are left, in reverse, while reading a path.\<close>

fun clean_onto :: "bool \<Rightarrow> string list \<Rightarrow> string list \<Rightarrow> string list" where
  "clean_onto rooted acc [] = acc"
| "clean_onto rooted acc (p # ps) =
     (if p = [] \<or> p = ''.'' then clean_onto rooted acc ps
      else if p = ''..'' then
        (case acc of
           [] \<Rightarrow> clean_onto rooted (if rooted then [] else [p]) ps
         | q # qs \<Rightarrow> clean_onto rooted (if q = ''..'' then p # acc else qs) ps)
      else clean_onto rooted (p # acc) ps)"

fun join_segments :: "string list \<Rightarrow> string" where
  "join_segments [] = []"
| "join_segments [p] = p"
| "join_segments (p # ps) = p @ ''/'' @ join_segments ps"

definition rooted :: "string \<Rightarrow> bool" where
  "rooted s \<longleftrightarrow> s \<noteq> [] \<and> s ! 0 = CHR ''/''"

definition Clean :: "string \<Rightarrow> string" where
  "Clean s =
     (let ps = rev (clean_onto (rooted s) [] (segments s))
      in if rooted s then ''/'' @ join_segments ps
         else if ps = [] then ''.'' else join_segments ps)"

text \<open>\<open>filepath.Join\<close> of two elements: an empty one is left out.\<close>

definition Join2 :: "string \<Rightarrow> string \<Rightarrow> string" where
  "Join2 a b =
     (if a = [] \<and> b = [] then [] else if a = [] then Clean b else if b = [] then Clean a
      else Clean (a @ ''/'' @ b))"

definition Base :: "string \<Rightarrow> string" where
  "Base s =
     (if s = [] then ''.''
      else (let t = rev (dropWhile (\<lambda>c. c = CHR ''/'') (rev s)) in
            if t = [] then ''/'' else last (segments t)))"

definition Ext :: "string \<Rightarrow> string" where
  "Ext s =
     (let p = last (segments s) in
      if CHR ''.'' \<in> set p then CHR ''.'' # rev (takeWhile (\<lambda>c. c \<noteq> CHR ''.'') (rev p)) else [])"

section \<open>The file system\<close>

text \<open>
  \<open>fs_error\<close>: the call at this tick fails; \<open>torn\<close>: what a failing write leaves in the file;
  \<open>temp_name\<close>: the name \<open>os.CreateTemp\<close> picks; \<open>has_converter\<close>: \<open>wkhtmltopdf\<close> is on the path;
  \<open>converter\<close>: what it makes of the content of an HTML file; \<open>execute_template\<close>: \<open>html/template\<close> on one of
  the embedded files; \<open>rfc3339\<close>: a time in the zone of the process.
\<close>

record host =
  fs_error :: "nat \<Rightarrow> string option"
  torn :: "nat \<Rightarrow> string option"
  temp_name :: "nat \<Rightarrow> string"
  has_converter :: "nat \<Rightarrow> bool"
  converter :: "nat \<Rightarrow> string \<Rightarrow> string result"
  rfc3339 :: "gotime \<Rightarrow> string"

record disk_world =
  dw :: world
  files :: "string \<Rightarrow> string option"

definition on_world :: "(world, 'a) state \<Rightarrow> (disk_world, 'a) state" where
  "on_world m = State (\<lambda>s. case run_state m (dw s) of (x, w) \<Rightarrow> (x, s\<lparr>dw := w\<rparr>))"

lemma run_on_world [simp]:
  "run_state (on_world m) s = (fst (run_state m (dw s)), s\<lparr>dw := snd (run_state m (dw s))\<rparr>)"
  by (simp add: on_world_def split_beta)

definition disk_tick :: "(disk_world, nat) state" where
  "disk_tick = on_world next_tick"

lemma run_disk_tick [simp]:
  "run_state disk_tick s = (tick (dw s), s\<lparr>dw := (dw s)\<lparr>tick := Suc (tick (dw s))\<rparr>\<rparr>)"
  by (simp add: disk_tick_def)

definition MkdirAll :: "host \<Rightarrow> (disk_world, unit result) state" where
  "MkdirAll H = do {
     t \<leftarrow> disk_tick;
     ret (case fs_error H t of Some e \<Rightarrow> Inl (ErrText e) | None \<Rightarrow> Inr ())
   }"

definition WriteFile :: "host \<Rightarrow> string \<Rightarrow> string \<Rightarrow> (disk_world, unit result) state" where
  "WriteFile H path content = do {
     t \<leftarrow> disk_tick;
     case fs_error H t of
       Some e \<Rightarrow> do { modify (\<lambda>s. s\<lparr>files := (files s)(path := torn H t)\<rparr>); ret (Inl (ErrText e)) }
     | None \<Rightarrow> do { modify (\<lambda>s. s\<lparr>files := (files s)(path \<mapsto> content)\<rparr>); ret (Inr ()) }
   }"

text \<open>An error of \<open>Stat\<close> or \<open>Remove\<close>: the file does not exist, or anything else.\<close>

datatype path_error = NotExist | PathError string

definition Stat :: "host \<Rightarrow> string \<Rightarrow> (disk_world, path_error + nat) state" where
  "Stat H path = do {
     t \<leftarrow> disk_tick;
     s \<leftarrow> State_Monad.get;
     ret (case fs_error H t of Some e \<Rightarrow> Inl (PathError e)
          | None \<Rightarrow> (case files s path of None \<Rightarrow> Inl NotExist | Some c \<Rightarrow> Inr (length c)))
   }"

definition Remove :: "host \<Rightarrow> string \<Rightarrow> (disk_world, path_error + unit) state" where
  "Remove H path = do {
     t \<leftarrow> disk_tick;
     s \<leftarrow> State_Monad.get;
     case fs_error H t of
       Some e \<Rightarrow> ret (Inl (PathError e))
     | None \<Rightarrow>
         (case files s path of None \<Rightarrow> ret (Inl NotExist)
          | Some c \<Rightarrow> do { modify (\<lambda>s. s\<lparr>files := (files s)(path := None)\<rparr>); ret (Inr ()) })
   }"

section \<open>What programs with files do to the tables\<close>

definition disk_rel :: "(database \<Rightarrow> database \<Rightarrow> bool) \<Rightarrow> disk_world \<Rightarrow> disk_world \<Rightarrow> bool" where
  "disk_rel R s s' \<longleftrightarrow> R (db (dw s)) (db (dw s'))"

locale disk_relation = table_relation
begin

sublocale disk: step_preorder "disk_rel R"
  by unfold_locales (auto simp: disk_rel_def intro: base.step_refl base.step_trans)

lemma io_on_world: "state_io_rel (db_rel R) m \<Longrightarrow> state_io_rel (disk_rel R) (on_world m)"
  by (auto simp: state_io_rel_def disk_rel_def db_rel_def)

lemma io_disk_only: "(\<And>s. db (dw (snd (run_state m s))) = db (dw s)) \<Longrightarrow> state_io_rel (disk_rel R) m"
  by (auto simp: state_io_rel_def disk_rel_def base.step_refl)

lemma io_disk_ops:
  "state_io_rel (disk_rel R) disk_tick" "state_io_rel (disk_rel R) (MkdirAll H)"
  "state_io_rel (disk_rel R) (WriteFile H path c)" "state_io_rel (disk_rel R) (Stat H path)"
  "state_io_rel (disk_rel R) (Remove H path)"
  "(\<And>s. dw (f s) = dw s) \<Longrightarrow> state_io_rel (disk_rel R) (modify f)"
  by (auto intro!: io_disk_only simp: MkdirAll_def WriteFile_def Stat_def Remove_def split: option.split)

lemmas io_disk = disk.io_rules io_disk_ops io_on_world

end

section \<open>Facts about paths\<close>

text \<open>A name that is one segment of a path and stays as it is.\<close>

definition plain_name :: "string \<Rightarrow> bool" where
  "plain_name p \<longleftrightarrow> p \<noteq> [] \<and> p \<noteq> ''.'' \<and> p \<noteq> ''..'' \<and> CHR ''/'' \<notin> set p"

lemma segments_not_Nil [simp]: "segments s \<noteq> []"
  by (induction s) (auto split: list.split)

lemma segments_plain: "CHR ''/'' \<notin> set s \<Longrightarrow> segments s = [s]"
  by (induction s) auto

lemma segments_append: "segments (s @ ''/'' @ t) = segments s @ segments t"
proof (induction s)
  case (Cons c s)
  then show ?case by (cases "segments s") auto
qed simp

lemma clean_onto_snoc:
  assumes "plain_name p"
  shows "clean_onto r acc (ps @ [p]) = p # clean_onto r acc ps"
  using assms by (induction r acc ps rule: clean_onto.induct) (auto simp: plain_name_def split: list.split)

lemma last_join:
  assumes "CHR ''/'' \<notin> set p"
  shows "last (segments (join_segments (ps @ [p]))) = p"
proof (induction ps rule: join_segments.induct)
  case 1
  then show ?case using assms by (simp add: segments_plain)
next
  case (2 q)
  have "join_segments ([q] @ [p]) = q @ ''/'' @ p" by simp
  then show ?case using assms by (metis last_appendR last.simps list.distinct(1) segments_append segments_plain)
next
  case (3 q q' qs)
  have "join_segments ((q # q' # qs) @ [p]) = q @ ''/'' @ join_segments ((q' # qs) @ [p])" by simp
  then show ?case using 3 by (metis last_appendR segments_append segments_not_Nil)
qed

text \<open>Joining a plain name to a directory gives a path whose last segment is that name.\<close>

lemma last_segment_Join2:
  assumes "plain_name p"
  shows "last (segments (Join2 d p)) = p"
proof -
  have slash: "CHR ''/'' \<notin> set p" and p: "p \<noteq> []" using assms by (simp_all add: plain_name_def)
  show ?thesis
  proof (cases "d = []")
    case True
    have "\<not> rooted p" using slash p by (cases p) (auto simp: rooted_def)
    moreover have "clean_onto False [] [p] = [p]" using assms by (simp add: plain_name_def)
    ultimately show ?thesis using True p slash by (simp add: Join2_def Clean_def segments_plain)
  next
    case False
    have "segments (d @ ''/'' @ p) = segments d @ [p]"
      unfolding segments_append segments_plain [OF slash] ..
    then have "rev (clean_onto r [] (segments (d @ ''/'' @ p))) = rev (clean_onto r [] (segments d)) @ [p]" for r
      using clean_onto_snoc [OF assms] by simp
    then have "Join2 d p = (if rooted (d @ ''/'' @ p) then ''/'' else []) @
        join_segments (rev (clean_onto (rooted (d @ ''/'' @ p)) [] (segments d)) @ [p])"
      using False p by (simp add: Join2_def Clean_def Let_def)
    then show ?thesis using last_join [OF slash] by (cases "rooted (d @ ''/'' @ p)") simp_all
  qed
qed

lemma Join2_inj:
  "plain_name p \<Longrightarrow> plain_name q \<Longrightarrow> Join2 d p = Join2 e q \<Longrightarrow> p = q"
  by (metis last_segment_Join2)

end
