(* ===== verification/Reports.thy ===== *)
theory Reports
  imports ReportStore Paging GoDate Files
begin

text \<open>
  \<open>internal/report\<close>: the aggregation of \<open>data.go\<close>, the generation of \<open>generator.go\<close>, and \<open>render.go\<close>.
  A panic of the goroutine that generates a report is the outcome \<open>None\<close>. A \<open>float64\<close> is an exact
  rational here, as everywhere in the development; the templates are run by \<open>html/template\<close>, a
  parameter.
\<close>

section \<open>data.go\<close>

record ReportData =
  TenantName :: string
  ReportTitle :: string
  rd_DateFrom :: string
  rd_DateTo :: string
  GeneratedAt :: string
  TotalDiscrepancies :: nat
  ByStatus :: "string \<Rightarrow> nat option"
  BySeverity :: "string \<Rightarrow> nat option"
  TotalEvents :: nat
  ByEventType :: "string \<Rightarrow> nat option"
  MeanResolutionHours :: rat
  Discrepancies :: "discrepancy list"
  Events :: "ledger_event list"
  EventsTruncated :: bool
  OriginalEventCount :: nat

text \<open>\<open>m[k]++\<close>.\<close>

definition bump :: "string \<Rightarrow> (string \<Rightarrow> nat option) \<Rightarrow> string \<Rightarrow> nat option" where
  "bump k m = m(k \<mapsto> (case m k of None \<Rightarrow> 0 | Some n \<Rightarrow> n) + 1)"

text \<open>\<open>t.Sub(u).Hours()\<close>; \<open>Sub\<close> saturates at the limits of \<open>int64\<close>.\<close>

definition time_sub :: "gotime \<Rightarrow> gotime \<Rightarrow> int" where
  "time_sub t u = max (- (2 ^ 63)) (min (2 ^ 63 - 1) (t - u))"

definition hours :: "int \<Rightarrow> rat" where
  "hours dur = of_int dur / (3600 * 10 ^ 9)"

record disc_stats =
  st_total :: nat
  st_status :: "string \<Rightarrow> nat option"
  st_severity :: "string \<Rightarrow> nat option"
  st_hours :: rat
  st_resolved :: nat

definition disc_stats_step :: "disc_stats \<Rightarrow> discrepancy \<Rightarrow> disc_stats" where
  "disc_stats_step a d =
     (let b = a\<lparr>st_total := st_total a + 1, st_status := bump (d_status d) (st_status a),
                st_severity := bump (d_severity d) (st_severity a)\<rparr>
      in case d_resolved_at d of
           None \<Rightarrow> b
         | Some r \<Rightarrow>
             if r = zero_time then b
             else b\<lparr>st_hours := st_hours a + hours (time_sub r (d_created_at d)), st_resolved := st_resolved a + 1\<rparr>)"

definition no_disc_stats :: disc_stats where
  "no_disc_stats = \<lparr>st_total = 0, st_status = Map.empty, st_severity = Map.empty, st_hours = 0, st_resolved = 0\<rparr>"

text \<open>
  \<open>events[:maxEvents]\<close> panics on a negative bound; the header fields are empty until the generator
  fills them in.
\<close>

definition aggregateReportData ::
  "discrepancy list \<Rightarrow> ledger_event list \<Rightarrow> int \<Rightarrow> ReportData option" where
  "aggregateReportData discs evs maxEvents =
     (let a = foldl disc_stats_step no_disc_stats discs;
          byType = foldl (\<lambda>m e. bump (e_event_type e) m) Map.empty evs;
          over = int (length evs) > maxEvents
      in if over \<and> maxEvents < 0 then None
         else Some \<lparr>TenantName = [], ReportTitle = [], rd_DateFrom = [], rd_DateTo = [], GeneratedAt = [],
           TotalDiscrepancies = st_total a, ByStatus = st_status a, BySeverity = st_severity a,
           TotalEvents = length evs, ByEventType = byType,
           MeanResolutionHours = (if st_resolved a > 0 then st_hours a / of_nat (st_resolved a) else 0),
           Discrepancies = discs, Events = (if over then take (nat maxEvents) evs else evs),
           EventsTruncated = over, OriginalEventCount = length evs\<rparr>)"

section \<open>render.go\<close>

definition templateMap :: "(string \<times> string) list" where
  "templateMap =
     [(ReportTypeDailySummary, ''templates/daily_summary.html''),
      (ReportTypeMonthlyAudit, ''templates/monthly_audit.html''),
      (ReportTypeDiscrepancyDetail, ''templates/discrepancy_detail.html''),
      (ReportTypeCustom, ''templates/daily_summary.html'')]"

text \<open>\<open>html/template\<close> on the embedded file of that name.\<close>

type_synonym template_engine = "string \<Rightarrow> ReportData \<Rightarrow> string result"

definition renderTemplate :: "template_engine \<Rightarrow> string \<Rightarrow> ReportData \<Rightarrow> string result" where
  "renderTemplate run reportType rd =
     (case map_of templateMap reportType of
        None \<Rightarrow> Inl (ErrText (''unknown report type: '' @ reportType))
      | Some file \<Rightarrow> (case run file rd of
            Inl e \<Rightarrow> Inl (wrap (''execute template '' @ file) e)
          | Inr html \<Rightarrow> Inr html))"

definition saveReportFile ::
  "host \<Rightarrow> string \<Rightarrow> string \<Rightarrow> string \<Rightarrow> string \<Rightarrow> string \<Rightarrow> (disk_world, (string \<times> nat) result) state" where
  "saveReportFile H storagePath tenantID reportID content ext = do {
     made \<leftarrow> MkdirAll H;
     case made of
       Inl e \<Rightarrow> ret (Inl (wrap ''create report directory'' e))
     | Inr _ \<Rightarrow> (let filePath = Join2 (Join2 storagePath tenantID) (reportID @ ext) in do {
         written \<leftarrow> WriteFile H filePath content;
         ret (case written of
                Inl e \<Rightarrow> Inl (wrap ''write report file'' e)
              | Inr _ \<Rightarrow> Inr (filePath, length content))
       })
   }"

definition checkWkhtmltopdfAvailable :: "host \<Rightarrow> (disk_world, bool) state" where
  "checkWkhtmltopdfAvailable H = do { t \<leftarrow> disk_tick; ret (has_converter H t) }"

text \<open>The converter reads the HTML file and writes the PDF file, or leaves anything there.\<close>

definition convertHTMLToPDF :: "host \<Rightarrow> string \<Rightarrow> string \<Rightarrow> (disk_world, unit result) state" where
  "convertHTMLToPDF H htmlPath pdfPath = do {
     t \<leftarrow> disk_tick;
     s \<leftarrow> State_Monad.get;
     case converter H t (case files s htmlPath of None \<Rightarrow> [] | Some c \<Rightarrow> c) of
       Inl e \<Rightarrow> do { modify (\<lambda>s. s\<lparr>files := (files s)(pdfPath := torn H t)\<rparr>); ret (Inl (wrap ''wkhtmltopdf'' e)) }
     | Inr pdf \<Rightarrow> do { modify (\<lambda>s. s\<lparr>files := (files s)(pdfPath \<mapsto> pdf)\<rparr>); ret (Inr ()) }
   }"

text \<open>\<open>formatNumber\<close>: a comma before every group of three characters but the first.\<close>

definition formatNumber :: "int \<Rightarrow> string" where
  "formatNumber n =
     (let s = show_int n in
      if length s \<le> 3 then s
      else concat (map (\<lambda>(i, c). if i > 0 \<and> (length s - i) mod 3 = 0 then [CHR '','', c] else [c])
             (enumerate 0 s)))"

section \<open>generator.go\<close>

record report_generator =
  rg_storagePath :: string
  rg_maxEvents :: int
  rg_templates :: template_engine

definition NewReportGenerator :: "string \<Rightarrow> int \<Rightarrow> template_engine \<Rightarrow> report_generator" where
  "NewReportGenerator storagePath maxEvents templates =
     \<lparr>rg_storagePath = storagePath, rg_maxEvents = maxEvents, rg_templates = templates\<rparr>"

text \<open>The end of the day of \<open>date_to\<close> is its last full second.\<close>

definition parseDateRange :: "jobject \<Rightarrow> (gotime \<times> gotime) result" where
  "parseDateRange params =
     (case jstring params ''date_from'' of
        None \<Rightarrow> Inl (ErrText ''missing date_from parameter'')
      | Some fromStr \<Rightarrow>
     if fromStr = [] then Inl (ErrText ''missing date_from parameter'') else
     (case jstring params ''date_to'' of
        None \<Rightarrow> Inl (ErrText ''missing date_to parameter'')
      | Some toStr \<Rightarrow>
     if toStr = [] then Inl (ErrText ''missing date_to parameter'') else
     (case parse_date fromStr of
        None \<Rightarrow> Inl (ErrText ''invalid date_from'')
      | Some from_time \<Rightarrow>
     (case parse_date toStr of
        None \<Rightarrow> Inl (ErrText ''invalid date_to'')
      | Some to_time \<Rightarrow> Inr (from_time, to_time + (23 * 3600 + 59 * 60 + 59) * 10 ^ 9)))))"

text \<open>\<open>failReport\<close>: the status update may fail too; the error is the original one.\<close>

definition failReport ::
  "env \<Rightarrow> uuid \<Rightarrow> uuid \<Rightarrow> string \<Rightarrow> goerr \<Rightarrow> (disk_world, unit result option) state" where
  "failReport E tid reportID step original = do {
     _ \<leftarrow> on_world (ReportStore_UpdateStatus E tid reportID ReportStatusFailed None None);
     ret (Some (Inl (wrap (''report generation failed at '' @ step) original)))
   }"

text \<open>\<open>saveAsPDF\<close> from the PDF path on, and its frame: the temporary file and its deferred removal.\<close>

definition pdf_or_html ::
  "host \<Rightarrow> report_generator \<Rightarrow> string \<Rightarrow> string \<Rightarrow> string \<Rightarrow> string \<Rightarrow> (disk_world, (string \<times> nat) result) state" where
  "pdf_or_html H g tenantID reportID html tmp = do {
     saved \<leftarrow> saveReportFile H (rg_storagePath g) tenantID reportID [] ''.pdf'';
     case saved of
       Inl e \<Rightarrow> ret (Inl e)
     | Inr (pdfPath, _) \<Rightarrow> do {
         converted \<leftarrow> convertHTMLToPDF H tmp pdfPath;
         case converted of
           Inl e \<Rightarrow> do {
             _ \<leftarrow> Remove H pdfPath;
             saveReportFile H (rg_storagePath g) tenantID reportID html ''.html''
           }
         | Inr _ \<Rightarrow> do {
             info \<leftarrow> Stat H pdfPath;
             ret (case info of
                    Inl e \<Rightarrow> Inl (ErrText ''stat PDF'')
                  | Inr n \<Rightarrow> Inr (pdfPath, n))
           }
       }
   }"

definition saveAsPDF ::
  "host \<Rightarrow> report_generator \<Rightarrow> string \<Rightarrow> string \<Rightarrow> string \<Rightarrow> (disk_world, (string \<times> nat) result) state" where
  "saveAsPDF H g tenantID reportID html = do {
     t \<leftarrow> disk_tick;
     case fs_error H t of
       Some e \<Rightarrow> ret (Inl (wrap ''create temp file'' (ErrText e)))
     | None \<Rightarrow> (let tmp = temp_name H t in do {
         modify (\<lambda>s. s\<lparr>files := (files s)(tmp \<mapsto> [])\<rparr>);
         written \<leftarrow> WriteFile H tmp html;
         out \<leftarrow> (case written of
             Inl e \<Rightarrow> ret (Inl (wrap ''write temp file'' e))
           | Inr _ \<Rightarrow> pdf_or_html H g tenantID reportID html tmp);
         _ \<leftarrow> Remove H tmp;
         ret out
       })
   }"

definition saveOutput ::
  "host \<Rightarrow> report_generator \<Rightarrow> string \<Rightarrow> string \<Rightarrow> string \<Rightarrow> (disk_world, (string \<times> nat) result) state" where
  "saveOutput H g tenantID reportID html = do {
     available \<leftarrow> checkWkhtmltopdfAvailable H;
     if available then saveAsPDF H g tenantID reportID html
     else saveReportFile H (rg_storagePath g) tenantID reportID html ''.html''
   }"

text \<open>The events of the listed discrepancies; one whose query fails is skipped.\<close>

primrec collect_events ::
  "env \<Rightarrow> uuid \<Rightarrow> discrepancy list \<Rightarrow> ledger_event list \<Rightarrow> (world, ledger_event list) state" where
  "collect_events E tid [] acc = ret acc"
| "collect_events E tid (d # ds) acc =
     (case uuid_parse E (d_id d) of
        None \<Rightarrow> collect_events E tid ds acc
      | Some discID \<Rightarrow> do {
          got \<leftarrow> ListByDiscrepancy E tid discID;
          case got of
            Inl e \<Rightarrow> collect_events E tid ds acc
          | Inr es \<Rightarrow> collect_events E tid ds (acc @ es)
        })"

definition report_filters :: "gotime \<Rightarrow> gotime \<Rightarrow> ListFilters" where
  "report_filters dateFrom dateTo =
     \<lparr>f_Status = [], f_Severity = [], f_DiscrepancyType = [], f_DateFrom = Some dateFrom,
      f_DateTo = Some dateTo, f_SourceSystem = [], f_Cursor = [], f_Limit = 100\<rparr>"

text \<open>The header fields; the dates were parsed, so they are formatted.\<close>

definition with_header ::
  "host \<Rightarrow> string \<Rightarrow> string \<Rightarrow> gotime \<Rightarrow> gotime \<Rightarrow> gotime \<Rightarrow> ReportData \<Rightarrow> ReportData" where
  "with_header H tenantID title dateFrom dateTo now rd =
     rd\<lparr>TenantName := tenantID, ReportTitle := title,
        rd_DateFrom := (case format_date dateFrom of None \<Rightarrow> [] | Some s \<Rightarrow> s),
        rd_DateTo := (case format_date dateTo of None \<Rightarrow> [] | Some s \<Rightarrow> s),
        GeneratedAt := rfc3339 H now\<rparr>"

text \<open>From the aggregation on.\<close>

definition finish_report ::
  "env \<Rightarrow> host \<Rightarrow> report_generator \<Rightarrow> uuid \<Rightarrow> uuid \<Rightarrow> report \<Rightarrow> ReportData \<Rightarrow> (disk_world, unit result option) state" where
  "finish_report E H g tid reportID rpt rd =
     (case renderTemplate (rg_templates g)
             (if p_report_type rpt = [] then ReportTypeDailySummary else p_report_type rpt) rd of
        Inl e \<Rightarrow> failReport E tid reportID ''render template'' e
      | Inr html \<Rightarrow> do {
          saved \<leftarrow> saveOutput H g (uuid_text E tid) (uuid_text E reportID) html;
          case saved of
            Inl e \<Rightarrow> failReport E tid reportID ''save output'' e
          | Inr (filePath, fileSize) \<Rightarrow> do {
              done_status \<leftarrow> on_world (ReportStore_UpdateStatus E tid reportID ReportStatusCompleted
                                (Some filePath) (Some (int fileSize)));
              ret (Some (case done_status of
                     Inl e \<Rightarrow> Inl (wrap ''update status to completed'' e)
                   | Inr _ \<Rightarrow> Inr ()))
            }
        })"

definition Generate ::
  "env \<Rightarrow> host \<Rightarrow> report_generator \<Rightarrow> uuid \<Rightarrow> report \<Rightarrow> (disk_world, unit result option) state" where
  "Generate E H g tid rpt =
     (case uuid_parse E (p_id rpt) of
        None \<Rightarrow> ret (Some (Inl (ErrText ''invalid report ID'')))
      | Some reportID \<Rightarrow> do {
          started \<leftarrow> on_world (ReportStore_UpdateStatus E tid reportID ReportStatusGenerating None None);
          case started of
            Inl e \<Rightarrow> failReport E tid reportID ''update status to generating'' e
          | Inr _ \<Rightarrow>
              (case parseDateRange (p_parameters rpt) of
                 Inl e \<Rightarrow> failReport E tid reportID ''parse date range'' e
               | Inr (dateFrom, dateTo) \<Rightarrow> do {
                   got \<leftarrow> on_world (DiscrepancyStore_List E tid (report_filters dateFrom dateTo));
                   case got of
                     Inl e \<Rightarrow> failReport E tid reportID ''query discrepancies'' e
                   | Inr (discs, _) \<Rightarrow> do {
                       allEvents \<leftarrow> on_world (collect_events E tid discs []);
                       case aggregateReportData discs allEvents (rg_maxEvents g) of
                         None \<Rightarrow> ret None
                       | Some rd \<Rightarrow> do {
                           now \<leftarrow> on_world (time_Now E);
                           finish_report E H g tid reportID rpt
                             (with_header H (uuid_text E tid) (p_title rpt) dateFrom dateTo now rd)
                         }
                     }
                 })
        })"

section \<open>The aggregation counts\<close>

lemma count_of_snoc: "count_of f (xs @ [x]) = bump (f x) (count_of f xs)"
  by (auto simp: count_of_def bump_def fun_eq_iff Let_def)

lemma foldl_bump: "foldl (\<lambda>m x. bump (f x) m) Map.empty xs = count_of f xs"
  by (induction xs rule: rev_induct) (simp_all add: count_of_snoc)

text \<open>The hours that a resolved discrepancy took.\<close>

definition resolution_hours :: "discrepancy \<Rightarrow> rat option" where
  "resolution_hours d =
     (case d_resolved_at d of None \<Rightarrow> None
      | Some r \<Rightarrow> if r = zero_time then None else Some (hours (time_sub r (d_created_at d))))"

definition resolved_hours :: "discrepancy list \<Rightarrow> rat list" where
  "resolved_hours ds = List.map_filter resolution_hours ds"

lemma resolved_hours_snoc:
  "resolved_hours (ds @ [d]) =
     resolved_hours ds @ (case resolution_hours d of None \<Rightarrow> [] | Some x \<Rightarrow> [x])"
  by (simp add: resolved_hours_def map_filter_def split: option.split)

lemma disc_stats_fold:
  "foldl disc_stats_step no_disc_stats ds =
     \<lparr>st_total = length ds, st_status = count_of d_status ds, st_severity = count_of d_severity ds,
      st_hours = sum_list (resolved_hours ds), st_resolved = length (resolved_hours ds)\<rparr>"
proof (induction ds rule: rev_induct)
  case Nil
  then show ?case by (simp add: no_disc_stats_def resolved_hours_def map_filter_def)
next
  case (snoc d ds)
  then show ?case
    by (auto simp: disc_stats_step_def Let_def count_of_snoc resolved_hours_snoc resolution_hours_def
        split: option.split)
qed

text \<open>
  C27 (equivalence). The loops of the aggregation compute what the report says: the number of
  discrepancies, for every status, severity and event type how often it occurs, the mean of the hours
  over the resolved discrepancies (0 when there is none), and the first \<open>maxEvents\<close> events with the
  number there were.
\<close>

theorem aggregate_counts:
  assumes "aggregateReportData discs evs maxEvents = Some rd"
  shows "TotalDiscrepancies rd = length discs \<and>
    ByStatus rd = count_of d_status discs \<and> BySeverity rd = count_of d_severity discs \<and>
    ByEventType rd = count_of e_event_type evs \<and> TotalEvents rd = length evs \<and>
    MeanResolutionHours rd =
      (if resolved_hours discs = [] then 0
       else sum_list (resolved_hours discs) / of_nat (length (resolved_hours discs))) \<and>
    Events rd = take (nat maxEvents) evs \<and> (EventsTruncated rd \<longleftrightarrow> length (Events rd) < length evs) \<and>
    OriginalEventCount rd = length evs \<and> Discrepancies rd = discs"
  using assms
  by (auto simp: aggregateReportData_def Let_def disc_stats_fold foldl_bump split: if_splits)

text \<open>
  A negative \<open>REPORT_MAX_EVENTS\<close> makes every report panic, in a goroutine that nothing
  recovers.
\<close>

lemma aggregate_panics: "aggregateReportData discs evs maxEvents = None \<longleftrightarrow> maxEvents < 0"
  by (auto simp: aggregateReportData_def Let_def)

theorem aggregate_counts_witness:
  "\<exists>rd. aggregateReportData [sample_row StatusOpen None, sample_row StatusResolved (Some (7200 * 10 ^ 9))] [] 10
     = Some rd \<and> TotalDiscrepancies rd = 2 \<and> MeanResolutionHours rd = 2"
proof -
  let ?ds = "[sample_row StatusOpen None, sample_row StatusResolved (Some (7200 * 10 ^ 9))]"
  obtain rd where rd: "aggregateReportData ?ds [] 10 = Some rd"
    by (metis aggregate_panics not_numeral_less_zero option.exhaust)
  have "resolved_hours ?ds = [2]"
    by (simp add: resolved_hours_def map_filter_def resolution_hours_def sample_row_def zero_time_def
        hours_def time_sub_def)
  with rd aggregate_counts [OF rd] show ?thesis by simp
qed

section \<open>Dates and numbers\<close>

text \<open>
  The dates a report prints in its header are the dates it was asked for.
\<close>

lemma date_range_printed:
  assumes "parseDateRange params = Inr (dateFrom, dateTo)"
  shows "format_date dateFrom = jstring params ''date_from'' \<and> format_date dateTo = jstring params ''date_to''"
proof -
  from assms obtain a b u where a: "jstring params ''date_from'' = Some a" "parse_date a = Some dateFrom"
    and b: "jstring params ''date_to'' = Some b" "parse_date b = Some u"
      "dateTo = u + (23 * 3600 + 59 * 60 + 59) * 10 ^ 9"
    by (auto simp: parseDateRange_def split: option.splits if_splits)
  show ?thesis
    using format_parse [OF a(2), of 0] format_parse [OF b(2), of "(23 * 3600 + 59 * 60 + 59) * 10 ^ 9"] a b
    by (simp add: ns_per_day_def)
qed

definition sample_range :: jobject where
  "sample_range = Some [(''date_from'', JStr ''2024-02-29''), (''date_to'', JStr ''2024-03-01'')]"

lemma sample_range_parsed:
  "parseDateRange sample_range = Inr (1709164800 * 10 ^ 9, (1709251200 + 86399) * 10 ^ 9)"
  by (simp add: parseDateRange_def sample_range_def jstring_def jlookup_def parse_date_def parse_fields_def
      is_digit_def digits_val_def digit_val_def valid_date_def day_number_def days_before_year_def
      days_before_month_def leap_def epoch_day_def ns_per_day_def Let_def)

lemma date_range_printed_witness:
  "format_date (1709164800 * 10 ^ 9) = Some ''2024-02-29''"
  using date_range_printed [OF sample_range_parsed]
  by (simp add: sample_range_def jstring_def jlookup_def)

text \<open>A number that is not negative only gets commas; a negative one may get one after the sign.\<close>

lemma filter_comma:
  assumes "CHR '','' \<notin> set s"
  shows "filter (\<lambda>c. c \<noteq> CHR '','') (concat (map (\<lambda>(i, c). if P i then [CHR '','', c] else [c]) (enumerate n s))) = s"
  using assms by (induction s arbitrary: n) auto

lemma formatNumber_commas: "filter (\<lambda>c. c \<noteq> CHR '','') (formatNumber n) = show_int n"
proof -
  have "c \<noteq> CHR '',''" if "is_digit c" for c using that by (auto simp: is_digit_def)
  then have "CHR '','' \<notin> set (show_nat k)" for k
    using show_nat_digits [of k] by (auto simp: list_all_iff)
  then have no: "CHR '','' \<notin> set (show_int n)" by (simp add: show_int_def)
  then have "filter (\<lambda>c. c \<noteq> CHR '','') (show_int n) = show_int n" by (auto simp: filter_id_conv)
  with no show ?thesis by (simp add: formatNumber_def Let_def filter_comma)
qed

lemma show_samples: "show_nat 100 = ''100''" "show_nat 10000 = ''10000''"
  by (simp add: show_nat.simps, code_simp)+

lemma formatNumber_negative: "formatNumber (- 100) = ''-,100''" "formatNumber 10000 = ''10,000''"
  by (simp_all add: formatNumber_def show_int_def show_samples)

end
