(* ===== verification/ReportRuns.thy ===== *)
theory ReportRuns
  imports Reports
begin

text \<open>
  What a run of the report generator does to the table of the reports and to the disk: which rows it
  may touch, when a report is completed, that the file of a completed report is there with the size
  the row says, and that a report does not stay in the status \<open>generating\<close> while no statement fails.
\<close>

section \<open>Only the status of a report is written\<close>

text \<open>
  The generator reads the tables and writes nothing but the status of reports of its tenant: what that statement
  respects, a run respects.
\<close>

locale report_writing = disk_relation S for S :: "database \<Rightarrow> database \<Rightarrow> bool" +
  fixes E :: env and tid :: uuid
  assumes status_update: "S d (snd (update_reports E (is_report E tid i) (set_report_status st path sz) t d))"
begin

lemma listing_law:
  "state_io_rel (db_rel S) (DiscrepancyStore_List E ten f)"
  "state_io_rel (db_rel S) (collect_events E ten ds acc)"
proof -
  show "state_io_rel (db_rel S) (DiscrepancyStore_List E ten f)"
    unfolding DiscrepancyStore_List_def listCount_def listPage_def Let_def
    by (auto intro!: io_basic split: prod.split sum.split)
  show "state_io_rel (db_rel S) (collect_events E ten ds acc)"
    by (induction ds arbitrary: acc) (auto intro!: io_basic io_reads split: option.split sum.split)
qed

lemma status_law: "state_io_rel (db_rel S) (ReportStore_UpdateStatus E tid i st path sz)"
  unfolding ReportStore_UpdateStatus_def rows_or_not_found_def by (auto intro!: io_basic io_pg status_update)

lemma save_law:
  "state_io_rel (disk_rel S) (saveReportFile H storage ten i content ext)"
  "state_io_rel (disk_rel S) (saveOutput H g ten i html)"
proof -
  show save: "state_io_rel (disk_rel S) (saveReportFile H storage ten i content ext)"
    for storage ten i content ext
    unfolding saveReportFile_def Let_def by (auto intro!: io_disk split: sum.split)
  have "state_io_rel (disk_rel S) (convertHTMLToPDF H a b)" for a b
    unfolding convertHTMLToPDF_def by (auto intro!: io_disk split: sum.split)
  then have "state_io_rel (disk_rel S) (pdf_or_html H g ten i html tmp)" for tmp
    unfolding pdf_or_html_def by (auto intro!: io_disk save split: sum.split prod.split)
  then have "state_io_rel (disk_rel S) (saveAsPDF H g ten i html)"
    unfolding saveAsPDF_def Let_def by (auto intro!: io_disk split: sum.split option.split prod.split)
  then show "state_io_rel (disk_rel S) (saveOutput H g ten i html)"
    unfolding saveOutput_def checkWkhtmltopdfAvailable_def by (auto intro!: io_disk save)
qed

lemma fail_law: "state_io_rel (disk_rel S) (failReport E tid i step e)"
  unfolding failReport_def by (auto intro!: io_disk status_law)

lemma finish_law: "state_io_rel (disk_rel S) (finish_report E H g tid i rpt rd)"
  unfolding finish_report_def by (auto intro!: io_disk save_law fail_law status_law split: sum.split prod.split)

lemma generator_law: "state_io_rel (disk_rel S) (Generate E H g tid rpt)"
  unfolding Generate_def
  by (auto intro!: io_disk fail_law finish_law status_law listing_law io_basic split: sum.split prod.split option.split)

end

interpretation report_disk: report_writing "reports_step (uuid_text E tid)" E tid for E tid
  by unfold_locales (rule reports_step_statements(2))

section \<open>The file of a completed report\<close>

text \<open>
  Documented: \<open>CreateTemp("", "report-*.html")\<close> picks a name that begins with \<open>report-\<close>, and the text of a
  UUID consists of hexadecimal digits and dashes, so it is a plain name and does not begin so.
\<close>

definition temp_names :: "host \<Rightarrow> bool" where
  "temp_names H \<longleftrightarrow> (\<forall>t. starts_with ''report-'' (last (segments (temp_name H t))))"

definition uuid_names :: "env \<Rightarrow> bool" where
  "uuid_names E \<longleftrightarrow> (\<forall>u. uuid_text E u \<noteq> [] \<and> set (uuid_text E u) \<subseteq> set ''0123456789abcdef-'')"

definition report_path :: "env \<Rightarrow> report_generator \<Rightarrow> uuid \<Rightarrow> uuid \<Rightarrow> string \<Rightarrow> string" where
  "report_path E g tid i ext = Join2 (Join2 (rg_storagePath g) (uuid_text E tid)) (uuid_text E i @ ext)"

lemma report_name:
  assumes "uuid_names E" and "ext \<in> {''.html'', ''.pdf''}"
  shows "plain_name (uuid_text E i @ ext)" and "\<not> starts_with ''report-'' (uuid_text E i @ ext)"
proof -
  have ne: "uuid_text E i \<noteq> []" and hex: "set (uuid_text E i) \<subseteq> set ''0123456789abcdef-''"
    using assms(1) unfolding uuid_names_def by blast+
  then obtain c s where u: "uuid_text E i = c # s" by (cases "uuid_text E i") auto
  have "CHR ''/'' \<notin> set (uuid_text E i)" using hex by auto
  then show "plain_name (uuid_text E i @ ext)" using assms(2) u by (auto simp: plain_name_def)
  have "c \<noteq> CHR ''r''" using hex u by auto
  then show "\<not> starts_with ''report-'' (uuid_text E i @ ext)" by (simp add: starts_with_def u)
qed

lemma temp_not_report:
  assumes "temp_names H" and "uuid_names E" and "ext \<in> {''.html'', ''.pdf''}"
  shows "temp_name H t \<noteq> report_path E g tid i ext"
  using assms report_name [OF assms(2,3)] last_segment_Join2 unfolding temp_names_def report_path_def by metis

lemma saveReportFile_ok:
  assumes "run_state (saveReportFile H storage ten i content ext) s = (Inr (path, n), s')"
  shows "path = Join2 (Join2 storage ten) (i @ ext) \<and> files s' path = Some content \<and> n = length content"
  using assms
  by (auto simp: saveReportFile_def MkdirAll_def WriteFile_def Let_def split: sum.splits option.splits prod.splits)

lemma files_Remove:
  "run_state (Remove H p) s = (out, s') \<Longrightarrow> q \<noteq> p \<Longrightarrow> files s' q = files s q"
  by (auto simp: Remove_def split: option.splits)

lemma convert_ok:
  assumes "run_state (convertHTMLToPDF H a p) s = (Inr u, s')"
  shows "\<exists>c t x. files s' p = Some c \<and> converter H t x = Inr c"
  using assms by (auto simp: convertHTMLToPDF_def split: sum.splits) blast

lemma Stat_ok:
  assumes "run_state (Stat H p) s = (Inr n, s')"
  shows "\<exists>c. files s p = Some c \<and> files s' = files s \<and> length c = n"
  using assms by (auto simp: Stat_def split: option.splits)

text \<open>What the file of a report can be: the rendered HTML, or something the converter made.\<close>

definition output_of :: "host \<Rightarrow> string \<Rightarrow> string \<Rightarrow> bool" where
  "output_of H html c \<longleftrightarrow> c = html \<or> (\<exists>t x. converter H t x = Inr c)"

lemma pdf_or_html_ok:
  assumes "run_state (pdf_or_html H g (uuid_text E tid) (uuid_text E i) html tmp) s = (Inr (path, n), s')"
  shows "\<exists>ext\<in>{''.html'', ''.pdf''}. path = report_path E g tid i ext \<and>
    (\<exists>c. files s' path = Some c \<and> length c = n \<and> output_of H html c)"
proof -
  let ?save = "\<lambda>c ext. saveReportFile H (rg_storagePath g) (uuid_text E tid) (uuid_text E i) c ext"
  obtain saved s1 where sv: "run_state (?save [] ''.pdf'') s = (saved, s1)" by fastforce
  with assms obtain p0 n0 where s1: "saved = Inr (p0, n0)" by (cases saved) (auto simp: pdf_or_html_def)
  have p0: "p0 = report_path E g tid i ''.pdf''"
    using saveReportFile_ok sv s1 unfolding report_path_def by blast
  obtain conv s2 where cv: "run_state (convertHTMLToPDF H tmp p0) s1 = (conv, s2)" by fastforce
  show ?thesis
  proof (cases conv)
    case (Inl e)
    obtain s3 where "run_state (?save html ''.html'') s3 = (Inr (path, n), s')"
      using assms sv s1 cv Inl by (auto simp: pdf_or_html_def split: prod.splits)
    from saveReportFile_ok [OF this] show ?thesis by (auto simp: report_path_def output_of_def)
  next
    case (Inr u)
    obtain info s3 where st: "run_state (Stat H p0) s2 = (info, s3)" by fastforce
    with assms sv s1 cv Inr have "info = Inr n" "path = p0" "s' = s3"
      by (auto simp: pdf_or_html_def split: sum.splits)
    moreover obtain c t x where c: "files s2 p0 = Some c" "converter H t x = Inr c"
      using convert_ok [OF cv [unfolded Inr]] by blast
    ultimately have "files s' p0 = Some c \<and> length c = n"
      using Stat_ok [of H p0 s2 n s3] st by auto
    with c p0 \<open>path = p0\<close> show ?thesis by (auto simp: output_of_def)
  qed
qed

lemma saveOutput_ok:
  assumes "temp_names H" and "uuid_names E"
    and run: "run_state (saveOutput H g (uuid_text E tid) (uuid_text E i) html) s = (Inr (path, n), s')"
  shows "\<exists>ext\<in>{''.html'', ''.pdf''}. path = report_path E g tid i ext \<and>
    (\<exists>c. files s' path = Some c \<and> length c = n \<and> output_of H html c)"
proof (cases "has_converter H (tick (dw s))")
  case False
  with run have "run_state (saveReportFile H (rg_storagePath g) (uuid_text E tid) (uuid_text E i) html ''.html'')
      (s\<lparr>dw := (dw s)\<lparr>tick := Suc (tick (dw s))\<rparr>\<rparr>) = (Inr (path, n), s')"
    by (simp add: saveOutput_def checkWkhtmltopdfAvailable_def)
  from saveReportFile_ok [OF this] show ?thesis by (auto simp: report_path_def output_of_def)
next
  case True
  let ?s0 = "s\<lparr>dw := (dw s)\<lparr>tick := Suc (tick (dw s))\<rparr>\<rparr>"
  let ?tmp = "temp_name H (tick (dw ?s0))"
  from True run have pdf: "run_state (saveAsPDF H g (uuid_text E tid) (uuid_text E i) html) ?s0 = (Inr (path, n), s')"
    by (simp add: saveOutput_def checkWkhtmltopdfAvailable_def)
  then obtain s1 s2 out where body: "run_state (pdf_or_html H g (uuid_text E tid) (uuid_text E i) html ?tmp) s1
      = (Inr (path, n), s2)" and rm: "run_state (Remove H ?tmp) s2 = (out, s')"
    by (auto simp: saveAsPDF_def Let_def split: option.splits sum.splits prod.splits)
  from pdf_or_html_ok [OF body] obtain ext c where ext: "ext \<in> {''.html'', ''.pdf''}"
    and path: "path = report_path E g tid i ext" and c: "files s2 path = Some c" "length c = n" "output_of H html c" by blast
  have "files s' path = files s2 path"
    using files_Remove [OF rm] temp_not_report [OF assms(1,2) ext] path by metis
  with ext path c show ?thesis by auto
qed

section \<open>The row of the report\<close>

definition report_row :: "env \<Rightarrow> uuid \<Rightarrow> uuid \<Rightarrow> database \<Rightarrow> (report \<Rightarrow> bool) \<Rightarrow> bool" where
  "report_row E tid i d P \<longleftrightarrow> (\<exists>r\<in>set (reports d). is_report E tid i r) \<and>
     (\<forall>r\<in>set (reports d). is_report E tid i r \<longrightarrow> P r)"

lemma report_row_mono:
  "report_row E tid i d P \<Longrightarrow> (\<And>r. P r \<Longrightarrow> Q r) \<Longrightarrow> report_row E tid i d Q"
  by (simp add: report_row_def)

lemma is_report_status [simp]: "is_report E tid i (set_report_status st path sz now r) = is_report E tid i r"
  by (simp add: is_report_def set_report_status_def)

text \<open>A status update that reports success has found the row and written it.\<close>

lemma UpdateStatus_run:
  assumes "run_state (ReportStore_UpdateStatus E tid i st path sz) w = (Inr u, w')"
  shows "reports (db w') = map (\<lambda>r. if is_report E tid i r
      then set_report_status st path sz (clock E (tick w)) r else r) (reports (db w))"
    and "\<exists>r\<in>set (reports (db w)). is_report E tid i r"
  using assms
  by (auto simp: ReportStore_UpdateStatus_def rows_or_not_found_def run_pg update_reports_def Let_def rejected_def
      filter_empty_conv split: if_splits)

lemma UpdateStatus_ok:
  assumes "run_state (ReportStore_UpdateStatus E tid i st path sz) w = (Inr u, w')"
  shows "report_row E tid i (db w') (\<lambda>r. p_status r = st \<and>
    (\<forall>p. path = Some p \<longrightarrow> p_file_path r = Some p) \<and> (\<forall>n. sz = Some n \<longrightarrow> p_file_size_bytes r = Some n))"
proof -
  note rows = UpdateStatus_run(1) [OF assms]
  obtain r where "r \<in> set (reports (db w))" "is_report E tid i r" using UpdateStatus_run(2) [OF assms] by blast
  then have "set_report_status st path sz (clock E (tick w)) r \<in> set (reports (db w'))" unfolding rows by force
  with \<open>is_report E tid i r\<close> have "\<exists>r\<in>set (reports (db w')). is_report E tid i r"
    by (metis is_report_status)
  then show ?thesis
    unfolding report_row_def unfolding rows by (auto simp: set_report_status_def coalesce_def)
qed

lemma pred_option_coalesce: "pred_option Q x \<Longrightarrow> pred_option Q y \<Longrightarrow> pred_option Q (coalesce x y)"
  by (cases x) (simp_all add: coalesce_def)

text \<open>
  An update of a row that is there succeeds when nothing fails and the new row meets the constraints.
\<close>

lemma UpdateStatus_succeeds:
  assumes "no_faults E" and "reports_ok (db w)" and "report_row E tid i (db w) P"
    and "st \<in> {''generating'', ''completed'', ''failed''}"
    and "pred_option (varchar 1000) path" and "pred_option (\<lambda>n. - (2 ^ 63) \<le> n \<and> n < 2 ^ 63) sz"
    and run: "run_state (ReportStore_UpdateStatus E tid i st path sz) w = (out, w')"
  shows "out = Inr () \<and> reports_ok (db w') \<and> report_row E tid i (db w') (\<lambda>r. p_status r = st)"
proof -
  have "report_check (set_report_status st path sz now r)" if "r \<in> set (reports (db w))" for now r
  proof -
    have "report_check r" using assms(2) that by (simp add: reports_ok_def)
    moreover have "st \<in> set [''pending'', ''generating'', ''completed'', ''failed'', ''cleaned'']" using assms(4) by auto
    ultimately show ?thesis
      using assms(5,6) by (simp add: report_check_def set_report_status_def one_of_def pred_option_coalesce del: set_simps)
  qed
  moreover have "filter (is_report E tid i) (reports (db w)) \<noteq> []"
    using assms(3) by (auto simp: report_row_def filter_empty_conv)
  ultimately have out: "out = Inr ()"
    using assms(1) run
    by (auto simp: ReportStore_UpdateStatus_def rows_or_not_found_def run_pg update_reports_def Let_def no_faults_def)
  have "reports_step (uuid_text E tid) (db w) (db w')"
    using reporting.lifted.io_run [OF reports_step_ops(5) run] by (simp add: db_rel_def)
  then have "reports_ok (db w')" using assms(2) by (simp add: reports_step_def)
  moreover have "report_row E tid i (db w') (\<lambda>r. p_status r = st)"
    using UpdateStatus_ok [of E tid i st path sz w "()" w'] run out by (auto simp: report_row_def)
  ultimately show ?thesis using out by simp
qed

section \<open>A completed report has its file\<close>

lemma finish_report_ok:
  assumes "temp_names H" and "uuid_names E"
    and run: "run_state (finish_report E H g tid i rpt rd) s = (Some (Inr u), s')"
  shows "\<exists>ext\<in>{''.html'', ''.pdf''}. \<exists>c. files s' (report_path E g tid i ext) = Some c \<and>
    report_row E tid i (db (dw s')) (\<lambda>r. p_status r = ReportStatusCompleted \<and>
      p_file_path r = Some (report_path E g tid i ext) \<and> p_file_size_bytes r = Some (int (length c)))"
proof -
  have no: "fst (run_state (failReport E tid i st e) s0) \<noteq> Some (Inr u)" for st e s0
    by (simp add: failReport_def)
  obtain html where html: "renderTemplate (rg_templates g)
      (if p_report_type rpt = [] then ReportTypeDailySummary else p_report_type rpt) rd = Inr html"
    using run no by (auto simp: finish_report_def failReport_def split: sum.splits)
  obtain saved s1 where sv: "run_state (saveOutput H g (uuid_text E tid) (uuid_text E i) html) s = (saved, s1)"
    by fastforce
  with run html no obtain path n where saved: "saved = Inr (path, n)"
    by (cases saved) (auto simp: finish_report_def failReport_def)
  obtain out w where up: "run_state (ReportStore_UpdateStatus E tid i ReportStatusCompleted (Some path) (Some (int n)))
      (dw s1) = (out, w)" by fastforce
  with run html sv saved have out: "out = Inr ()" and s': "s' = s1\<lparr>dw := w\<rparr>"
    by (auto simp: finish_report_def split: sum.splits)
  from saveOutput_ok [OF assms(1,2) sv [unfolded saved]] obtain ext c
    where "ext \<in> {''.html'', ''.pdf''}" "path = report_path E g tid i ext" "files s1 path = Some c" "length c = n"
    by blast
  moreover have "report_row E tid i (db w) (\<lambda>r. p_status r = ReportStatusCompleted \<and>
      p_file_path r = Some path \<and> p_file_size_bytes r = Some (int n))"
    using UpdateStatus_ok [OF up [unfolded out]] by (simp add: report_row_def)
  ultimately show ?thesis using s' by (intro bexI [of _ ext] exI [of _ c]) simp_all
qed

lemma Generate_finishes:
  assumes "run_state (Generate E H g tid rpt) s = (Some (Inr u), s')"
  shows "\<exists>i rd s1. uuid_parse E (p_id rpt) = Some i \<and>
    run_state (finish_report E H g tid i rpt rd) s1 = (Some (Inr u), s')"
  using assms
  by (auto simp: Generate_def failReport_def split: option.splits sum.splits prod.splits)

text \<open>
  C18 (safety). When the generation of a report succeeds, the file the row names is on the disk, in
  the directory of the tenant and under the identifier of the report, and it is as long as the row
  says, whatever the converter did and whichever calls failed on the way.
\<close>

theorem generated_file:
  assumes "temp_names H" and "uuid_names E"
    and "run_state (Generate E H g tid rpt) s = (Some (Inr u), s')"
  shows "\<exists>i. uuid_parse E (p_id rpt) = Some i \<and>
    (\<exists>ext\<in>{''.html'', ''.pdf''}. \<exists>c. files s' (report_path E g tid i ext) = Some c \<and>
      report_row E tid i (db (dw s')) (\<lambda>r. p_status r = ReportStatusCompleted \<and>
        p_file_path r = Some (report_path E g tid i ext) \<and> p_file_size_bytes r = Some (int (length c))))"
proof -
  obtain i rd s1 where "uuid_parse E (p_id rpt) = Some i"
    and "run_state (finish_report E H g tid i rpt rd) s1 = (Some (Inr u), s')"
    using Generate_finishes [OF assms(3)] by blast
  with finish_report_ok [OF assms(1,2)] show ?thesis by blast
qed

section \<open>A report does not stay unfinished\<close>

interpretation reading: disk_relation "\<lambda>d d'. d' = (d :: database)"
  by unfold_locales auto

lemma listing_reads:
  "state_io_rel (db_rel (\<lambda>d d'. d' = d)) (DiscrepancyStore_List E tid f)"
  "state_io_rel (db_rel (\<lambda>d d'. d' = d)) (collect_events E tid ds acc)"
  "state_io_rel (disk_rel (\<lambda>d d'. d' = d)) (saveOutput H g ten i html)"
proof -
  show "state_io_rel (db_rel (\<lambda>d d'. d' = d)) (DiscrepancyStore_List E tid f)"
    unfolding DiscrepancyStore_List_def listCount_def listPage_def Let_def
    by (auto intro!: reading.io_basic split: prod.split sum.split)
  show "state_io_rel (db_rel (\<lambda>d d'. d' = d)) (collect_events E tid ds acc)"
    by (induction ds arbitrary: acc)
      (auto simp: ListByDiscrepancy_def intro!: reading.io_basic split: option.split sum.split)
  have save: "state_io_rel (disk_rel (\<lambda>d d'. d' = d)) (saveReportFile H storage ten i content ext)"
    for storage ten i content ext
    unfolding saveReportFile_def Let_def by (auto intro!: reading.io_disk split: sum.split)
  have "state_io_rel (disk_rel (\<lambda>d d'. d' = d)) (convertHTMLToPDF H a b)" for a b
    unfolding convertHTMLToPDF_def by (auto intro!: reading.io_disk split: sum.split)
  then have "state_io_rel (disk_rel (\<lambda>d d'. d' = d)) (pdf_or_html H g ten i html tmp)" for tmp
    unfolding pdf_or_html_def by (auto intro!: reading.io_disk save split: sum.split prod.split)
  then have "state_io_rel (disk_rel (\<lambda>d d'. d' = d)) (saveAsPDF H g ten i html)"
    unfolding saveAsPDF_def Let_def by (auto intro!: reading.io_disk split: sum.split option.split prod.split)
  then show "state_io_rel (disk_rel (\<lambda>d d'. d' = d)) (saveOutput H g ten i html)"
    unfolding saveOutput_def checkWkhtmltopdfAvailable_def by (auto intro!: reading.io_disk save)
qed

text \<open>The path fits the column, and the sizes of files are 63-bit numbers.\<close>

definition storable_paths :: "env \<Rightarrow> report_generator \<Rightarrow> uuid \<Rightarrow> uuid \<Rightarrow> bool" where
  "storable_paths E g tid i \<longleftrightarrow> (\<forall>ext\<in>{''.html'', ''.pdf''}. varchar 1000 (report_path E g tid i ext))"

definition bounded_output :: "host \<Rightarrow> report_generator \<Rightarrow> bool" where
  "bounded_output H g \<longleftrightarrow> (\<forall>f rd c. rg_templates g f rd = Inr c \<longrightarrow> length c < 2 ^ 63) \<and>
     (\<forall>t x c. converter H t x = Inr c \<longrightarrow> length c < 2 ^ 63)"

definition report_ended :: "report \<Rightarrow> bool" where
  "report_ended r \<longleftrightarrow> p_status r = ReportStatusCompleted \<or> p_status r = ReportStatusFailed"

lemma failReport_ends:
  assumes "no_faults E" and "reports_ok (db (dw s))" and "report_row E tid i (db (dw s)) P"
    and "run_state (failReport E tid i st e) s = (out, s')"
  shows "report_row E tid i (db (dw s')) report_ended"
proof -
  obtain o' w where up: "run_state (ReportStore_UpdateStatus E tid i ReportStatusFailed None None) (dw s) = (o', w)"
    by fastforce
  have "report_row E tid i (db w) (\<lambda>r. p_status r = ReportStatusFailed)"
    using UpdateStatus_succeeds [OF assms(1-3) _ _ _ up] by (simp add: ReportStatusFailed_def)
  then have "report_row E tid i (db w) report_ended" by (simp add: report_row_def report_ended_def)
  with up assms(4) show ?thesis by (auto simp: failReport_def)
qed

lemma finish_report_ends:
  assumes "no_faults E" and "temp_names H" and "uuid_names E" and "storable_paths E g tid i"
    and "reports_ok (db (dw s))" and "report_row E tid i (db (dw s)) P"
    and run: "run_state (finish_report E H g tid i rpt rd) s = (out, s')" and "bounded_output H g"
  shows "report_row E tid i (db (dw s')) report_ended"
proof (cases "renderTemplate (rg_templates g)
    (if p_report_type rpt = [] then ReportTypeDailySummary else p_report_type rpt) rd")
  case (Inl e)
  with run have "run_state (failReport E tid i ''render template'' e) s = (out, s')"
    by (simp add: finish_report_def)
  then show ?thesis by (rule failReport_ends [OF assms(1,5,6)])
next
  case (Inr html)
  obtain saved s1 where sv: "run_state (saveOutput H g (uuid_text E tid) (uuid_text E i) html) s = (saved, s1)"
    by fastforce
  have db1: "db (dw s1) = db (dw s)"
    using reading.disk.io_run [OF listing_reads(3) sv] by (simp add: disk_rel_def)
  show ?thesis
  proof (cases saved)
    case (Inl e)
    with run \<open>renderTemplate _ _ _ = _\<close> sv have "run_state (failReport E tid i ''save output'' e) s1 = (out, s')"
      by (simp add: finish_report_def)
    moreover have "reports_ok (db (dw s1))" "report_row E tid i (db (dw s1)) P" using assms(5,6) db1 by simp_all
    ultimately show ?thesis using failReport_ends [OF assms(1)] by blast
  next
    case (Inr res)
    obtain path n where saved: "saved = Inr (path, n)" using Inr by (cases res) simp
    obtain o' w where up: "run_state (ReportStore_UpdateStatus E tid i ReportStatusCompleted (Some path) (Some (int n)))
        (dw s1) = (o', w)" by fastforce
    have s': "s' = s1\<lparr>dw := w\<rparr>"
      using run \<open>renderTemplate _ _ _ = _\<close> sv saved up by (auto simp: finish_report_def)
    from saveOutput_ok [OF assms(2,3) sv [unfolded saved]] obtain ext c where ext: "ext \<in> {''.html'', ''.pdf''}"
      and path: "path = report_path E g tid i ext" and c: "length c = n" "output_of H html c" by blast
    have "length html < 2 ^ 63"
      using \<open>renderTemplate _ _ _ = _\<close> assms(8)
      by (auto simp: renderTemplate_def bounded_output_def split: option.splits sum.splits)
    with c assms(8) have n: "n < 2 ^ 63" by (auto simp: bounded_output_def output_of_def)
    have "pred_option (varchar 1000) (Some path)" using assms(4) ext path by (auto simp: storable_paths_def)
    moreover have "pred_option (\<lambda>n. - (2 ^ 63) \<le> n \<and> n < 2 ^ 63) (Some (int n))" using n by simp
    moreover have "reports_ok (db (dw s1))" "report_row E tid i (db (dw s1)) P" using assms(5,6) db1 by simp_all
    ultimately have "report_row E tid i (db w) (\<lambda>r. p_status r = ReportStatusCompleted)"
      using UpdateStatus_succeeds [OF assms(1) _ _ _ _ _ up] unfolding ReportStatusCompleted_def by blast
    then show ?thesis using s' by (simp add: report_row_def report_ended_def)
  qed
qed

text \<open>The part of \<open>Generate\<close> after the status update, for a range that could be parsed.\<close>

lemma Generate_listed:
  assumes "uuid_parse E (p_id rpt) = Some i"
    and "run_state (ReportStore_UpdateStatus E tid i ReportStatusGenerating None None) (dw s) = (Inr (), w1)"
    and "parseDateRange (p_parameters rpt) = Inr (dateFrom, dateTo)" and "0 \<le> rg_maxEvents g"
    and "run_state (Generate E H g tid rpt) s = (out, s')"
  shows "(\<exists>e w2. db w2 = db w1 \<and> run_state (failReport E tid i ''query discrepancies'' e) (s\<lparr>dw := w2\<rparr>) = (out, s')) \<or>
    (\<exists>rd w2. db w2 = db w1 \<and> run_state (finish_report E H g tid i rpt rd) (s\<lparr>dw := w2\<rparr>) = (out, s'))"
proof -
  obtain got w2 where list: "run_state (DiscrepancyStore_List E tid (report_filters dateFrom dateTo)) w1 = (got, w2)"
    by fastforce
  have db2: "db w2 = db w1" using reading.lifted.io_run [OF listing_reads(1) list] by (simp add: db_rel_def)
  show ?thesis
  proof (cases got)
    case (Inl e)
    with assms list have "run_state (failReport E tid i ''query discrepancies'' e) (s\<lparr>dw := w2\<rparr>) = (out, s')"
      by (simp add: Generate_def)
    with db2 show ?thesis by blast
  next
    case (Inr res)
    obtain discs n where res: "got = Inr (discs, n)" using Inr by (cases res) simp
    obtain evs w3 where ev: "run_state (collect_events E tid discs []) w2 = (evs, w3)" by fastforce
    have db3: "db w3 = db w2" using reading.lifted.io_run [OF listing_reads(2) ev] by (simp add: db_rel_def)
    obtain rd where rd: "aggregateReportData discs evs (rg_maxEvents g) = Some rd"
      using aggregate_panics [of discs evs "rg_maxEvents g"] assms(4) by fastforce
    obtain rd' where "run_state (finish_report E H g tid i rpt rd') (s\<lparr>dw := w3\<lparr>tick := Suc (tick w3)\<rparr>\<rparr>) = (out, s')"
      using assms list res ev rd by (simp add: Generate_def)
    moreover have "db (w3\<lparr>tick := Suc (tick w3)\<rparr>) = db w1" using db2 db3 by simp
    ultimately show ?thesis by blast
  qed
qed

lemma outcome_is_some:
  "run_state (failReport E tid i step e) s = (out, s') \<Longrightarrow> out \<noteq> None"
  "run_state (finish_report E H g tid i rpt rd) s = (out, s') \<Longrightarrow> out \<noteq> None"
  by (auto simp: failReport_def finish_report_def split: sum.splits prod.splits)

text \<open>
  While the database answers, a report whose generation runs ends \<open>completed\<close> or \<open>failed\<close> and the
  goroutine does not panic, whichever calls of the file system, the converter or the template engine
  fail, when its path fits the column.
\<close>

lemma Generate_ends:
  assumes "no_faults E" and "temp_names H" and "uuid_names E" and "uuid_parse E (p_id rpt) = Some i"
    and "storable_paths E g tid i" and "0 \<le> rg_maxEvents g" and "bounded_output H g"
    and "reports_ok (db (dw s))" and "report_row E tid i (db (dw s)) P"
    and run: "run_state (Generate E H g tid rpt) s = (out, s')"
  shows "out \<noteq> None \<and> report_row E tid i (db (dw s')) report_ended"
proof -
  obtain st w1 where up: "run_state (ReportStore_UpdateStatus E tid i ReportStatusGenerating None None) (dw s) = (st, w1)"
    by fastforce
  have st: "st = Inr ()" and ok: "reports_ok (db w1)"
    and row: "report_row E tid i (db w1) (\<lambda>r. p_status r = ReportStatusGenerating)"
    using UpdateStatus_succeeds [OF assms(1,8,9) _ _ _ up] by (simp_all add: ReportStatusGenerating_def)
  have fail: ?thesis
    if "run_state (failReport E tid i step e) (s\<lparr>dw := w2\<rparr>) = (out, s')" "db w2 = db w1" for step e w2
    using failReport_ends [OF assms(1) _ _ that(1)] outcome_is_some(1) [OF that(1)] that(2) ok row by simp
  have finish: ?thesis
    if "run_state (finish_report E H g tid i rpt rd) (s\<lparr>dw := w2\<rparr>) = (out, s')" "db w2 = db w1" for rd w2
    using finish_report_ends [OF assms(1-3,5) _ _ that(1) assms(7)] outcome_is_some(2) [OF that(1)] that(2) ok row
    by simp
  show ?thesis
  proof (cases "parseDateRange (p_parameters rpt)")
    case (Inl e)
    with run assms(4) up st have "run_state (failReport E tid i ''parse date range'' e) (s\<lparr>dw := w1\<rparr>) = (out, s')"
      by (simp add: Generate_def)
    with fail show ?thesis by blast
  next
    case (Inr range)
    obtain a b where "range = (a, b)" by fastforce
    with Generate_listed [OF assms(4) up [unfolded st] _ assms(6) run] Inr fail finish show ?thesis by blast
  qed
qed

text \<open>
  A report counts at most 100 discrepancies: where more fall into its range, the rest
  is left out without a word, and the totals it prints are too small.
\<close>

lemma report_counts_at_most_100:
  assumes "no_faults E" and "uuid_codec E" and "sound E (db w)"
    and "run_state (DiscrepancyStore_List E tid (report_filters dateFrom dateTo)) w = (Inr (discs, n), w')"
    and "aggregateReportData discs evs maxEvents = Some rd"
  shows "TotalDiscrepancies rd =
    min 100 (length (filter (matches E tid (report_filters dateFrom dateTo)) (discrepancies (db w))))"
proof -
  let ?f = "report_filters dateFrom dateTo"
  have f: "filters_ok ?f" "f_Limit ?f = 100" "f_Cursor ?f = []"
    by (simp_all add: report_filters_def filters_ok_def text_ok_def)
  then have "cursor_selects E (db w) (f_Cursor ?f) None" by (simp add: cursor_selects_def)
  then have "discs = page_after E tid ?f (db w) None 100"
    using List_result [OF assms(1) f(1) _ _ _ assms(3,2,4), of None] f by simp
  then have "length discs = min 100 (length (filter (matches E tid ?f) (discrepancies (db w))))"
    by (simp add: page_after_def min.commute)
  moreover have "TotalDiscrepancies rd = length discs"
    using assms(5) by (auto simp: aggregateReportData_def Let_def disc_stats_fold split: if_splits)
  ultimately show ?thesis by simp
qed

text \<open>
  Generating a report of a tenant changes no table but the reports, no report of another
  tenant, and keeps the constraints of the table.
\<close>

lemma generation_isolated:
  "reports_step (uuid_text E tid) (db (dw s)) (db (dw (snd (run_state (Generate E H g tid rpt) s))))"
  using report_disk.disk.io_snd [OF report_disk.generator_law] by (simp add: disk_rel_def)

section \<open>On a concrete host\<close>

lemmas report_consts =
  ReportTypeCustom_def ReportTypeDailySummary_def ReportTypeMonthlyAudit_def ReportTypeDiscrepancyDetail_def

definition calm_host :: host where
  "calm_host = \<lparr>fs_error = (\<lambda>t. None), torn = (\<lambda>t. None), temp_name = (\<lambda>t. ''/tmp/report-1.html''),
     has_converter = (\<lambda>t. False), converter = (\<lambda>t c. Inr []), rfc3339 = (\<lambda>t. [])\<rparr>"

definition sample_generator :: report_generator where
  "sample_generator = NewReportGenerator ''data'' 10000 (\<lambda>f rd. Inr ''<html>'')"

definition sample_report :: report where
  "sample_report =
     \<lparr>p_id = text_of_uuid 7, p_tenant_id = text_of_uuid 5, p_report_type = ReportTypeCustom, p_title = ''T'',
      p_parameters = sample_range, p_status = ReportStatusPending, p_file_path = None,
      p_file_size_bytes = None, p_generated_by = None, p_created_at = 0, p_updated_at = 0\<rparr>"

definition sample_disk :: disk_world where
  "sample_disk = \<lparr>dw = sample_world ((sample_db [] [])\<lparr>reports := [sample_report]\<rparr>), files = Map.empty\<rparr>"

lemma calm_names: "temp_names calm_host" "uuid_names calm"
proof -
  show "temp_names calm_host" by (simp add: temp_names_def calm_host_def starts_with_def)
  have "set ''0123456789'' \<subseteq> set ''0123456789abcdef-''" by simp
  then have "set (show_nat n) \<subseteq> set ''0123456789abcdef-''" for n
    using show_nat_digits [of n] unfolding list_all_iff is_digit_def by blast
  then show "uuid_names calm" by (simp add: uuid_names_def text_of_uuid_def)
qed

lemma sample_path: "report_path calm sample_generator 5 7 ext =
    Join2 (Join2 ''data'' ''5'') (''7'' @ ext)"
  by (simp add: report_path_def sample_generator_def NewReportGenerator_def)

lemma sample_paths: "report_path calm sample_generator 5 7 ''.html'' = ''data/5/7.html''"
  "report_path calm sample_generator 5 7 ''.pdf'' = ''data/5/7.pdf''"
  unfolding sample_path by code_simp+

lemma sample_report_paths: "storable_paths calm sample_generator 5 7"
  by (simp add: storable_paths_def sample_paths varchar_def text_ok_def char_count_code)

lemma sample_reports_ok: "reports_ok (db (dw sample_disk))"
  by (simp add: reports_ok_def sample_disk_def sample_db_def report_check_def sample_report_def one_of_def
      varchar_def text_ok_def char_count_code tenant_exists_def acme_def ReportTypeCustom_def
      ReportStatusPending_def sample_range_def jsonb_ok_def)

lemma sample_in_disk: "\<exists>r\<in>set (reports (db (dw sample_disk))). is_report calm 5 7 r"
  by (simp add: sample_disk_def is_report_def sample_report_def)

lemma sample_range_ok: "\<exists>a b. parseDateRange (p_parameters sample_report) = Inr (a, b)"
  by (simp add: sample_report_def sample_range_parsed)

lemma sample_sound_reports: "sound calm ((sample_db [] [])\<lparr>reports := rs\<rparr>)"
  by (simp add: sound_def sample_db_def ledger_inv_def schema_ok_def closed_ok_def log_ok_def consistent_def
      history_def ids_ok_def acme_def)

text \<open>The generation of the report on the concrete host.\<close>

lemma sample_generation:
  "\<exists>s'. run_state (Generate calm calm_host sample_generator 5 sample_report) sample_disk = (Some (Inr ()), s') \<and>
    files s' = [''data/5/7.html'' \<mapsto> ''<html>'']"
proof -
  obtain a b where range: "parseDateRange (p_parameters sample_report) = Inr (a, b)" using sample_range_ok by blast
  obtain st w1 where up: "run_state (ReportStore_UpdateStatus calm 5 7 ReportStatusGenerating None None) (dw sample_disk)
      = (st, w1)" by fastforce
  have row: "report_row calm 5 7 (db (dw sample_disk)) (\<lambda>r. True)" using sample_in_disk by (simp add: report_row_def)
  have calm: "no_faults calm" by (simp add: no_faults_def)
  have u1: "st = Inr ()" "reports_ok (db w1)" "report_row calm 5 7 (db w1) (\<lambda>r. p_status r = ReportStatusGenerating)"
    using UpdateStatus_succeeds [OF calm sample_reports_ok row _ _ _ up] by (simp_all add: ReportStatusGenerating_def)
  have "reports_step (uuid_text calm 5) (db (dw sample_disk)) (db w1)"
    using reporting.lifted.io_run [OF reports_step_ops(5) up] by (simp add: db_rel_def)
  then obtain rs where db1: "db w1 = (sample_db [] [])\<lparr>reports := rs\<rparr>"
    by (auto simp: reports_step_def sample_disk_def)
  obtain got w2 where list: "run_state (DiscrepancyStore_List calm 5 (report_filters a b)) w1 = (got, w2)" by fastforce
  have f: "filters_ok (report_filters a b)" "f_Limit (report_filters a b) = 100" "f_Cursor (report_filters a b) = []"
    by (simp_all add: report_filters_def filters_ok_def text_ok_def)
  then have "cursor_selects calm (db w1) (f_Cursor (report_filters a b)) None" by (simp add: cursor_selects_def)
  then have got: "got = Inr ([], 0)" and db2: "db w2 = db w1"
    using List_result [OF calm f(1) _ _ _ _ codec_calm list, of None] f sample_sound_reports [of rs]
    unfolding db1 by (simp_all add: page_after_def listing_def sample_db_def)
  obtain rd where rd: "aggregateReportData [] [] 10000 = Some rd"
    using aggregate_panics [of "[]" "[]" 10000] by (cases "aggregateReportData [] [] 10000") auto
  let ?w3 = "w2\<lparr>tick := Suc (Suc (Suc (Suc (tick w2))))\<rparr>"
  obtain st' w4 where up': "run_state (ReportStore_UpdateStatus calm 5 7 ReportStatusCompleted
      (Some ''data/5/7.html'') (Some 6)) ?w3 = (st', w4)" by fastforce
  have "reports_ok (db ?w3)" "report_row calm 5 7 (db ?w3) (\<lambda>r. p_status r = ReportStatusGenerating)"
    using u1 db2 by simp_all
  moreover have "varchar 1000 ''data/5/7.html''" using sample_report_paths by (simp add: storable_paths_def sample_paths)
  ultimately have "st' = Inr ()"
    using UpdateStatus_succeeds [OF calm _ _ _ _ _ up'] by (simp add: ReportStatusCompleted_def)
  moreover have "Join2 (Join2 ''data'' ''5'') ''7.html'' = ''data/5/7.html''" using sample_paths(1) by (simp add: sample_path)
  ultimately have fin: "run_state (finish_report calm calm_host sample_generator 5 7 sample_report rd')
      (sample_disk\<lparr>dw := w2\<lparr>tick := Suc (tick w2)\<rparr>\<rparr>) = (Some (Inr ()), \<lparr>dw = w4, files = [''data/5/7.html'' \<mapsto> ''<html>'']\<rparr>)" for rd'
    using up' by (simp add: finish_report_def renderTemplate_def templateMap_def sample_report_def report_consts
        saveOutput_def checkWkhtmltopdfAvailable_def saveReportFile_def MkdirAll_def WriteFile_def calm_host_def
        sample_generator_def NewReportGenerator_def sample_disk_def Let_def)
  have "p_id sample_report = ''7''" "rg_maxEvents sample_generator = 10000"
    by (simp_all add: sample_report_def sample_generator_def NewReportGenerator_def)
  with up u1 range list got rd fin show ?thesis by (simp add: Generate_def)
qed

theorem generated_file_witness:
  "\<exists>s' n. run_state (Generate calm calm_host sample_generator 5 sample_report) sample_disk = (Some (Inr ()), s') \<and>
    report_row calm 5 7 (db (dw s')) (\<lambda>r. p_file_size_bytes r = Some n)"
proof -
  obtain s' where run: "run_state (Generate calm calm_host sample_generator 5 sample_report) sample_disk
      = (Some (Inr ()), s')" using sample_generation by blast
  have i: "uuid_parse calm (p_id sample_report) = Some 7" by (simp add: sample_report_def)
  from generated_file [OF calm_names run] obtain ext and c :: string where
    row: "report_row calm 5 7 (db (dw s')) (\<lambda>r. p_status r = ReportStatusCompleted \<and>
      p_file_path r = Some (report_path calm sample_generator 5 7 ext) \<and>
      p_file_size_bytes r = Some (int (length c)))"
    unfolding i option.inject by blast
  have "report_row calm 5 7 (db (dw s')) (\<lambda>r. p_file_size_bytes r = Some (int (length c)))"
    by (rule report_row_mono [OF row]) simp
  with run show ?thesis by blast
qed

lemma sample_bounded: "bounded_output calm_host sample_generator" "0 \<le> rg_maxEvents sample_generator"
  by (simp_all add: bounded_output_def calm_host_def sample_generator_def NewReportGenerator_def)

lemma report_counts_at_most_100_witness:
  "\<exists>discs n w' rd. run_state (DiscrepancyStore_List calm 5 (report_filters 0 1)) list_world = (Inr (discs, n), w') \<and>
    aggregateReportData discs [] 10 = Some rd \<and> TotalDiscrepancies rd = 1"
proof -
  let ?f = "report_filters 0 1"
  have calm: "no_faults calm" by (simp add: no_faults_def)
  have f: "filters_ok ?f" "f_Limit ?f = 100" "f_Cursor ?f = []"
    by (simp_all add: report_filters_def filters_ok_def text_ok_def)
  then have c: "cursor_selects calm (db list_world) (f_Cursor ?f) None" by (simp add: cursor_selects_def)
  obtain got w' where run: "run_state (DiscrepancyStore_List calm 5 ?f) list_world = (got, w')" by fastforce
  obtain discs n where got: "got = Inr (discs, n)"
    using List_result [OF calm f(1) c _ _ list_world_facts(1) codec_calm run] f by auto
  obtain rd where rd: "aggregateReportData discs [] 10 = Some rd"
    using aggregate_panics [of discs "[]" 10] by (cases "aggregateReportData discs [] 10") auto
  have "filter (matches calm 5 ?f) (discrepancies (db list_world)) = [sample_row StatusOpen None]"
    by (simp add: list_world_def sample_db_def matches_def report_filters_def sample_row_def)
  then have "TotalDiscrepancies rd = 1"
    using report_counts_at_most_100 [OF calm codec_calm list_world_facts(1) run [unfolded got] rd] by simp
  with run got rd show ?thesis by blast
qed

end
