(* ===== verification/ReportsApi.thy ===== *)
theory ReportsApi
  imports ReportRuns
begin

text \<open>
  The endpoints of the reports (\<open>reports.go\<close>, \<open>reports_download.go\<close>) and the job that deletes the
  files of old reports (\<open>engine/report_cleanup.go\<close>).
\<close>

section \<open>reports.go\<close>

record createReportRequest =
  rr_ReportType :: string
  rr_DateFrom :: string
  rr_DateTo :: string
  rr_Title :: string
  rr_Filters :: jobject

definition decode_report :: "json \<Rightarrow> createReportRequest option" where
  "decode_report j = do {
     kvs \<leftarrow> members j;
     ty \<leftarrow> dec_field as_string ''report_type'' [] kvs;
     dfrom \<leftarrow> dec_field as_string ''date_from'' [] kvs;
     dto \<leftarrow> dec_field as_string ''date_to'' [] kvs;
     title \<leftarrow> dec_field as_string ''title'' [] kvs;
     filters \<leftarrow> dec_field as_map ''filters'' None kvs;
     Some \<lparr>rr_ReportType = ty, rr_DateFrom = dfrom, rr_DateTo = dto, rr_Title = title, rr_Filters = filters\<rparr>
   }"

text \<open>The text of the error, empty when there is none.\<close>

definition validateCreateReport :: "createReportRequest \<Rightarrow> string" where
  "validateCreateReport req =
     (if rr_ReportType req = [] then ''report_type is required''
      else if \<not> ValidReportType (rr_ReportType req) then ''invalid report_type: '' @ rr_ReportType req
      else if rr_DateFrom req = [] then ''date_from is required''
      else if rr_DateTo req = [] then ''date_to is required''
      else if length (rr_Title req) > 500 then ''title must be 500 characters or fewer''
      else [])"

datatype reports_reply = Created report | Reports "report list" | Served string string string

text \<open>The fields of the report that \<open>Create\<close> sets.\<close>

definition new_report :: "createReportRequest \<Rightarrow> report" where
  "new_report req =
     \<lparr>p_id = [], p_tenant_id = [], p_report_type = rr_ReportType req,
      p_title = (if rr_Title req = []
                 then rr_ReportType req @ '': '' @ rr_DateFrom req @ '' to '' @ rr_DateTo req else rr_Title req),
      p_parameters = Some ([(''date_from'', JStr (rr_DateFrom req)), (''date_to'', JStr (rr_DateTo req))] @
        (case rr_Filters req of None \<Rightarrow> [] | Some m \<Rightarrow> [(''filters'', JObj m)])),
      p_status = ReportStatusPending, p_file_path = None, p_file_size_bytes = None, p_generated_by = None,
      p_created_at = zero_time, p_updated_at = zero_time\<rparr>"

text \<open>
  The answer, and the call of \<open>Generate\<close> that the goroutine will make; \<open>with_generator\<close>: the handler has a
  generator.
\<close>

definition ReportsHandler_Create ::
  "env \<Rightarrow> bool \<Rightarrow> request \<Rightarrow> (world, reports_reply response \<times> (uuid \<times> report) option) state" where
  "ReportsHandler_Create E with_generator r =
     (case parseTenantID E r of
        Inl resp \<Rightarrow> ret (resp, None)
      | Inr tid \<Rightarrow>
     (case Option.bind (body r) decode_report of
        None \<Rightarrow> ret (RespondError 400 ''INVALID_BODY'' ''Invalid JSON request body'', None)
      | Some req \<Rightarrow>
          if validateCreateReport req \<noteq> []
          then ret (RespondError 400 ''VALIDATION_ERROR'' (validateCreateReport req), None)
          else do {
            created \<leftarrow> ReportStore_Create E tid (new_report req);
            ret (case created of
                   Inl e \<Rightarrow> (RespondError 500 ''CREATE_FAILED'' ''Failed to create report'', None)
                 | Inr rpt \<Rightarrow> (RespondJSON 202 (Created rpt), if with_generator then Some (tid, rpt) else None))
          }))"

definition ReportsHandler_List :: "env \<Rightarrow> request \<Rightarrow> (world, reports_reply response) state" where
  "ReportsHandler_List E r =
     (case parseTenantID E r of
        Inl resp \<Rightarrow> ret resp
      | Inr tid \<Rightarrow> do {
          got \<leftarrow> ReportStore_List E tid;
          ret (case got of
                 Inl e \<Rightarrow> RespondError 500 ''LIST_FAILED'' ''Failed to list reports''
               | Inr ps \<Rightarrow> RespondJSON 200 (Reports ps))
        })"

section \<open>reports\_download.go\<close>

text \<open>
  \<open>strings.ToLower\<close> on ASCII letters; no character outside of ASCII becomes a letter of the extensions
  it is compared with.
\<close>

definition lower_char :: "char \<Rightarrow> char" where
  "lower_char c = (if 65 \<le> (of_char c :: nat) \<and> (of_char c :: nat) \<le> 90 then char_of ((of_char c :: nat) + 32) else c)"

definition content_type :: "string \<Rightarrow> string" where
  "content_type filePath =
     (let ext = map lower_char (Ext filePath) in
      if ext = ''.pdf'' then ''application/pdf''
      else if ext = ''.html'' \<or> ext = ''.htm'' then ''text/html''
      else ''application/octet-stream'')"

text \<open>
  \<open>http.ServeFile\<close> of a whole file: the path of the request has no \<open>..\<close> and does not end in
  \<open>/index.html\<close>, and the request is not conditional and has no range.
\<close>

definition ServeFile :: "host \<Rightarrow> string \<Rightarrow> (disk_world, nat + string) state" where
  "ServeFile H path = do {
     t \<leftarrow> disk_tick;
     s \<leftarrow> State_Monad.get;
     ret (case fs_error H t of Some e \<Rightarrow> Inl 500
          | None \<Rightarrow> (case files s path of None \<Rightarrow> Inl 404 | Some c \<Rightarrow> Inr c))
   }"

definition Download :: "env \<Rightarrow> host \<Rightarrow> request \<Rightarrow> (disk_world, reports_reply response) state" where
  "Download E H r =
     (case parseTenantID E r of
        Inl resp \<Rightarrow> ret resp
      | Inr tid \<Rightarrow>
     (case uuid_parse E (url_id r) of
        None \<Rightarrow> ret (RespondError 400 ''INVALID_ID'' ''Invalid report ID format'')
      | Some reportID \<Rightarrow> do {
          got \<leftarrow> on_world (ReportStore_GetByID E tid reportID);
          case got of
            Inl e \<Rightarrow> ret (RespondError 404 ''NOT_FOUND'' ''Report not found'')
          | Inr rpt \<Rightarrow>
              if p_status rpt \<noteq> ReportStatusCompleted
              then ret (RespondError 400 ''NOT_READY'' ''Report is not ready for download'')
              else (let filePath = (case p_file_path rpt of None \<Rightarrow> [] | Some p \<Rightarrow> p) in
                if filePath = []
                then ret (RespondError 500 ''FILE_MISSING'' ''Report file path is not set'')
                else do {
                  info \<leftarrow> Stat H filePath;
                  if info = Inl NotExist
                  then ret (RespondError 500 ''FILE_MISSING'' ''Report file missing'')
                  else do {
                    served \<leftarrow> ServeFile H filePath;
                    ret (case served of
                           Inl code \<Rightarrow> Error code [] []
                         | Inr content \<Rightarrow> Reply 200 (Served (content_type filePath) (Base filePath) content))
                  }
                })
        }))"

section \<open>report\_cleanup.go\<close>

definition retentionDays :: int where
  "retentionDays = 365"

definition cleanupReport :: "env \<Rightarrow> host \<Rightarrow> report \<Rightarrow> (disk_world, int) state" where
  "cleanupReport E H rpt = do {
     freed \<leftarrow> (case p_file_path rpt of
         None \<Rightarrow> ret (Some 0)
       | Some path \<Rightarrow>
           if path = [] then ret (Some 0)
           else do {
             info \<leftarrow> Stat H path;
             removed \<leftarrow> Remove H path;
             ret (case removed of
                    Inl (PathError e) \<Rightarrow> None
                  | _ \<Rightarrow> Some (case info of Inl e \<Rightarrow> 0 | Inr n \<Rightarrow> int n))
           });
     case freed of
       None \<Rightarrow> ret (- 1)
     | Some n \<Rightarrow>
         (case uuid_parse E (p_id rpt) of
            None \<Rightarrow> ret (- 1)
          | Some reportID \<Rightarrow> do {
              marked \<leftarrow> on_world (MarkCleaned E reportID);
              ret (case marked of Inl e \<Rightarrow> - 1 | Inr _ \<Rightarrow> n)
            })
   }"

text \<open>The loop, with the number of deleted files and the freed bytes that are logged.\<close>

primrec cleanup_all :: "env \<Rightarrow> host \<Rightarrow> report list \<Rightarrow> nat \<Rightarrow> int \<Rightarrow> (disk_world, nat \<times> int) state" where
  "cleanup_all E H [] deleted freed = ret (deleted, freed)"
| "cleanup_all E H (rpt # rpts) deleted freed = do {
     n \<leftarrow> cleanupReport E H rpt;
     if n \<ge> 0 then cleanup_all E H rpts (Suc deleted) (freed + n)
     else cleanup_all E H rpts deleted freed
   }"

definition Cleanup :: "env \<Rightarrow> host \<Rightarrow> (disk_world, unit result) state" where
  "Cleanup E H = do {
     now \<leftarrow> on_world (time_Now E);
     got \<leftarrow> on_world (ListOlderThan E (now - retentionDays * (24 * 3600 * 10 ^ 9)) ReportStatusCompleted);
     case got of
       Inl e \<Rightarrow> ret (Inl (wrap ''report_cleanup: list old reports'' e))
     | Inr rpts \<Rightarrow>
         if rpts = [] then ret (Inr ())
         else do { _ \<leftarrow> cleanup_all E H rpts 0 0; ret (Inr ()) }
   }"

text \<open>A tick of the ticker of \<open>Start\<close>: it acts in the hour from 02:00 to 03:00 UTC.\<close>

definition cleaner_tick :: "env \<Rightarrow> host \<Rightarrow> (disk_world, unit) state" where
  "cleaner_tick E H = do {
     now \<leftarrow> on_world (time_Now E);
     if now div (3600 * 10 ^ 9) mod 24 = 2 then do { _ \<leftarrow> Cleanup E H; ret () } else ret ()
   }"

section \<open>A report that was accepted\<close>

lemma ReportStore_Create_ok:
  assumes "run_state (ReportStore_Create E tid x) w = (Inr rpt, w')"
  shows "(\<exists>i. p_id rpt = uuid_text E i \<and> is_report E tid i rpt) \<and> p_status rpt = p_status x \<and>
    report_insertable (db w) rpt \<and> db w' = (db w)\<lparr>reports := reports (db w) @ [rpt]\<rparr>"
  using assms
  by (auto simp: ReportStore_Create_def run_pg insert_report_def Let_def rejected_def is_report_def split: if_splits)

lemma parseTenantID_Reply [simp]: "parseTenantID E r \<noteq> Inl (Reply code x)"
  by (auto simp: parseTenantID_def RespondError_def Let_def split: option.split)

lemma Create_accepted:
  assumes "run_state (ReportsHandler_Create E b r) w = ((Reply code (Created rpt), job), w')"
  shows "\<exists>tid req i. tenant_of E r tid \<and> Option.bind (body r) decode_report = Some req \<and>
    validateCreateReport req = [] \<and> code = 202 \<and> job = (if b then Some (tid, rpt) else None) \<and>
    p_id rpt = uuid_text E i \<and> p_status rpt = ReportStatusPending \<and> is_report E tid i rpt \<and>
    report_insertable (db w) rpt \<and> db w' = (db w)\<lparr>reports := reports (db w) @ [rpt]\<rparr>"
proof -
  obtain tid req out where tid: "tenant_of E r tid" and req: "Option.bind (body r) decode_report = Some req"
    and ok: "validateCreateReport req = []"
    and run: "run_state (ReportStore_Create E tid (new_report req)) w = (out, w')"
    and out: "(case out of Inl e \<Rightarrow> (RespondError 500 ''CREATE_FAILED'' ''Failed to create report'', None)
      | Inr x \<Rightarrow> (RespondJSON 202 (Created x), if b then Some (tid, x) else None)) = (Reply code (Created rpt), job)"
    using assms
    by (auto simp: ReportsHandler_Create_def RespondError_def parseTenantID_Inr
        split: sum.splits option.splits if_splits prod.splits)
  from out have o': "out = Inr rpt" "code = 202" "job = (if b then Some (tid, rpt) else None)"
    by (auto simp: RespondError_def RespondJSON_def split: sum.splits)
  have "p_status (new_report req) = ReportStatusPending" by (simp add: new_report_def)
  with ReportStore_Create_ok [OF run [unfolded o'(1)]] tid req ok o' show ?thesis by auto
qed

lemma inserted_row:
  assumes "report_insertable d rpt" and "is_report E tid i rpt" and "p_id rpt = uuid_text E i"
  shows "report_row E tid i (d\<lparr>reports := reports d @ [rpt]\<rparr>) (\<lambda>r. r = rpt)"
  using assms by (auto simp: report_row_def report_insertable_def is_report_def)

text \<open>
  C19 (liveness). A report that \<open>POST /api/reports\<close> accepted does not stay pending: while the database
  answers, the goroutine the handler started returns without a panic and leaves the report
  \<open>completed\<close> or \<open>failed\<close>, whichever calls of the file system, the converter or the template engine
  fail, when the path of the report fits its column.
\<close>

theorem accepted_report_ends:
  assumes "no_faults E" and "uuid_codec E" and "temp_names H" and "uuid_names E"
    and "bounded_output H g" and "0 \<le> rg_maxEvents g" and "reports_ok (db (dw s))"
    and created: "run_state (ReportsHandler_Create E True r) (dw s) = ((Reply 202 (Created rpt), Some (tid, started)), w')"
    and "uuid_parse E (p_id rpt) = Some i" and "storable_paths E g tid i"
  shows "\<exists>out s'. run_state (Generate E H g tid started) (s\<lparr>dw := w'\<rparr>) = (Some out, s') \<and>
    report_row E tid i (db (dw s')) report_ended"
proof -
  obtain i' where i: "p_id rpt = uuid_text E i'" "is_report E tid i' rpt" and st: "started = rpt"
    and ins: "report_insertable (db (dw s)) rpt" and db: "db w' = (db (dw s))\<lparr>reports := reports (db (dw s)) @ [rpt]\<rparr>"
    using Create_accepted [OF created] by auto
  have "i' = i" using i(1) assms(2,9) by simp
  obtain out s' where run: "run_state (Generate E H g tid rpt) (s\<lparr>dw := w'\<rparr>) = (out, s')" by fastforce
  have "reports_ok (db w')"
    using assms(7) reports_step_append [OF ins refl] unfolding db reports_step_def by blast
  moreover have "report_row E tid i (db w') (\<lambda>r. r = rpt)"
    using inserted_row [OF ins i(2,1)] \<open>i' = i\<close> unfolding db by simp
  ultimately have "out \<noteq> None \<and> report_row E tid i (db (dw s')) report_ended"
    using Generate_ends [OF assms(1,3,4,9,10,6,5) _ _ run] by simp
  with run st show ?thesis by auto
qed

section \<open>Downloads\<close>

lemma GetByID_report:
  assumes "run_state (ReportStore_GetByID E tid i) w = (Inr rpt, w')"
  shows "rpt \<in> set (reports (db w)) \<and> is_report E tid i rpt \<and> db w' = db w"
  using assms
  by (auto simp: ReportStore_GetByID_def wrapped_def run_pg query_def dest: first_row_Inr split: sum.splits if_splits)

text \<open>
  C20 (safety). A download only delivers a completed report of the tenant the request was authenticated
  as: the content is that of the file its row names, and neither tables nor files change.
\<close>

theorem download_own:
  assumes "run_state (Download E H r) s = (Reply code (Served ct name content), s')"
  shows "\<exists>tid i rpt path. tenant_of E r tid \<and> uuid_parse E (url_id r) = Some i \<and>
    rpt \<in> set (reports (db (dw s))) \<and> is_report E tid i rpt \<and> p_status rpt = ReportStatusCompleted \<and>
    p_file_path rpt = Some path \<and> files s path = Some content \<and> ct = content_type path \<and> name = Base path \<and>
    db (dw s') = db (dw s) \<and> files s' = files s"
proof -
  obtain tid where tid: "parseTenantID E r = (Inr tid :: reports_reply response + uuid)"
    using assms by (cases "parseTenantID E r :: reports_reply response + uuid")
      (auto simp: Download_def parseTenantID_def RespondError_def Let_def split: if_splits option.splits)
  obtain i where i: "uuid_parse E (url_id r) = Some i"
    using assms tid by (cases "uuid_parse E (url_id r)") (auto simp: Download_def RespondError_def)
  obtain got w where g: "run_state (ReportStore_GetByID E tid i) (dw s) = (got, w)" by fastforce
  then obtain rpt where got: "got = Inr rpt"
    using assms tid i by (cases got) (auto simp: Download_def RespondError_def)
  note row = GetByID_report [OF g [unfolded got]]
  obtain path where "p_status rpt = ReportStatusCompleted" "p_file_path rpt = Some path" "files s path = Some content"
    "ct = content_type path" "name = Base path" "db (dw s') = db w" "files s' = files s"
    using assms tid i g got
    by (auto simp: Download_def RespondError_def Stat_def ServeFile_def Let_def split: if_splits option.splits)
  with tid i row show ?thesis by (auto simp: parseTenantID_Inr)
qed

section \<open>What the cleanup removes\<close>

text \<open>
  Rows with one of the given identifiers may be cleaned, files of the given paths may be removed, and
  nothing else changes.
\<close>

definition cleanup_step :: "string set \<Rightarrow> string set \<Rightarrow> disk_world \<Rightarrow> disk_world \<Rightarrow> bool" where
  "cleanup_step ids paths s s' \<longleftrightarrow>
     (\<exists>ps. db (dw s') = (db (dw s))\<lparr>reports := ps\<rparr> \<and>
       list_all2 (\<lambda>r r'. r' = r \<or> p_id r \<in> ids \<and> (\<exists>now. r' = cleaned now r)) (reports (db (dw s))) ps) \<and>
     (\<forall>p. files s' p \<noteq> files s p \<longrightarrow> p \<in> paths \<and> files s' p = None)"

lemma cleaned_simps [simp]: "p_id (cleaned now r) = p_id r" "cleaned now (cleaned now' r) = cleaned now r"
  by (simp_all add: cleaned_def)

interpretation cleaning: step_preorder "cleanup_step ids paths" for ids paths
proof
  show "cleanup_step ids paths s s" for s
    by (auto simp: cleanup_step_def list_all2_refl intro: exI [of _ "reports (db (dw s))"])
  show "cleanup_step ids paths s v" if su: "cleanup_step ids paths s u" and uv: "cleanup_step ids paths u v" for s u v
  proof -
    let ?P = "\<lambda>r r'. r' = r \<or> p_id r \<in> ids \<and> (\<exists>now. r' = cleaned now r)"
    obtain ps qs where ps: "db (dw u) = (db (dw s))\<lparr>reports := ps\<rparr>" "list_all2 ?P (reports (db (dw s))) ps"
      and qs: "db (dw v) = (db (dw u))\<lparr>reports := qs\<rparr>" "list_all2 ?P (reports (db (dw u))) qs"
      using su uv unfolding cleanup_step_def by blast
    have "list_all2 ?P (reports (db (dw s))) qs"
    proof (rule list_all2_trans [OF _ ps(2)])
      show "list_all2 ?P ps qs" using qs(2) ps(1) by simp
      show "?P a c" if "?P a b" "?P b c" for a b c using that by (auto; metis cleaned_simps)
    qed
    moreover have "p \<in> paths \<and> files v p = None" if "files v p \<noteq> files s p" for p
      using su uv that unfolding cleanup_step_def by (cases "files v p = files u p") auto
    ultimately show ?thesis using ps(1) qs(1) by (auto simp: cleanup_step_def)
  qed
qed

lemma cleanup_step_frame:
  "db (dw s') = db (dw s) \<Longrightarrow> (\<And>p. files s' p \<noteq> files s p \<Longrightarrow> p \<in> paths \<and> files s' p = None) \<Longrightarrow>
    cleanup_step ids paths s s'"
  by (auto simp: cleanup_step_def list_all2_refl intro: exI [of _ "reports (db (dw s))"])

lemma cleanup_io:
  "state_io_rel (cleanup_step ids paths) (on_world (time_Now E))"
  "state_io_rel (cleanup_step ids paths) (on_world (ListOlderThan E cutoff st))"
  "state_io_rel (cleanup_step ids paths) (Stat H p)"
  "p \<in> paths \<Longrightarrow> state_io_rel (cleanup_step ids paths) (Remove H p)"
  by (auto simp: state_io_rel_def ListOlderThan_def wrapped_def run_pg query_def Stat_def Remove_def
      intro!: cleanup_step_frame split: option.split if_splits)

lemma cleanup_io_mark:
  assumes "uuid_text E i \<in> ids"
  shows "state_io_rel (cleanup_step ids paths) (on_world (MarkCleaned E i))"
proof -
  let ?mark = "\<lambda>t r. if p_id r = uuid_text E i then cleaned t r else r"
  have all: "list_all2 (\<lambda>r r'. r' = r \<or> p_id r \<in> ids \<and> (\<exists>now. r' = cleaned now r)) xs (map (?mark t) xs)" for xs t
    using assms by (induction xs) auto
  have run: "db (snd (run_state (MarkCleaned E i) w)) = db w \<or>
      db (snd (run_state (MarkCleaned E i) w)) = (db w)\<lparr>reports := map (?mark (clock E (tick w))) (reports (db w))\<rparr>" for w
    by (auto simp: MarkCleaned_def rows_or_not_found_def run_pg update_reports_def Let_def rejected_def split: if_splits)
  have "cleanup_step ids paths s (s\<lparr>dw := w\<rparr>)"
    if "db w = db (dw s) \<or> db w = (db (dw s))\<lparr>reports := map (?mark t) (reports (db (dw s)))\<rparr>" for s w t
    using that
  proof
    assume "db w = db (dw s)"
    then show ?thesis by (intro cleanup_step_frame) simp_all
  next
    assume "db w = (db (dw s))\<lparr>reports := map (?mark t) (reports (db (dw s)))\<rparr>"
    then show ?thesis
      unfolding cleanup_step_def using all [of "reports (db (dw s))" t] by (intro conjI exI) simp_all
  qed
  with run show ?thesis unfolding state_io_rel_def run_on_world snd_conv by blast
qed

lemma cleanup_io_report:
  assumes "\<And>p. p_file_path rpt = Some p \<Longrightarrow> p \<noteq> [] \<Longrightarrow> p \<in> paths"
    and "\<And>i. uuid_parse E (p_id rpt) = Some i \<Longrightarrow> uuid_text E i \<in> ids"
  shows "state_io_rel (cleanup_step ids paths) (cleanupReport E H rpt)"
  unfolding cleanupReport_def
  using assms by (auto intro!: cleaning.io_rules cleanup_io cleanup_io_mark split: option.split)

lemma cleanup_io_all:
  assumes "\<And>r. r \<in> set rpts \<Longrightarrow> state_io_rel (cleanup_step ids paths) (cleanupReport E H r)"
  shows "state_io_rel (cleanup_step ids paths) (cleanup_all E H rpts n freed)"
  using assms by (induction rpts arbitrary: n freed) (auto intro!: cleaning.io_rules)

text \<open>The reports \<open>Cleanup\<close> is about.\<close>

definition expired :: "gotime \<Rightarrow> report \<Rightarrow> bool" where
  "expired now r \<longleftrightarrow>
     p_status r = ReportStatusCompleted \<and> p_created_at r < now - retentionDays * (24 * 3600 * 10 ^ 9)"

lemma ListOlderThan_result:
  assumes "run_state (ListOlderThan E cutoff st) w = (Inr rpts, w')"
  shows "set rpts = {r \<in> set (reports (db w)). p_created_at r < cutoff \<and> p_status r = st}"
  using assms by (auto simp: ListOlderThan_def wrapped_def run_pg query_def split: sum.splits if_splits)

lemma Cleanup_step:
  assumes "uuid_codec E" and ids: "\<And>r. r \<in> set (reports (db (dw s))) \<Longrightarrow> \<exists>u. p_id r = uuid_text E u"
    and "run_state (Cleanup E H) s = (out, s')"
  shows "cleanup_step (p_id ` {r \<in> set (reports (db (dw s))). expired (clock E (tick (dw s))) r})
    {p. \<exists>r\<in>set (reports (db (dw s))). expired (clock E (tick (dw s))) r \<and> p_file_path r = Some p} s s'"
    (is "cleanup_step ?ids ?paths s s'")
proof -
  let ?now = "clock E (tick (dw s))"
  let ?s1 = "s\<lparr>dw := (dw s)\<lparr>tick := Suc (tick (dw s))\<rparr>\<rparr>"
  obtain got w where list: "run_state (ListOlderThan E (?now - retentionDays * (24 * 3600 * 10 ^ 9)) ReportStatusCompleted)
      (dw ?s1) = (got, w)" by fastforce
  have "cleanup_step ?ids ?paths s ?s1" by (rule cleanup_step_frame) simp_all
  moreover have "run_state (on_world (ListOlderThan E (?now - retentionDays * (24 * 3600 * 10 ^ 9)) ReportStatusCompleted)) ?s1
      = (got, ?s1\<lparr>dw := w\<rparr>)" using list by simp
  then have w: "cleanup_step ?ids ?paths ?s1 (?s1\<lparr>dw := w\<rparr>)" by (rule cleaning.io_run [OF cleanup_io(2)])
  ultimately have listed: "cleanup_step ?ids ?paths s (?s1\<lparr>dw := w\<rparr>)" by (rule cleaning.step_trans)
  have run: "run_state (Cleanup E H) s = run_state (case got of
      Inl e \<Rightarrow> ret (Inl (wrap ''report_cleanup: list old reports'' e)) 
    | Inr rpts \<Rightarrow> if rpts = [] then ret (Inr ()) else do { _ \<leftarrow> cleanup_all E H rpts 0 0; ret (Inr ()) }) (?s1\<lparr>dw := w\<rparr>)"
    using list by (simp add: Cleanup_def)
  show ?thesis
  proof (cases got)
    case (Inl e)
    with run assms(3) listed show ?thesis by simp
  next
    case (Inr rpts)
    have rpts: "set rpts = {r \<in> set (reports (db (dw s))). expired ?now r}"
      using ListOlderThan_result [OF list [unfolded Inr]] by (auto simp: expired_def)
    have "state_io_rel (cleanup_step ?ids ?paths) (cleanupReport E H r)" if "r \<in> set rpts" for r
    proof (rule cleanup_io_report)
      show "p \<in> ?paths" if "p_file_path r = Some p" for p using that \<open>r \<in> set rpts\<close> rpts by blast
      obtain u where "p_id r = uuid_text E u" using ids \<open>r \<in> set rpts\<close> rpts by blast
      then show "uuid_text E i \<in> ?ids" if "uuid_parse E (p_id r) = Some i" for i
        using that assms(1) \<open>r \<in> set rpts\<close> rpts by force
    qed
    from cleanup_io_all [OF this]
    have "cleanup_step ?ids ?paths (?s1\<lparr>dw := w\<rparr>) (snd (run_state (cleanup_all E H rpts 0 0) (?s1\<lparr>dw := w\<rparr>)))"
      by (rule cleaning.io_snd)
    moreover have "s' = (if rpts = [] then ?s1\<lparr>dw := w\<rparr> else snd (run_state (cleanup_all E H rpts 0 0) (?s1\<lparr>dw := w\<rparr>)))"
      using run assms(3) Inr by (simp add: split_beta split: if_splits)
    ultimately show ?thesis using listed cleaning.step_trans by (cases "rpts = []") auto
  qed
qed

text \<open>
  C21 (safety). A run of the cleanup, whatever fails in it, touches nothing but completed reports older
  than 365 days: every other row stays as it is, a touched row becomes \<open>cleaned\<close> without a path and a
  size, and a file is only ever removed, and only if such a report names it.
\<close>

theorem cleanup_only_expired:
  assumes "uuid_codec E" and "distinct (map p_id (reports (db (dw s))))"
    and "\<And>r. r \<in> set (reports (db (dw s))) \<Longrightarrow> \<exists>u. p_id r = uuid_text E u"
    and "run_state (Cleanup E H) s = (out, s')"
  shows "(\<exists>ps. db (dw s') = (db (dw s))\<lparr>reports := ps\<rparr> \<and>
      list_all2 (\<lambda>r r'. r' = r \<or> expired (clock E (tick (dw s))) r \<and> (\<exists>now. r' = cleaned now r)) (reports (db (dw s))) ps) \<and>
    (\<forall>p. files s' p \<noteq> files s p \<longrightarrow> files s' p = None \<and>
      (\<exists>r\<in>set (reports (db (dw s))). expired (clock E (tick (dw s))) r \<and> p_file_path r = Some p))"
proof -
  let ?old = "expired (clock E (tick (dw s)))" let ?rs = "reports (db (dw s))"
  note step = Cleanup_step [OF assms(1,3,4)]
  then obtain ps where ps: "db (dw s') = (db (dw s))\<lparr>reports := ps\<rparr>"
    and all: "list_all2 (\<lambda>r r'. r' = r \<or> p_id r \<in> p_id ` {r \<in> set ?rs. ?old r} \<and> (\<exists>now. r' = cleaned now r)) ?rs ps"
    unfolding cleanup_step_def by blast
  have "?old r" if "r \<in> set ?rs" "p_id r \<in> p_id ` {r \<in> set ?rs. ?old r}" for r
    using that assms(2) by (auto simp: distinct_map inj_on_def)
  then have "list_all2 (\<lambda>r r'. r' = r \<or> ?old r \<and> (\<exists>now. r' = cleaned now r)) ?rs ps"
    using all by (auto simp: list_all2_conv_all_nth)
  moreover have "\<forall>p. files s' p \<noteq> files s p \<longrightarrow> files s' p = None \<and> (\<exists>r\<in>set ?rs. ?old r \<and> p_file_path r = Some p)"
    using step unfolding cleanup_step_def by blast
  ultimately show ?thesis using ps by blast
qed

section \<open>On a concrete host\<close>

definition report_request :: request where
  "report_request = (header_request [] [])\<lparr>ctx_tenant := ''5'', url_id := ''7'', body := Some (JObj
     [(''report_type'', JStr ''custom''), (''date_from'', JStr ''2024-02-29''), (''date_to'', JStr ''2024-03-01'')])\<rparr>"

definition asked_report :: createReportRequest where
  "asked_report = \<lparr>rr_ReportType = ''custom'', rr_DateFrom = ''2024-02-29'', rr_DateTo = ''2024-03-01'',
     rr_Title = [], rr_Filters = None\<rparr>"

definition empty_disk :: disk_world where
  "empty_disk = \<lparr>dw = sample_world (sample_db [] []), files = Map.empty\<rparr>"

definition archived :: report where
  "archived = sample_report\<lparr>p_status := ReportStatusCompleted, p_file_path := Some ''data/5/7.html'',
     p_file_size_bytes := Some 6\<rparr>"

definition archive :: disk_world where
  "archive = \<lparr>dw = sample_world ((sample_db [] [])\<lparr>reports := [archived]\<rparr>),
     files = [''data/5/7.html'' \<mapsto> ''<html>'', ''data/keep'' \<mapsto> ''x'']\<rparr>"

lemma report_request_facts:
  "tenant_of calm report_request 5" "Option.bind (body report_request) decode_report = Some asked_report"
  "validateCreateReport asked_report = []" "uuid_parse calm (url_id report_request) = Some 7"
  by (simp add: tenant_of_def report_request_def, code_simp, code_simp, simp add: report_request_def)

lemma text_1000: "text_of_uuid 1000 = ''1000''" "uuid_of_text ''1000'' = Some 1000"
  by (simp add: text_of_uuid_def show_nat.simps, code_simp) (simp add: uuid_of_text_def read_nat_def of_char_def)

lemma report_accepted:
  "\<exists>rpt w'. run_state (ReportsHandler_Create calm True report_request) (dw empty_disk) =
     ((Reply 202 (Created rpt), Some (5, rpt)), w') \<and> p_id rpt = ''1000''"
  using report_request_facts
  by (simp add: ReportsHandler_Create_def ReportStore_Create_def run_pg insert_report_def Let_def empty_disk_def
      new_report_def asked_report_def sample_db_def report_insertable_def report_check_def one_of_def varchar_def
      text_ok_def char_count_code tenant_exists_def acme_def ReportStatusPending_def jsonb_ok_def RespondJSON_def
      text_1000)

theorem accepted_report_ends_witness:
  "\<exists>started w' out s'. run_state (ReportsHandler_Create calm True report_request) (dw empty_disk) =
       ((Reply 202 (Created started), Some (5, started)), w') \<and>
     run_state (Generate calm calm_host sample_generator 5 started) (empty_disk\<lparr>dw := w'\<rparr>) = (Some out, s') \<and>
     report_row calm 5 1000 (db (dw s')) report_ended"
proof -
  obtain rpt w' where run: "run_state (ReportsHandler_Create calm True report_request) (dw empty_disk) =
      ((Reply 202 (Created rpt), Some (5, rpt)), w')" and "p_id rpt = ''1000''" using report_accepted by blast
  then have "uuid_parse calm (p_id rpt) = Some 1000" by (simp add: text_1000)
  moreover have "storable_paths calm sample_generator 5 1000"
  proof -
    have "report_path calm sample_generator 5 1000 ''.html'' = ''data/5/1000.html''"
      "report_path calm sample_generator 5 1000 ''.pdf'' = ''data/5/1000.pdf''"
      unfolding report_path_def sample_generator_def NewReportGenerator_def by (simp add: text_1000, code_simp)+
    then show ?thesis by (simp add: storable_paths_def varchar_def text_ok_def char_count_code)
  qed
  moreover have "no_faults calm" "reports_ok (db (dw empty_disk))"
    by (simp_all add: no_faults_def reports_ok_def empty_disk_def sample_db_def)
  ultimately show ?thesis
    using accepted_report_ends [OF _ codec_calm calm_names sample_bounded _ run] run by blast
qed

theorem download_own_witness:
  "\<exists>s'. run_state (Download calm calm_host report_request) archive =
     (Reply 200 (Served ''text/html'' ''7.html'' ''<html>''), s') \<and> files s' = files archive"
proof -
  have p: "content_type ''data/5/7.html'' = ''text/html''" "Base ''data/5/7.html'' = ''7.html''" by code_simp+
  have "\<exists>s'. run_state (Download calm calm_host report_request) archive =
     (Reply 200 (Served ''text/html'' ''7.html'' ''<html>''), s')"
    using report_request_facts p
    by (simp add: Download_def ReportStore_GetByID_def wrapped_def run_pg query_def first_row_def archive_def
        is_report_def archived_def sample_report_def Stat_def ServeFile_def calm_host_def Let_def)
  with download_own show ?thesis by blast
qed

theorem cleanup_only_expired_witness:
  "files (snd (run_state (Cleanup calm calm_host) archive)) ''data/keep'' = Some ''x''"
proof -
  let ?r = "run_state (Cleanup calm calm_host) archive"
  have rs: "reports (db (dw archive)) = [archived]" by (simp add: archive_def)
  have "distinct (map p_id (reports (db (dw archive))))" by (simp add: rs)
  moreover have "\<exists>u. p_id r = uuid_text calm u" if "r \<in> set (reports (db (dw archive)))" for r
    using that by (auto simp: rs archived_def sample_report_def intro: exI [of _ 7])
  ultimately have "files (snd ?r) p \<noteq> files archive p \<longrightarrow> p_file_path archived = Some p" for p
    using cleanup_only_expired [OF codec_calm, of archive calm_host "fst ?r" "snd ?r"] by (auto simp: rs)
  from this [of "''data/keep''"] show ?thesis by (auto simp: archived_def archive_def)
qed

end
