(* ===== verification/Rag.thy ===== *)
theory Rag
  imports LedgerSpec Config
begin

text \<open>
  Feeding resolved discrepancies to the RAG platform: the document that is built and uploaded
  (\<open>engine/rag_feeder.go\<close>) and the periodic pass (\<open>engine/rag_syncer.go\<close>).
\<close>

section \<open>The outside\<close>

text \<open>
  A multipart upload by its URL, API key, file name and content. \<open>request_error\<close>: \<open>http.NewRequest\<close>
  refuses the URL; \<open>rag_Do\<close>: the status or the error of the request; \<open>rfc3339_text\<close>: a time in the
  format \<open>time.RFC3339\<close> and the zone of the process.
\<close>

record upload =
  up_url :: string
  up_key :: string
  up_filename :: string
  up_content :: string

record rag_net =
  request_error :: "string \<Rightarrow> string option"
  rag_Do :: "nat \<Rightarrow> upload \<Rightarrow> string + int"
  rfc3339_text :: "gotime \<Rightarrow> string"

record rag_world =
  rw :: world
  uploads :: "upload list"
  lastSync :: gotime

definition on_rag :: "(world, 'a) state \<Rightarrow> (rag_world, 'a) state" where
  "on_rag m = State (\<lambda>s. case run_state m (rw s) of (x, w) \<Rightarrow> (x, s\<lparr>rw := w\<rparr>))"

lemma run_on_rag [simp]:
  "run_state (on_rag m) s = (fst (run_state m (rw s)), s\<lparr>rw := snd (run_state m (rw s))\<rparr>)"
  by (simp add: on_rag_def split_beta)

section \<open>rag\_feeder.go\<close>

definition maxTimelineEvents :: nat where
  "maxTimelineEvents = 50"

record RAGFeeder =
  f_baseURL :: string
  f_apiKey :: string
  f_enabled :: bool

definition NewRAGFeeder :: "Config \<Rightarrow> RAGFeeder" where
  "NewRAGFeeder cfg = \<lparr>f_baseURL = RAGPlatformURL cfg, f_apiKey = RAGPlatformAPIKey cfg, f_enabled = RAGFeedEnabled cfg\<rparr>"

definition newline :: string where
  "newline = [CHR 0x0A]"

text \<open>The loop from the last event to the first, which stops at the first closing event it meets.\<close>

primrec last_resolution :: "ledger_event list \<Rightarrow> string" where
  "last_resolution [] = ''unknown''"
| "last_resolution (e # before) =
     (if e_event_type e = EventResolved \<or> e_event_type e = EventAutoClosed
      then (case jstring (e_payload e) ''resolution_type'' of None \<Rightarrow> ''unknown'' | Some rt \<Rightarrow> rt)
      else last_resolution before)"

definition formatDiscrepancyMarkdown :: "rag_net \<Rightarrow> discrepancy \<Rightarrow> ledger_event list \<Rightarrow> string" where
  "formatDiscrepancyMarkdown N disc events =
     (let resolvedAt = (case d_resolved_at disc of None \<Rightarrow> ''unknown'' | Some t \<Rightarrow> rfc3339_text N t) in
      ''---'' @ newline @
      ''id: '' @ d_id disc @ newline @
      ''type: '' @ d_discrepancy_type disc @ newline @
      ''severity: '' @ d_severity disc @ newline @
      ''resolution: '' @ last_resolution (rev events) @ newline @
      ''tenant_id: '' @ d_tenant_id disc @ newline @
      ''resolved_at: '' @ resolvedAt @ newline @
      ''---'' @ newline @
      ''# Discrepancy: '' @ d_title disc @ newline @
      (case d_description disc of None \<Rightarrow> [] | Some s \<Rightarrow> s @ newline) @
      ''## Timeline'' @ newline @
      concat (map (\<lambda>e. ''- '' @ e_event_type e @ '' by '' @ e_actor e @ '' at '' @ rfc3339_text N (e_created_at e) @ newline)
        events))"

definition uploadDocument :: "rag_net \<Rightarrow> RAGFeeder \<Rightarrow> string \<Rightarrow> string \<Rightarrow> (rag_world, unit result) state" where
  "uploadDocument N f discrepancyID content =
     (let url = f_baseURL f @ ''/api/documents'';
          up = \<lparr>up_url = url, up_key = f_apiKey f, up_filename = discrepancyID @ ''.md'', up_content = content\<rparr>
      in case request_error N url of
           Some e \<Rightarrow> ret (Inl (wrap ''create request'' (ErrText e)))
         | None \<Rightarrow> do {
             t \<leftarrow> on_rag next_tick;
             modify (\<lambda>s. s\<lparr>uploads := uploads s @ [up]\<rparr>);
             ret (case rag_Do N t up of
                    Inl e \<Rightarrow> Inl (wrap ''http request'' (ErrText e))
                  | Inr code \<Rightarrow> if code \<ge> 400 then Inl (ErrText (''RAG Platform returned '' @ show_int code)) else Inr ())
           })"

definition FeedResolved :: "env \<Rightarrow> rag_net \<Rightarrow> RAGFeeder \<Rightarrow> uuid \<Rightarrow> discrepancy \<Rightarrow> (rag_world, unit result) state" where
  "FeedResolved E N f tid disc =
     (if \<not> f_enabled f then ret (Inr ())
      else case uuid_parse E (d_id disc) of
        None \<Rightarrow> ret (Inl (ErrText ''rag_feeder.FeedResolved: invalid discrepancy ID''))
      | Some discID \<Rightarrow> do {
          got \<leftarrow> on_rag (ListByDiscrepancy E tid discID);
          (let events = (case got of Inl e \<Rightarrow> [] | Inr es \<Rightarrow> es);
               kept = (if length events > maxTimelineEvents
                       then drop (length events - maxTimelineEvents) events else events)
           in do {
             _ \<leftarrow> uploadDocument N f (d_id disc) (formatDiscrepancyMarkdown N disc kept);
             ret (Inr ())
           })
        })"

section \<open>rag\_syncer.go\<close>

definition NewRAGSyncer :: "env \<Rightarrow> (rag_world, unit) state" where
  "NewRAGSyncer E = do {
     now \<leftarrow> on_rag (time_Now E);
     modify (\<lambda>s. s\<lparr>lastSync := now - 24 * 3600 * 10 ^ 9\<rparr>)
   }"

text \<open>The loop of a pass, with the number of documents that is logged.\<close>

primrec feed_all :: "env \<Rightarrow> rag_net \<Rightarrow> RAGFeeder \<Rightarrow> discrepancy list \<Rightarrow> nat \<Rightarrow> (rag_world, nat) state" where
  "feed_all E N f [] fed = ret fed"
| "feed_all E N f (disc # discs) fed =
     (case uuid_parse E (d_tenant_id disc) of
        None \<Rightarrow> feed_all E N f discs fed
      | Some tenantID \<Rightarrow> do {
          done_one \<leftarrow> FeedResolved E N f tenantID disc;
          case done_one of
            Inl e \<Rightarrow> feed_all E N f discs fed
          | Inr _ \<Rightarrow> feed_all E N f discs (fed + 1)
        })"

definition runSync :: "env \<Rightarrow> rag_net \<Rightarrow> RAGFeeder \<Rightarrow> (rag_world, unit) state" where
  "runSync E N f = do {
     s \<leftarrow> State_Monad.get;
     now \<leftarrow> on_rag (time_Now E);
     listed \<leftarrow> on_rag (ListAllResolvedSince E (lastSync s));
     case listed of
       Inl e \<Rightarrow> ret ()
     | Inr discs \<Rightarrow> do {
         _ \<leftarrow> feed_all E N f discs 0;
         modify (\<lambda>s. s\<lparr>lastSync := now\<rparr>)
       }
   }"

section \<open>What a pass uploads\<close>

text \<open>
  The upload is the document of the discrepancy: its timeline consists of at most 50 events of this
  discrepancy and its tenant.
\<close>

definition document_of :: "rag_net \<Rightarrow> RAGFeeder \<Rightarrow> database \<Rightarrow> discrepancy \<Rightarrow> upload \<Rightarrow> bool" where
  "document_of N f d r u \<longleftrightarrow> up_url u = f_baseURL f @ ''/api/documents'' \<and> up_key u = f_apiKey f \<and>
     up_filename u = d_id r @ ''.md'' \<and>
     (\<exists>evs. up_content u = formatDiscrepancyMarkdown N r evs \<and> length evs \<le> maxTimelineEvents \<and>
        (\<forall>e\<in>set evs. e \<in> set (ledger_events d) \<and> e_tenant_id e = d_tenant_id r \<and> e_discrepancy_id e = d_id r))"

definition feedable :: "env \<Rightarrow> rag_net \<Rightarrow> RAGFeeder \<Rightarrow> bool" where
  "feedable E N f \<longleftrightarrow> uuid_codec E \<and> f_enabled f \<and> request_error N (f_baseURL f @ ''/api/documents'') = None"

definition has_ids :: "env \<Rightarrow> discrepancy \<Rightarrow> bool" where
  "has_ids E r \<longleftrightarrow> (\<exists>u t. d_id r = uuid_text E u \<and> d_tenant_id r = uuid_text E t)"

lemma events_listed:
  assumes "run_state (ListByDiscrepancy E tid i) w = (out, w')"
  shows "db w' = db w \<and> (\<forall>es. out = Inr es \<longrightarrow> (\<forall>e\<in>set es. e \<in> set (ledger_events (db w)) \<and>
    e_tenant_id e = uuid_text E tid \<and> e_discrepancy_id e = uuid_text E i))"
  using assms
  by (auto simp: ListByDiscrepancy_def wrapped_def run_pg query_def events_of_def split: if_splits)

lemma feed_one:
  assumes "feedable E N f" and "d_id r = uuid_text E u" and "d_tenant_id r = uuid_text E t"
    and "run_state (FeedResolved E N f t r) s = (out, s')"
  shows "out = Inr () \<and> (\<exists>up. uploads s' = uploads s @ [up] \<and> document_of N f (db (rw s)) r up) \<and>
    db (rw s') = db (rw s) \<and> lastSync s' = lastSync s"
proof -
  obtain got w where got: "run_state (ListByDiscrepancy E t u) (rw s) = (got, w)" by fastforce
  define es where "es = (case got of Inl e \<Rightarrow> [] | Inr es \<Rightarrow> es)"
  define kept where "kept = (if length es > maxTimelineEvents then drop (length es - maxTimelineEvents) es else es)"
  let ?up = "\<lparr>up_url = f_baseURL f @ ''/api/documents'', up_key = f_apiKey f, up_filename = d_id r @ ''.md'',
      up_content = formatDiscrepancyMarkdown N r kept\<rparr>"
  have "set kept \<subseteq> set es" "length kept \<le> maxTimelineEvents"
    by (auto simp: kept_def dest: in_set_dropD)
  moreover have "\<forall>e\<in>set es. e \<in> set (ledger_events (db (rw s))) \<and> e_tenant_id e = uuid_text E t \<and> e_discrepancy_id e = uuid_text E u"
    using events_listed [OF got] by (auto simp: es_def split: sum.split)
  ultimately have "document_of N f (db (rw s)) r ?up"
    using assms(2,3) unfolding document_of_def by auto
  moreover have "out = Inr () \<and> uploads s' = uploads s @ [?up] \<and> db (rw s') = db w \<and> lastSync s' = lastSync s"
    using assms got
    by (auto simp: FeedResolved_def uploadDocument_def feedable_def Let_def kept_def es_def [symmetric])
  ultimately show ?thesis using events_listed [OF got] by auto
qed

lemma feed_all_uploads:
  assumes "feedable E N f" and "list_all (has_ids E) rs" and "run_state (feed_all E N f rs n) s = (out, s')"
  shows "\<exists>us. uploads s' = uploads s @ us \<and> list_all2 (document_of N f (db (rw s))) rs us \<and>
    db (rw s') = db (rw s) \<and> lastSync s' = lastSync s"
  using assms(2,3)
proof (induction rs arbitrary: n s)
  case (Cons r rs)
  obtain u t where ids: "d_id r = uuid_text E u" "d_tenant_id r = uuid_text E t"
    using Cons.prems(1) by (auto simp: has_ids_def)
  obtain o1 s1 where one: "run_state (FeedResolved E N f t r) s = (o1, s1)" by fastforce
  note f1 = feed_one [OF assms(1) ids one]
  have "run_state (feed_all E N f rs (n + 1)) s1 = (out, s')"
    using Cons.prems(2) one f1 ids assms(1) by (simp add: feedable_def)
  moreover have "list_all (has_ids E) rs" using Cons.prems(1) by simp
  ultimately obtain us where "uploads s' = uploads s1 @ us" "list_all2 (document_of N f (db (rw s1))) rs us"
    "db (rw s') = db (rw s1)" "lastSync s' = lastSync s1" using Cons.IH by blast
  with f1 show ?case by auto
qed auto

text \<open>The rows a pass is about.\<close>

definition closed_since :: "gotime \<Rightarrow> discrepancy \<Rightarrow> bool" where
  "closed_since since r \<longleftrightarrow> (d_status r = StatusResolved \<or> d_status r = StatusAutoClosed) \<and>
     (\<exists>t. d_resolved_at r = Some t \<and> since \<le> t)"

lemma resolved_listed:
  assumes "run_state (ListAllResolvedSince E since) w = (out, w')"
  shows "db w' = db w \<and> (\<forall>rs. out = Inr rs \<longrightarrow> mset rs = mset (filter (closed_since since) (discrepancies (db w))))"
    and "no_faults E \<Longrightarrow> \<exists>rs. out = Inr rs"
proof -
  have "(\<lambda>r. (d_status r = StatusResolved \<or> d_status r = StatusAutoClosed) \<and>
      (case d_resolved_at r of None \<Rightarrow> False | Some x \<Rightarrow> x \<ge> since)) = closed_since since"
    by (auto simp: closed_since_def fun_eq_iff split: option.split)
  with assms show "db w' = db w \<and> (\<forall>rs. out = Inr rs \<longrightarrow> mset rs = mset (filter (closed_since since) (discrepancies (db w))))"
    by (auto simp: ListAllResolvedSince_def wrapped_def run_pg query_def split: if_splits)
  show "no_faults E \<Longrightarrow> \<exists>rs. out = Inr rs"
    using assms by (auto simp: ListAllResolvedSince_def wrapped_def run_pg query_def no_faults_def)
qed

lemma runSync_uploads:
  assumes "feedable E N f" and "\<And>r. r \<in> set (discrepancies (db (rw s))) \<Longrightarrow> has_ids E r"
    and "run_state (runSync E N f) s = (u, s')"
  shows "\<exists>us. uploads s' = uploads s @ us \<and> db (rw s') = db (rw s) \<and>
    (us = [] \<and> lastSync s' = lastSync s \<and> \<not> no_faults E \<or>
     lastSync s' = clock E (tick (rw s)) \<and>
     (\<exists>rs. mset rs = mset (filter (closed_since (lastSync s)) (discrepancies (db (rw s)))) \<and>
        list_all2 (document_of N f (db (rw s))) rs us))"
proof -
  let ?w = "(rw s)\<lparr>tick := Suc (tick (rw s))\<rparr>"
  obtain got w where got: "run_state (ListAllResolvedSince E (lastSync s)) ?w = (got, w)" by fastforce
  note list = resolved_listed [OF got]
  show ?thesis
  proof (cases got)
    case (Inl e)
    with list(2) have "\<not> no_faults E" by auto
    with Inl assms(3) got list(1) show ?thesis by (auto simp: runSync_def)
  next
    case (Inr rs)
    have rs: "mset rs = mset (filter (closed_since (lastSync s)) (discrepancies (db (rw s))))"
      using list(1) Inr by simp
    then have "set rs \<subseteq> set (discrepancies (db (rw s)))" by (metis filter_is_subset mset_eq_setD)
    then have ids: "list_all (has_ids E) rs" using assms(2) by (auto simp: list_all_iff)
    obtain n s1 where all: "run_state (feed_all E N f rs 0) (s\<lparr>rw := w\<rparr>) = (n, s1)" by fastforce
    from feed_all_uploads [OF assms(1) ids all] obtain us where "uploads s1 = uploads s @ us"
      "list_all2 (document_of N f (db w)) rs us" "db (rw s1) = db w" by auto
    moreover have "s' = s1\<lparr>lastSync := clock E (tick (rw s))\<rparr>"
      using assms(3) got Inr all by (simp add: runSync_def)
    ultimately show ?thesis using rs list(1) by auto
  qed
qed

text \<open>
  C30 (functional). While the database answers, a pass of an enabled feeder uploads one document for
  every discrepancy, of any tenant, that was closed since the last pass, and no other; the timeline of
  a document consists of at most 50 events of that discrepancy and that tenant.
\<close>

theorem sync_feeds_closed:
  assumes "feedable E N f" and "no_faults E" and "\<And>r. r \<in> set (discrepancies (db (rw s))) \<Longrightarrow> has_ids E r"
    and "run_state (runSync E N f) s = (u, s')"
  shows "\<exists>us rs. uploads s' = uploads s @ us \<and> lastSync s' = clock E (tick (rw s)) \<and>
    mset rs = mset (filter (closed_since (lastSync s)) (discrepancies (db (rw s)))) \<and>
    list_all2 (document_of N f (db (rw s))) rs us"
  using runSync_uploads [OF assms(1,3,4)] assms(2) by blast


section \<open>On a concrete table\<close>

definition sample_feeder :: RAGFeeder where
  "sample_feeder = \<lparr>f_baseURL = ''http://rag'', f_apiKey = ''k'', f_enabled = True\<rparr>"

text \<open>A platform that refuses every document.\<close>

definition refusing :: rag_net where
  "refusing = \<lparr>request_error = (\<lambda>u. None), rag_Do = (\<lambda>t u. Inr 503), rfc3339_text = (\<lambda>t. ''now'')\<rparr>"

definition rag_start :: rag_world where
  "rag_start = \<lparr>rw = sample_world (sample_db [sample_row StatusResolved (Some 9)] []), uploads = [], lastSync = 0\<rparr>"

lemma rag_facts: "feedable calm refusing sample_feeder" "no_faults calm"
  "\<And>r. r \<in> set (discrepancies (db (rw rag_start))) \<Longrightarrow> has_ids calm r"
proof -
  show "feedable calm refusing sample_feeder" by (simp add: feedable_def refusing_def sample_feeder_def)
  show "no_faults calm" by (simp add: no_faults_def)
  show "has_ids calm r" if "r \<in> set (discrepancies (db (rw rag_start)))" for r
    using that unfolding has_ids_def
    by (intro exI [of _ 7] exI [of _ 5]) (simp add: rag_start_def sample_db_def sample_row_def)
qed

theorem sync_feeds_closed_witness:
  "length (uploads (snd (run_state (runSync calm refusing sample_feeder) rag_start))) = 1"
proof -
  have rows: "filter (closed_since (lastSync rag_start)) (discrepancies (db (rw rag_start))) =
      [sample_row StatusResolved (Some 9)]"
    by (simp add: rag_start_def sample_db_def closed_since_def sample_row_def)
  have run: "run_state (runSync calm refusing sample_feeder) rag_start =
      ((), snd (run_state (runSync calm refusing sample_feeder) rag_start))" by (simp add: prod_eq_iff)
  obtain us rs where "uploads (snd (run_state (runSync calm refusing sample_feeder) rag_start)) = us"
    "mset rs = {#sample_row StatusResolved (Some 9)#}"
    "list_all2 (document_of refusing sample_feeder (db (rw rag_start))) rs us"
    using sync_feeds_closed [OF rag_facts run] unfolding rows by (auto simp: rag_start_def)
  then show ?thesis by (metis list_all2_lengthD size_mset size_single)
qed


end
