(* ===== verification/Router.thy ===== *)
theory Router
  imports Workflow RulesApi RateLimit TenantAuth Stats ReportsApi Rag
begin

text \<open>
  \<open>internal/api/router.go\<close> and the access log of \<open>middleware/logging.go\<close>: the routes with their handlers,
  the stack of middleware, and what a request that comes in can do. The router \<open>chi\<close> is a parameter:
  which of the registered patterns matches a request, and what its own middleware makes of one.
\<close>

section \<open>The outside\<close>

record outside =
  oE :: env
  oC :: crypto
  oH :: host
  oN :: network
  pick :: "(string \<times> string) list \<Rightarrow> request \<Rightarrow> (nat \<times> string) option"
  unmatched :: "request \<Rightarrow> nat"
  RealIP :: "request \<Rightarrow> request"
  RequestID :: "request \<Rightarrow> request"
  recovered :: "nat"

text \<open>
  Documented: \<open>RealIP\<close> rewrites \<open>RemoteAddr\<close>, and \<open>RequestID\<close> adds a value to the context under a key of its
  own package, which is none of the two keys of \<open>ctxutil\<close>.
\<close>

definition chi_ok :: "outside \<Rightarrow> bool" where
  "chi_ok O' \<longleftrightarrow> (\<forall>r. \<exists>a. RealIP O' r = r\<lparr>RemoteAddr := a\<rparr>) \<and> (\<forall>r. RequestID O' r = r)"

text \<open>\<open>logging.go\<close>: a logger is known by its level, below which it writes nothing.\<close>

datatype Level = DebugLevel | InfoLevel | WarnLevel | ErrorLevel

definition parseLevel :: "string \<Rightarrow> Level" where
  "parseLevel level =
     (if level = ''debug'' then DebugLevel else if level = ''info'' then InfoLevel
      else if level = ''warn'' then WarnLevel else if level = ''error'' then ErrorLevel else InfoLevel)"

definition NewLogger :: "string \<Rightarrow> Level" where
  "NewLogger level = parseLevel level"

definition logs_info :: "Level \<Rightarrow> bool" where
  "logs_info lvl \<longleftrightarrow> lvl = DebugLevel \<or> lvl = InfoLevel"

text \<open>
  The dependencies of the router that are not nil: the health handler with its pool and NATS URL, the
  tenant handler with its configuration, the report handler with the presence of its generator.
\<close>

record RouterDeps =
  Pool :: bool
  Logger :: Level
  HealthHandler :: "(bool \<times> string) option"
  TenantHandler :: "Config option"
  DiscrepancyHandler :: bool
  RulesHandler :: bool
  StatsHandler :: bool
  ReportsHandler :: "bool option"
  MetricsHandler :: bool

datatype api_reply =
    WorkflowBody workflow_reply | ListBody list_reply | RulesBody rules_reply | ReportsBody reports_reply
  | TenantBody tenant_reply | StatsBody statsResponse | HealthBody health | MetricsBody | StatusBody string

definition answering_with :: "('b \<Rightarrow> api_reply) \<Rightarrow> 'b handler \<Rightarrow> api_reply handler" where
  "answering_with f h r = do { resp \<leftarrow> h r; ret (map_response f resp) }"

text \<open>A program of the files and the world, inside the process.\<close>

definition on_disk :: "(disk_world, 'a) state \<Rightarrow> (server, 'a) state" where
  "on_disk m = State (\<lambda>s. case run_state m \<lparr>dw = backend s, files = stored_files s\<rparr> of
     (x, d) \<Rightarrow> (x, s\<lparr>backend := dw d, stored_files := files d\<rparr>))"

text \<open>The report handler starts the goroutine it asks for.\<close>

definition create_and_start :: "env \<Rightarrow> bool \<Rightarrow> reports_reply handler" where
  "create_and_start E with_generator r = do {
     (resp, job) \<leftarrow> on_backend (ReportsHandler_Create E with_generator r);
     case job of None \<Rightarrow> ret resp
     | Some j \<Rightarrow> do { modify (\<lambda>s. s\<lparr>started_jobs := started_jobs s @ [j]\<rparr>); ret resp }
   }"

section \<open>The routes\<close>

definition placeholderHandler :: "'b handler" where
  "placeholderHandler r = ret (RespondError 501 ''NOT_IMPLEMENTED'' ''This endpoint is not yet implemented'')"

definition defaultHealthHandler :: "api_reply handler" where
  "defaultHealthHandler r = ret (RespondJSON 200 (StatusBody ''ok''))"

definition healthRoute :: "outside \<Rightarrow> RouterDeps \<Rightarrow> api_reply handler" where
  "healthRoute O' deps = (case HealthHandler deps of
     None \<Rightarrow> defaultHealthHandler
   | Some (pool, url) \<Rightarrow> answering_with HealthBody (plain (\<lambda>r. HealthHandler_Handle (oN O') pool url)))"

definition metricsRoute :: "RouterDeps \<Rightarrow> api_reply handler" where
  "metricsRoute deps = (if MetricsHandler deps then (\<lambda>r. ret (Reply 200 MetricsBody)) else placeholderHandler)"

definition registerRoute :: "outside \<Rightarrow> RouterDeps \<Rightarrow> api_reply handler" where
  "registerRoute O' deps = (case TenantHandler deps of
     None \<Rightarrow> placeholderHandler
   | Some cfg \<Rightarrow> answering_with TenantBody (plain (Register (oE O') (oC O') cfg)))"

definition tenantMeRoute :: "outside \<Rightarrow> RouterDeps \<Rightarrow> api_reply handler" where
  "tenantMeRoute O' deps = (case TenantHandler deps of
     None \<Rightarrow> placeholderHandler
   | Some cfg \<Rightarrow> answering_with TenantBody (plain (GetMe (oE O'))))"

definition discrepancyRoute :: "outside \<Rightarrow> RouterDeps \<Rightarrow> (env \<Rightarrow> request \<Rightarrow> (world, workflow_reply response) state)
    \<Rightarrow> api_reply handler" where
  "discrepancyRoute O' deps h =
     (if DiscrepancyHandler deps then answering_with WorkflowBody (plain (h (oE O'))) else placeholderHandler)"

definition discrepancyListRoute :: "outside \<Rightarrow> RouterDeps \<Rightarrow> api_reply handler" where
  "discrepancyListRoute O' deps =
     (if DiscrepancyHandler deps then answering_with ListBody (plain (DiscrepancyHandler_List (oE O')))
      else placeholderHandler)"

definition statsRoute :: "outside \<Rightarrow> RouterDeps \<Rightarrow> api_reply handler" where
  "statsRoute O' deps =
     (if StatsHandler deps then answering_with StatsBody (plain (GetStats (oE O'))) else placeholderHandler)"

definition rulesRoute :: "outside \<Rightarrow> RouterDeps \<Rightarrow> (env \<Rightarrow> request \<Rightarrow> (world, rules_reply response) state)
    \<Rightarrow> api_reply handler" where
  "rulesRoute O' deps h =
     (if RulesHandler deps then answering_with RulesBody (plain (h (oE O'))) else placeholderHandler)"

definition reportsListRoute :: "outside \<Rightarrow> RouterDeps \<Rightarrow> api_reply handler" where
  "reportsListRoute O' deps = (case ReportsHandler deps of
     None \<Rightarrow> placeholderHandler
   | Some g \<Rightarrow> answering_with ReportsBody (plain (ReportsHandler_List (oE O'))))"

definition reportsCreateRoute :: "outside \<Rightarrow> RouterDeps \<Rightarrow> api_reply handler" where
  "reportsCreateRoute O' deps = (case ReportsHandler deps of
     None \<Rightarrow> placeholderHandler
   | Some g \<Rightarrow> answering_with ReportsBody (create_and_start (oE O') g))"

definition reportsDownloadRoute :: "outside \<Rightarrow> RouterDeps \<Rightarrow> api_reply handler" where
  "reportsDownloadRoute O' deps = (case ReportsHandler deps of
     None \<Rightarrow> placeholderHandler
   | Some g \<Rightarrow> answering_with ReportsBody (\<lambda>r. on_disk (Download (oE O') (oH O') r)))"

type_synonym route = "(string \<times> string) \<times> api_reply handler"

definition public_routes :: "outside \<Rightarrow> RouterDeps \<Rightarrow> route list" where
  "public_routes O' deps =
     [((''GET'', ''/health''), healthRoute O' deps),
      ((''GET'', ''/metrics''), metricsRoute deps),
      ((''POST'', ''/api/tenants/register''), registerRoute O' deps)]"

definition api_routes :: "outside \<Rightarrow> RouterDeps \<Rightarrow> route list" where
  "api_routes O' deps =
     [((''GET'', ''/api/tenants/me''), tenantMeRoute O' deps),
      ((''GET'', ''/api/discrepancies/''), discrepancyListRoute O' deps),
      ((''POST'', ''/api/discrepancies/''), placeholderHandler),
      ((''GET'', ''/api/discrepancies/{id}''), discrepancyRoute O' deps DiscrepancyHandler_GetByID),
      ((''PUT'', ''/api/discrepancies/{id}/status''), placeholderHandler),
      ((''POST'', ''/api/discrepancies/{id}/acknowledge''), discrepancyRoute O' deps Acknowledge),
      ((''POST'', ''/api/discrepancies/{id}/investigate''), discrepancyRoute O' deps Investigate),
      ((''POST'', ''/api/discrepancies/{id}/resolve''), discrepancyRoute O' deps Resolve),
      ((''POST'', ''/api/discrepancies/{id}/notes''), discrepancyRoute O' deps AddNote),
      ((''GET'', ''/api/rules/''), rulesRoute O' deps RulesHandler_List),
      ((''POST'', ''/api/rules/''), rulesRoute O' deps RulesHandler_Create),
      ((''GET'', ''/api/rules/{id}''), placeholderHandler),
      ((''PUT'', ''/api/rules/{id}''), rulesRoute O' deps RulesHandler_Update),
      ((''DELETE'', ''/api/rules/{id}''), rulesRoute O' deps RulesHandler_Delete),
      ((''GET'', ''/api/reports/''), reportsListRoute O' deps),
      ((''POST'', ''/api/reports/''), reportsCreateRoute O' deps),
      ((''GET'', ''/api/reports/{id}''), placeholderHandler),
      ((''GET'', ''/api/reports/{id}/download''), reportsDownloadRoute O' deps),
      ((''GET'', ''/api/stats''), statsRoute O' deps)]"

definition requireAuthStub :: "'b handler \<Rightarrow> 'b handler" where
  "requireAuthStub next_handler r = ret (RespondError 401 ''MISSING_API_KEY'' ''X-API-Key header is required'')"

text \<open>The middleware of the group of the authenticated routes.\<close>

definition with_tenant :: "outside \<Rightarrow> RouterDeps \<Rightarrow> 'b handler \<Rightarrow> 'b handler" where
  "with_tenant O' deps h =
     (if Pool deps then TenantMiddleware_Handler (oE O') (oC O') h else requireAuthStub h)"

definition routes :: "outside \<Rightarrow> RouterDeps \<Rightarrow> route list" where
  "routes O' deps = public_routes O' deps @ map (\<lambda>(p, h). (p, with_tenant O' deps h)) (api_routes O' deps)"

definition dispatch :: "outside \<Rightarrow> RouterDeps \<Rightarrow> api_reply handler" where
  "dispatch O' deps r =
     (case pick O' (map fst (routes O' deps)) r of
        None \<Rightarrow> ret (Error (unmatched O' r) [] [])
      | Some (i, idText) \<Rightarrow>
          if i < length (routes O' deps) then snd (routes O' deps ! i) (r\<lparr>url_id := idText\<rparr>)
          else ret (Error (unmatched O' r) [] []))"

section \<open>The middleware stack\<close>

text \<open>\<open>MaxBytesReader\<close>: a decoder that would read more bytes than the limit gets an error instead.\<close>

definition maxBodySize :: "nat \<Rightarrow> 'b handler \<Rightarrow> 'b handler" where
  "maxBodySize n next_handler r = next_handler (if body_read r > n then r\<lparr>body := None\<rparr> else r)"

definition Recoverer :: "outside \<Rightarrow> 'b handler \<Rightarrow> 'b handler" where
  "Recoverer O' next_handler r = do {
     resp \<leftarrow> next_handler r;
     ret (case resp of Panic \<Rightarrow> Error (recovered O') [] [] | _ \<Rightarrow> resp)
   }"

text \<open>\<open>statusWriter\<close>: the status that is logged is the first one written; \<open>net/http\<close> writes 200 when a body comes first.\<close>

record statusWriter =
  sw_status :: nat
  sw_wrote :: bool

definition WriteHeader :: "nat \<Rightarrow> statusWriter \<Rightarrow> statusWriter" where
  "WriteHeader code w = (if sw_wrote w then w else w\<lparr>sw_status := code, sw_wrote := True\<rparr>)"

definition Write :: "statusWriter \<Rightarrow> statusWriter" where
  "Write w = (if sw_wrote w then w else w\<lparr>sw_status := 200, sw_wrote := True\<rparr>)"

text \<open>The calls \<open>RespondError\<close>, \<open>RespondJSON\<close> and \<open>ServeFile\<close> make: the header, then the body.\<close>

fun written_status :: "'b response \<Rightarrow> nat" where
  "written_status (Error code c m) = sw_status (Write (WriteHeader code \<lparr>sw_status = 200, sw_wrote = False\<rparr>))"
| "written_status (Reply code x) = sw_status (Write (WriteHeader code \<lparr>sw_status = 200, sw_wrote = False\<rparr>))"
| "written_status Panic = 200"

text \<open>The two readings of the clock give the duration that is logged too.\<close>

definition RequestLogger :: "outside \<Rightarrow> Level \<Rightarrow> 'b handler \<Rightarrow> 'b handler" where
  "RequestLogger O' logger next_handler r = do {
     start \<leftarrow> on_backend (time_Now (oE O'));
     resp \<leftarrow> next_handler r;
     stop \<leftarrow> on_backend (time_Now (oE O'));
     modify (\<lambda>s. if logs_info logger
       then s\<lparr>access_log := access_log s @ [\<lparr>l_method = Method r, l_path = URL_Path r,
         l_status = written_status resp, l_tenant = GetTenantID r, l_request_id = GetRequestID r\<rparr>]\<rparr>
       else s);
     ret resp
   }"

definition NewRouter :: "outside \<Rightarrow> RouterDeps \<Rightarrow> api_reply handler" where
  "NewRouter O' deps r =
     RequestLogger O' (Logger deps) (Recoverer O' (NewRateLimiter (oE O') 60 (maxBodySize (2 ^ 20) (dispatch O' deps))))
       (RequestID O' (RealIP O' r))"

section \<open>What a handler may touch\<close>

definition untouched :: "server \<Rightarrow> server \<Rightarrow> bool" where
  "untouched s s' \<longleftrightarrow> db (backend s') = db (backend s) \<and> started_jobs s' = started_jobs s \<and> stored_files s' = stored_files s"

text \<open>
  Acting for the tenant the text stands for: the rows of the other tenants stay, no file changes, and
  every goroutine that was started works for that tenant.
\<close>

definition acts_for :: "env \<Rightarrow> string \<Rightarrow> server \<Rightarrow> server \<Rightarrow> bool" where
  "acts_for E t s s' \<longleftrightarrow> untouched s s' \<or>
     (\<exists>tid js. uuid_parse E t = Some tid \<and>
        (rules_ok (db (backend s)) \<longrightarrow> isolates (uuid_text E tid) (db (backend s)) (db (backend s'))) \<and>
        stored_files s' = stored_files s \<and> started_jobs s' = started_jobs s @ js \<and> (\<forall>j\<in>set js. fst j = tid))"

definition registers :: "server \<Rightarrow> server \<Rightarrow> bool" where
  "registers s s' \<longleftrightarrow> (\<exists>row. db (backend s') = (db (backend s))\<lparr>tenants := tenants (db (backend s)) @ [row]\<rparr> \<and>
     t_is_active row) \<and> started_jobs s' = started_jobs s \<and> stored_files s' = stored_files s"

lemma run_on_disk [simp]:
  "run_state (on_disk m) s = (fst (run_state m \<lparr>dw = backend s, files = stored_files s\<rparr>),
     s\<lparr>backend := dw (snd (run_state m \<lparr>dw = backend s, files = stored_files s\<rparr>)),
       stored_files := files (snd (run_state m \<lparr>dw = backend s, files = stored_files s\<rparr>))\<rparr>)"
  by (simp add: on_disk_def split_beta)

lemma run_answering_with [simp]:
  "run_state (answering_with f h r) s = (map_response f (fst (run_state (h r) s)), snd (run_state (h r) s))"
  by (simp add: answering_with_def split_beta)

lemma run_plain [simp]:
  "run_state (plain h r) s = (fst (run_state (h r) (backend s)), s\<lparr>backend := snd (run_state (h r) (backend s))\<rparr>)"
  by (simp add: plain_def)

lemma placeholder_untouched: "untouched s (snd (run_state (placeholderHandler r) s))"
  by (simp add: placeholderHandler_def untouched_def)

text \<open>A handler of the world, by what it does to the tables for a tenant and without one.\<close>

lemma plain_acts:
  assumes "\<And>tid. tenant_of E r tid \<Longrightarrow>
      state_io_rel (db_rel (\<lambda>d d'. rules_ok d \<longrightarrow> isolates (uuid_text E tid) d d')) (h r)"
    and "\<And>w. \<forall>tid. \<not> tenant_of E r tid \<Longrightarrow> snd (run_state (h r) w) = w"
  shows "acts_for E (ctx_tenant r) s (snd (run_state (answering_with f (plain h) r) s))"
proof (cases "\<exists>tid. tenant_of E r tid")
  case True
  then obtain tid where tid: "tenant_of E r tid" by blast
  then have "uuid_parse E (ctx_tenant r) = Some tid" by (simp add: tenant_of_def)
  moreover have "rules_ok (db (backend s)) \<longrightarrow> isolates (uuid_text E tid) (db (backend s))
      (db (snd (run_state (h r) (backend s))))"
    using assms(1) [OF tid] by (simp add: state_io_rel_def db_rel_def)
  ultimately show ?thesis by (auto simp: acts_for_def)
next
  case False
  then show ?thesis using assms(2) by (simp add: acts_for_def untouched_def)
qed

lemma io_imp: "state_io_rel R m \<Longrightarrow> (\<And>s t. R s t \<Longrightarrow> S s t) \<Longrightarrow> state_io_rel S m"
  by (auto simp: state_io_rel_def)

lemma io_weaken: "state_io_rel (db_rel R) m \<Longrightarrow> (\<And>d d'. R d d' \<Longrightarrow> S d d') \<Longrightarrow> state_io_rel (db_rel S) m"
  by (auto simp: state_io_rel_def db_rel_def)

lemma reports_step_isolates: "reports_step t d d' \<Longrightarrow> isolates t d d'"
  by (auto simp: reports_step_def isolates_def)

lemma no_tenant:
  assumes "\<forall>tid. \<not> tenant_of E r tid"
  obtains (empty) "ctx_tenant r = []" | (unparsed) "uuid_parse E (ctx_tenant r) = None"
  using assms by (cases "uuid_parse E (ctx_tenant r)") (auto simp: tenant_of_def)

lemma parse_rejected: "\<forall>tid. \<not> tenant_of E r tid \<Longrightarrow> \<exists>resp. parseTenantID E r = Inl resp"
  by (erule no_tenant) (simp_all add: parseTenantID_def GetTenantID_def Let_def)

section \<open>Every route of the group acts for the tenant\<close>

lemma workflow_acts:
  assumes "uuid_codec E" and "h \<in> {Acknowledge, Investigate, Resolve, AddNote, DiscrepancyHandler_GetByID}"
  shows "acts_for E (ctx_tenant r) s (snd (run_state (answering_with f (plain (h E)) r) s))"
proof (rule plain_acts)
  fix tid
  assume t: "tenant_of E r tid"
  then have p: "uuid_parse E (ctx_tenant r) = Some tid" by (simp add: tenant_of_def)
  have "state_io_rel (db_rel (isolates (uuid_text E tid))) (DiscrepancyHandler_GetByID E r)"
    unfolding DiscrepancyHandler_GetByID_def
    by (auto intro!: isolating.io_basic isolating.io_reads split: option.split sum.split)
  then have "state_io_rel (db_rel (isolates (uuid_text E tid))) (h E r)"
    using assms handlers_isolate [OF assms(1) p] by auto
  then show "state_io_rel (db_rel (\<lambda>d d'. rules_ok d \<longrightarrow> isolates (uuid_text E tid) d d')) (h E r)"
    by (rule io_weaken) simp
next
  fix w
  assume "\<forall>tid. \<not> tenant_of E r tid"
  then show "snd (run_state (h E r) w) = w"
    using assms(2)
    by (cases rule: no_tenant) (auto simp: Acknowledge_def Investigate_def Resolve_def AddNote_def
        parseTenantAndDiscrepancy_def DiscrepancyHandler_GetByID_def)
qed

lemma rules_acts:
  assumes "h \<in> rules_handlers"
  shows "acts_for E (ctx_tenant r) s (snd (run_state (answering_with f (plain (h E)) r) s))"
proof (rule plain_acts)
  show "state_io_rel (db_rel (\<lambda>d d'. rules_ok d \<longrightarrow> isolates (uuid_text E tid) d d')) (h E r)"
    if "tenant_of E r tid" for tid
    by (rule io_weaken [OF rules_handlers_step [OF assms that]]) (simp add: rules_step_def)
  fix w
  assume "\<forall>tid. \<not> tenant_of E r tid"
  then obtain resp where "parseTenantID E r = (Inl resp :: rules_reply response + uuid)" using parse_rejected by blast
  then show "snd (run_state (h E r) w) = w"
    using assms
    by (auto simp: rules_handlers_def RulesHandler_List_def RulesHandler_Create_def RulesHandler_Update_def
        RulesHandler_Delete_def)
qed

lemma reading_untouched:
  assumes "state_io_rel (db_rel (\<lambda>d d'. d' = d)) (h r)"
  shows "untouched s (snd (run_state (answering_with f (plain h) r) s))"
  using assms by (simp add: untouched_def state_io_rel_def db_rel_def)

lemma reading_handlers:
  "state_io_rel (db_rel (\<lambda>d d'. d' = d)) (DiscrepancyHandler_List E r)"
  "state_io_rel (db_rel (\<lambda>d d'. d' = d)) (GetMe E r)"
  "state_io_rel (db_rel (\<lambda>d d'. d' = d)) (GetStats E r)"
  "state_io_rel (db_rel (\<lambda>d d'. d' = d)) (ReportsHandler_List E r)"
  "state_io_rel (db_rel (\<lambda>d d'. d' = d)) (HealthHandler_Handle N p u)"
proof -
  show "state_io_rel (db_rel (\<lambda>d d'. d' = d)) (DiscrepancyHandler_List E r)"
    unfolding DiscrepancyHandler_List_def Let_def
    by (auto intro!: reading.io_basic listing_reads split: sum.split prod.split)
  show "state_io_rel (db_rel (\<lambda>d d'. d' = d)) (GetMe E r)"
    unfolding GetMe_def queryTenant_def Let_def by (auto intro!: reading.io_basic)
  show "state_io_rel (db_rel (\<lambda>d d'. d' = d)) (GetStats E r)"
    unfolding GetStats_def countByColumn_def by (auto intro!: reading.io_basic split: sum.split)
  show "state_io_rel (db_rel (\<lambda>d d'. d' = d)) (ReportsHandler_List E r)"
    unfolding ReportsHandler_List_def ReportStore_List_def by (auto intro!: reading.io_basic split: sum.split)
  show "state_io_rel (db_rel (\<lambda>d d'. d' = d)) (HealthHandler_Handle N p u)"
    unfolding HealthHandler_Handle_def checkPostgres_def checkNATS_def Let_def
    by (auto intro!: reading.io_basic split: option.split)
qed

lemma framing_files: "state_io_rel (frames files) (on_world m)" "state_io_rel (frames files) disk_tick"
  by (auto simp: state_io_rel_def frames_def)

lemma create_acts: "acts_for E (ctx_tenant r) s (snd (run_state (create_and_start E g r) s))"
proof (cases "\<exists>tid. tenant_of E r tid")
  case True
  then obtain tid where tid: "tenant_of E r tid" by blast
  obtain out job w where run: "run_state (ReportsHandler_Create E g r) (backend s) = ((out, job), w)"
    by (metis surj_pair)
  have "state_io_rel (db_rel (reports_step (uuid_text E tid))) (ReportsHandler_Create E g r)"
    using tid unfolding ReportsHandler_Create_def
    by (auto intro!: reporting.io_basic reports_step_ops split: option.split sum.split)
  then have "isolates (uuid_text E tid) (db (backend s)) (db w)"
    using run reports_step_isolates by (metis db_rel_def reporting.lifted.io_run)
  moreover have "\<forall>j. job = Some j \<longrightarrow> fst j = tid"
    using run tid
    by (auto simp: ReportsHandler_Create_def split: option.splits sum.splits if_splits prod.splits)
  moreover have "uuid_parse E (ctx_tenant r) = Some tid" using tid by (simp add: tenant_of_def)
  ultimately show ?thesis
    using run by (cases job) (auto simp: create_and_start_def acts_for_def)
next
  case False
  then obtain resp where "parseTenantID E r = (Inl resp :: reports_reply response + uuid)" using parse_rejected by blast
  then show ?thesis by (simp add: create_and_start_def ReportsHandler_Create_def acts_for_def untouched_def)
qed

lemma create_answered:
  "acts_for E (ctx_tenant r) s (snd (run_state (answering_with f (create_and_start E g) r) s))"
  by (simp add: create_acts)

lemma download_untouched: "untouched s (snd (run_state (answering_with f (\<lambda>r. on_disk (Download E H r)) r) s))"
proof -
  have db: "state_io_rel (disk_rel (\<lambda>d d'. d' = d)) (Download E H r)"
    unfolding Download_def ServeFile_def ReportStore_GetByID_def Let_def
    by (auto intro!: reading.io_disk reading.io_basic split: sum.split option.split)
  have "state_io_rel (frames files) (Download E H r)"
    unfolding Download_def ServeFile_def Stat_def Let_def
    by (auto intro!: framing.io_rules framing_files split: sum.split option.split)
  with db show ?thesis by (simp add: untouched_def state_io_rel_def disk_rel_def frames_def)
qed

lemma acts_untouched: "untouched s s' \<Longrightarrow> acts_for E t s s'"
  by (simp add: acts_for_def)

text \<open>What one route handler may do with a request.\<close>

definition route_acts :: "env \<Rightarrow> 'b handler \<Rightarrow> bool" where
  "route_acts E h \<longleftrightarrow> (\<forall>r s. acts_for E (ctx_tenant r) s (snd (run_state (h r) s)))"

lemma route_actsI: "(\<And>r s. acts_for E (ctx_tenant r) s (snd (run_state (h r) s))) \<Longrightarrow> route_acts E h"
  by (simp add: route_acts_def)

lemma placeholder_acts: "route_acts E placeholderHandler"
  by (intro route_actsI acts_untouched placeholder_untouched)

lemma discrepancyRoute_acts:
  assumes "uuid_codec (oE O')" and "h \<in> {Acknowledge, Investigate, Resolve, AddNote, DiscrepancyHandler_GetByID}"
  shows "route_acts (oE O') (discrepancyRoute O' deps h)"
proof (cases "DiscrepancyHandler deps")
  case True
  show ?thesis by (rule route_actsI) (simp only: discrepancyRoute_def True if_True workflow_acts [OF assms])
qed (simp add: discrepancyRoute_def placeholder_acts)

lemma rulesRoute_acts:
  assumes "h \<in> rules_handlers"
  shows "route_acts (oE O') (rulesRoute O' deps h)"
proof (cases "RulesHandler deps")
  case True
  show ?thesis by (rule route_actsI) (simp only: rulesRoute_def True if_True rules_acts [OF assms])
qed (simp add: rulesRoute_def placeholder_acts)

lemma reading_acts:
  assumes "\<And>r. state_io_rel (db_rel (\<lambda>d d'. d' = d)) (h r)"
  shows "route_acts E (answering_with f (plain h))"
  by (intro route_actsI acts_untouched reading_untouched assms)

lemma reading_routes:
  "route_acts (oE O') (discrepancyListRoute O' deps)"
  "route_acts (oE O') (tenantMeRoute O' deps)"
  "route_acts (oE O') (statsRoute O' deps)"
  "route_acts (oE O') (reportsListRoute O' deps)"
  by (auto simp: discrepancyListRoute_def tenantMeRoute_def statsRoute_def reportsListRoute_def placeholder_acts
      split: option.split intro!: reading_acts reading_handlers)

lemma report_routes:
  "route_acts (oE O') (reportsCreateRoute O' deps)"
  "route_acts (oE O') (reportsDownloadRoute O' deps)"
proof -
  have create: "route_acts E (answering_with f (create_and_start E g))" for E g and f :: "_ \<Rightarrow> api_reply"
    by (rule route_actsI) (rule create_answered)
  have download: "route_acts E (answering_with f (\<lambda>r. on_disk (Download E H r)))" for E H and f :: "_ \<Rightarrow> api_reply"
    by (intro route_actsI acts_untouched download_untouched)
  show "route_acts (oE O') (reportsCreateRoute O' deps)"
    by (simp add: reportsCreateRoute_def create placeholder_acts split: option.split)
  show "route_acts (oE O') (reportsDownloadRoute O' deps)"
    by (simp add: reportsDownloadRoute_def download placeholder_acts split: option.split)
qed

lemma api_routes_act:
  assumes "uuid_codec (oE O')"
  shows "\<forall>h \<in> set (map snd (api_routes O' deps)). route_acts (oE O') h"
  by (simp add: api_routes_def placeholder_acts discrepancyRoute_acts [OF assms] rulesRoute_acts rules_handlers_def
      reading_routes report_routes)

section \<open>What a request may touch\<close>

text \<open>The key stands for an active tenant: by its row, or by an entry of the cache.\<close>

definition authentic :: "crypto \<Rightarrow> string \<Rightarrow> string \<Rightarrow> server \<Rightarrow> bool" where
  "authentic C key t s \<longleftrightarrow> key \<noteq> [] \<and>
     ((\<exists>x\<in>set (tenants (db (backend s))). t_id x = t \<and> t_is_active x \<and> t_api_key x = hashKey C key) \<or>
      (\<exists>e. tenant_cache s (hashKey C key) = Some e \<and> c_tenantID e = t \<and> c_isActive e))"

definition served :: "outside \<Rightarrow> RouterDeps \<Rightarrow> string \<Rightarrow> server \<Rightarrow> server \<Rightarrow> bool" where
  "served O' deps key s s' \<longleftrightarrow> untouched s s' \<or>
     (\<exists>cfg. TenantHandler deps = Some cfg \<and> SelfRegistrationEnabled cfg \<and> registers s s') \<or>
     (\<exists>t. authentic (oC O') key t s \<and> acts_for (oE O') t s s')"

lemma served_untouched: "untouched s s' \<Longrightarrow> served O' deps key s s'"
  by (simp add: served_def)

text \<open>What comes before and after the handler touches nothing.\<close>

lemma served_framed:
  assumes "served O' deps key s1 s2" and "untouched s s1" and "tenant_cache s1 = tenant_cache s" and "untouched s2 s3"
  shows "served O' deps key s s3"
  using assms by (simp add: served_def acts_for_def registers_def authentic_def untouched_def)

lemma authenticate_frames:
  "state_io_rel (frames (\<lambda>s. (db (backend s), started_jobs s, stored_files s, access_log s))) (authenticate E C r)"
proof -
  have "state_io_rel (frames db) (lookupTenant E h)" for h
    by (simp add: state_io_rel_def frames_def lookupTenant_def run_pg query_def)
  then show ?thesis
    unfolding authenticate_def getFromCache_def setCache_def Let_def
    by (auto intro!: framing.io_rules simp: state_io_rel_def frames_def split: option.split sum.split)
qed

lemma with_tenant_served:
  fixes h :: "'b handler"
  assumes "route_acts (oE O') h"
  shows "served O' deps (Header_Get r apiKeyHeader) s (snd (run_state (with_tenant O' deps h r) s))"
proof (cases "Pool deps")
  case False
  then show ?thesis by (simp add: with_tenant_def requireAuthStub_def served_def untouched_def)
next
  case True
  obtain who :: "'b response + string" and s1
    where run: "run_state (authenticate (oE O') (oC O') r) s = (who, s1)" by fastforce
  then have un: "untouched s s1"
    using framing.io_run [OF authenticate_frames run] by (simp add: frames_def untouched_def)
  show ?thesis
  proof (cases who)
    case (Inl resp)
    with un run True show ?thesis by (simp add: with_tenant_def TenantMiddleware_Handler_def served_def)
  next
    case (Inr t)
    then have "authentic (oC O') (Header_Get r apiKeyHeader) t s"
      using run by (cases rule: authenticate_cases [OF _ refl])
        (auto simp: authentic_def fresh_entry_def tenants_by_key_def split: option.splits if_splits)
    moreover have "acts_for (oE O') t s1 (snd (run_state (h (SetTenantID r t)) s1))"
      using assms by (simp add: route_acts_def SetTenantID_def) (metis request.ext_inject request.surjective request.update_convs(1))
    then have "acts_for (oE O') t s (snd (run_state (h (SetTenantID r t)) s1))"
      using un by (auto simp: acts_for_def untouched_def)
    ultimately show ?thesis
      using run Inr True by (auto simp: with_tenant_def TenantMiddleware_Handler_def served_def)
  qed
qed

lemma Register_registers:
  "let d = db w; d' = db (snd (run_state (Register E C cfg r) w)) in
     d' = d \<or> SelfRegistrationEnabled cfg \<and> (\<exists>row. d' = d\<lparr>tenants := tenants d @ [row]\<rparr> \<and> t_is_active row)"
  by (auto simp: Register_def generateAPIKey_def insertTenant_def insert_tenant_def wrapped_def run_pg
      RespondError_def RespondJSON_def Let_def split: option.split sum.split prod.split)

lemma public_routes_serve:
  assumes "h \<in> set (map snd (public_routes O' deps))"
  shows "served O' deps key s (snd (run_state (h r) s))"
proof -
  consider "h = healthRoute O' deps" | "h = metricsRoute deps" | "h = registerRoute O' deps"
    using assms by (auto simp: public_routes_def)
  then show ?thesis
  proof cases
    case 1
    have "untouched s (snd (run_state (answering_with HealthBody
        (plain (\<lambda>r. HealthHandler_Handle (oN O') p u)) r) s))" for p u
      by (intro reading_untouched reading_handlers)
    then have "untouched s (snd (run_state (healthRoute O' deps r) s))"
      unfolding healthRoute_def
      by (auto simp: defaultHealthHandler_def untouched_def simp del: run_answering_with split: option.split)
    with 1 show ?thesis by (simp add: served_untouched)
  next
    case 2
    then show ?thesis
      by (simp add: metricsRoute_def served_untouched untouched_def placeholderHandler_def)
  next
    case 3
    show ?thesis
    proof (cases "TenantHandler deps")
      case None
      with 3 show ?thesis by (simp add: registerRoute_def served_untouched placeholder_untouched)
    next
      case (Some cfg)
      with 3 show ?thesis
        using Register_registers [of "backend s" "oE O'" "oC O'" cfg r]
        by (auto simp: registerRoute_def served_def untouched_def registers_def Let_def)
    qed
  qed
qed

lemma dispatch_served:
  assumes "uuid_codec (oE O')"
  shows "served O' deps (Header_Get r apiKeyHeader) s (snd (run_state (dispatch O' deps r) s))"
proof (cases "\<exists>i t. pick O' (map fst (routes O' deps)) r = Some (i, t) \<and> i < length (routes O' deps)")
  case False
  then show ?thesis by (auto simp: dispatch_def served_def untouched_def split: option.split)
next
  case True
  then obtain i t where i: "pick O' (map fst (routes O' deps)) r = Some (i, t)" "i < length (routes O' deps)" by blast
  let ?h = "snd (routes O' deps ! i)"
  have "?h \<in> set (map snd (routes O' deps))" using i(2) by simp
  then have "?h \<in> set (map snd (public_routes O' deps)) \<or>
      (\<exists>h\<in>set (map snd (api_routes O' deps)). ?h = with_tenant O' deps h)"
    unfolding routes_def map_append set_append by force
  then have "served O' deps (Header_Get (r\<lparr>url_id := t\<rparr>) apiKeyHeader) s (snd (run_state (?h (r\<lparr>url_id := t\<rparr>)) s))"
  proof
    assume "?h \<in> set (map snd (public_routes O' deps))"
    then show ?thesis by (rule public_routes_serve)
  next
    assume "\<exists>h\<in>set (map snd (api_routes O' deps)). ?h = with_tenant O' deps h"
    then obtain h where h: "h \<in> set (map snd (api_routes O' deps))" and eq: "?h = with_tenant O' deps h" by blast
    have "route_acts (oE O') h" using api_routes_act [OF assms] h by blast
    then show ?thesis unfolding eq by (rule with_tenant_served)
  qed
  with i show ?thesis by (simp add: dispatch_def Header_Get_def)
qed

text \<open>A handler, and a layer of the stack around it.\<close>

definition serving :: "outside \<Rightarrow> RouterDeps \<Rightarrow> 'b handler \<Rightarrow> bool" where
  "serving O' deps h \<longleftrightarrow> (\<forall>r s. served O' deps (Header_Get r apiKeyHeader) s (snd (run_state (h r) s)))"

lemma allow_state:
  "run_state (allow E n ip) s = (ok, s1) \<Longrightarrow>
     untouched s s1 \<and> tenant_cache s1 = tenant_cache s \<and> access_log s1 = access_log s"
  by (auto simp: allow_def untouched_def split: prod.splits)

lemma layers_serve:
  assumes "serving O' deps h"
  shows "serving O' deps (maxBodySize n h)" and "serving O' deps (Recoverer O' h)"
    and "serving O' deps (NewRateLimiter E k h)" and "serving O' deps (RequestLogger O' lvl h)"
proof -
  show "serving O' deps (maxBodySize n h)"
    unfolding serving_def maxBodySize_def
  proof (intro allI)
    fix r s
    have "Header_Get (r\<lparr>body := None\<rparr>) apiKeyHeader = Header_Get r apiKeyHeader" by (simp add: Header_Get_def)
    then show "served O' deps (Header_Get r apiKeyHeader) s
        (snd (run_state (h (if body_read r > n then r\<lparr>body := None\<rparr> else r)) s))"
      using assms unfolding serving_def by metis
  qed
  show "serving O' deps (Recoverer O' h)"
    using assms by (simp add: serving_def Recoverer_def split_beta)
  show "serving O' deps (NewRateLimiter E k h)"
    unfolding serving_def
  proof (intro allI)
    fix r s
    obtain ok s1 where a: "run_state (allow E k (extractIP r)) s = (ok, s1)" by fastforce
    note s1 = allow_state [OF a]
    have "served O' deps (Header_Get r apiKeyHeader) s1 (snd (run_state (h r) s1))"
      using assms by (simp add: serving_def)
    then have "served O' deps (Header_Get r apiKeyHeader) s (snd (run_state (h r) s1))"
      by (rule served_framed) (use s1 in \<open>simp_all add: untouched_def\<close>)
    with a s1 show "served O' deps (Header_Get r apiKeyHeader) s (snd (run_state (NewRateLimiter E k h r) s))"
      by (simp add: NewRateLimiter_def served_untouched)
  qed
  show "serving O' deps (RequestLogger O' lvl h)"
    unfolding serving_def
  proof (intro allI)
    fix r and s :: server
    let ?s1 = "s\<lparr>backend := snd (run_state (time_Now (oE O')) (backend s))\<rparr>"
    have "served O' deps (Header_Get r apiKeyHeader) ?s1 (snd (run_state (h r) ?s1))"
      using assms by (simp add: serving_def)
    then show "served O' deps (Header_Get r apiKeyHeader) s (snd (run_state (RequestLogger O' lvl h r) s))"
      by (rule served_framed) (simp_all add: RequestLogger_def untouched_def split_beta)
  qed
qed

text \<open>
  C29 (safety). Whatever a request is, whatever fails: it leaves the tables, the files and the goroutines
  alone, or it registers one new active tenant (with self-registration enabled), or its key stands for
  an active tenant, by the table or by the cache, and then the
  discrepancies, events, rules and reports of all other tenants and all files stay as they were, and
  every goroutine it started works for that tenant.
\<close>

theorem router_isolation:
  assumes "uuid_codec (oE O')" and "chi_ok O'" and "run_state (NewRouter O' deps r) s = (resp, s')"
  shows "untouched s s' \<or>
    (\<exists>cfg. TenantHandler deps = Some cfg \<and> SelfRegistrationEnabled cfg \<and> registers s s') \<or>
    (\<exists>t. authentic (oC O') (Header_Get r apiKeyHeader) t s \<and> acts_for (oE O') t s s')"
proof -
  have "serving O' deps (dispatch O' deps)" by (simp add: serving_def dispatch_served assms(1))
  then have "serving O' deps (RequestLogger O' (Logger deps) (Recoverer O' (NewRateLimiter (oE O') 60
      (maxBodySize (2 ^ 20) (dispatch O' deps)))))" by (intro layers_serve)
  moreover obtain a where "RequestID O' (RealIP O' r) = r\<lparr>RemoteAddr := a\<rparr>"
    using assms(2) by (metis chi_ok_def)
  ultimately have "served O' deps (Header_Get (r\<lparr>RemoteAddr := a\<rparr>) apiKeyHeader) s s'"
    using assms(3) unfolding NewRouter_def serving_def by (metis snd_conv)
  then show ?thesis by (simp add: served_def Header_Get_def)
qed

section \<open>The access log\<close>

definition unlogged :: "'b handler \<Rightarrow> bool" where
  "unlogged h \<longleftrightarrow> (\<forall>r. state_io_rel (frames access_log) (h r))"

lemma unlogged_basic:
  "state_io_rel (frames access_log) (ret x)"
  "state_io_rel (frames access_log) (on_backend m)"
  "state_io_rel (frames access_log) (on_disk d)"
  "state_io_rel (frames access_log) m' \<Longrightarrow> state_io_rel (frames access_log) (m' \<bind> (\<lambda>y. ret (f y)))"
  by (auto simp: state_io_rel_def frames_def on_backend_def on_disk_def split: prod.splits) (metis snd_conv)

lemma unlogged_answering:
  "unlogged (answering_with f (plain g))"
  "unlogged (answering_with f' (\<lambda>r. on_disk (m r)))"
  "unlogged (answering_with f'' (create_and_start E b))"
  "unlogged placeholderHandler"
  by (auto simp: unlogged_def state_io_rel_def frames_def create_and_start_def placeholderHandler_def
      split: prod.splits option.splits)

lemma authenticate_unlogged: "state_io_rel (frames access_log) (authenticate E C r)"
  by (rule io_imp [OF authenticate_frames]) (simp add: frames_def)

lemma unlogged_routes: "\<forall>h\<in>set (map snd (routes O' deps)). unlogged h"
proof -
  have "unlogged (defaultHealthHandler)" "unlogged (\<lambda>r. ret (x :: api_reply response))" for x
    by (auto simp: unlogged_def defaultHealthHandler_def unlogged_basic)
  then have public: "\<forall>h\<in>set (map snd (public_routes O' deps)). unlogged h"
    by (auto simp: public_routes_def healthRoute_def metricsRoute_def registerRoute_def unlogged_answering
        split: option.split)
  have api: "\<forall>h\<in>set (map snd (api_routes O' deps)). unlogged h"
    by (simp add: api_routes_def tenantMeRoute_def discrepancyListRoute_def discrepancyRoute_def rulesRoute_def
        statsRoute_def reportsListRoute_def reportsCreateRoute_def reportsDownloadRoute_def unlogged_answering
        split: option.split)
  have "unlogged (with_tenant O' deps h)" if "unlogged h" for h :: "api_reply handler"
    using that unfolding unlogged_def with_tenant_def TenantMiddleware_Handler_def requireAuthStub_def
    by (auto intro!: framing.io_rules authenticate_unlogged split: sum.split)
  with public api show ?thesis by (auto simp: routes_def)
qed

text \<open>
  Every request adds exactly one line to the access log, with its method, its path and the
  status that was sent (none when the level is \<open>warn\<close> or \<open>error\<close>), and that line never names a tenant or a request: the middleware that finds out who
  asks is inside the logger, which only sees the context that came in.
\<close>

lemma access_log_names_nobody:
  assumes "chi_ok O'" and "ctx_tenant r = []" and "ctx_request_id r = []"
    and "run_state (NewRouter O' deps r) s = (resp, s')"
  shows "access_log s' = access_log s @ (if Logger deps = DebugLevel \<or> Logger deps = InfoLevel
    then [\<lparr>l_method = Method r, l_path = URL_Path r, l_status = written_status resp, l_tenant = [], l_request_id = []\<rparr>]
    else [])"
proof -
  let ?inner = "Recoverer O' (NewRateLimiter (oE O') 60 (maxBodySize (2 ^ 20) (dispatch O' deps)))"
  have route: "unlogged (snd (routes O' deps ! i))" if "i < length (routes O' deps)" for i
    using unlogged_routes [of O' deps] that by auto
  have "state_io_rel (frames access_log) (dispatch O' deps q)" for q
    using route unfolding dispatch_def by (auto simp: unlogged_basic unlogged_def split: option.split)
  moreover have "state_io_rel (frames access_log) (allow E n ip)" for E n ip
    by (simp add: state_io_rel_def frames_def) (metis allow_state surjective_pairing)
  ultimately have inner: "state_io_rel (frames access_log) (?inner q)" for q
    unfolding Recoverer_def NewRateLimiter_def maxBodySize_def
    by (auto intro!: framing.io_rules)
  obtain a where "RequestID O' (RealIP O' r) = r\<lparr>RemoteAddr := a\<rparr>"
    using assms(1) by (metis chi_ok_def)
  moreover have "access_log (snd (run_state (?inner q) t)) = access_log t" for q t
    using framing.io_snd [OF inner] by (simp add: frames_def)
  ultimately show ?thesis
    using assms(2-4)
    by (auto simp: NewRouter_def RequestLogger_def logs_info_def GetTenantID_def GetRequestID_def split_beta)
qed

section \<open>On a concrete outside\<close>

text \<open>The pattern that is the path of the request, literally.\<close>

definition sample_outside :: outside where
  "sample_outside =
     \<lparr>oE = calm, oC = toy_crypto, oH = calm_host, oN = \<lparr>Ping = (\<lambda>t. True), url_host = Some, join_port = (\<lambda>h p. h @ '':'' @ p), Dial = (\<lambda>t a. True)\<rparr>,
      pick = (\<lambda>ps r. if (Method r, URL_Path r) \<in> set ps
         then Some (length (takeWhile (\<lambda>p. p \<noteq> (Method r, URL_Path r)) ps), url_id r) else None),
      unmatched = (\<lambda>r. 404), RealIP = (\<lambda>r. r), RequestID = (\<lambda>r. r), recovered = 500\<rparr>"

definition all_deps :: RouterDeps where
  "all_deps = \<lparr>Pool = True, Logger = InfoLevel, HealthHandler = Some (True, []), TenantHandler = Some (Load (\<lambda>k. [])),
     DiscrepancyHandler = True, RulesHandler = True, StatsHandler = True, ReportsHandler = Some True, MetricsHandler = True\<rparr>"

lemma sample_chi: "chi_ok sample_outside"
proof -
  have "\<exists>a. r = r\<lparr>RemoteAddr := a\<rparr>" for r :: request by (intro exI [of _ "RemoteAddr r"]) simp
  then show ?thesis by (simp add: chi_ok_def sample_outside_def)
qed

lemma sample_codec: "uuid_codec (oE sample_outside)"
  by (simp add: sample_outside_def)

text \<open>With self-registration on, a request without a key can add a tenant, and do nothing else.\<close>

theorem router_isolation_witness:
  "let s = sample_server (sample_db [sample_row StatusOpen None] []);
       s' = snd (run_state (NewRouter sample_outside all_deps (header_request [] [])) s) in
   discrepancies (db (backend s')) = [sample_row StatusOpen None] \<and> started_jobs s' = []"
proof -
  let ?s = "sample_server (sample_db [sample_row StatusOpen None] [])"
  obtain resp s' where run: "run_state (NewRouter sample_outside all_deps (header_request [] [])) ?s = (resp, s')"
    by fastforce
  have "untouched ?s s' \<or> registers ?s s'"
    using router_isolation [OF sample_codec sample_chi run] by (auto simp: authentic_def)
  then show ?thesis
    using run by (auto simp: untouched_def registers_def sample_server_def sample_db_def)
qed

lemma access_log_names_nobody_witness:
  "map l_tenant (access_log (snd (run_state (NewRouter sample_outside all_deps (header_request apiKeyHeader ''k''))
     (sample_server (keyed_db True))))) = [[]]"
proof -
  obtain resp s' where run: "run_state (NewRouter sample_outside all_deps (header_request apiKeyHeader ''k''))
      (sample_server (keyed_db True)) = (resp, s')" by fastforce
  have "Logger all_deps = InfoLevel" by (simp add: all_deps_def)
  then show ?thesis
    using access_log_names_nobody [OF sample_chi _ _ run] run by (simp add: header_request_def sample_server_def)
qed

end
