(* ===== verification/Faults.thy ===== *)
theory Faults
  imports Escalation Ingestion Retrier Router
begin

text \<open>
  The ledger under failures: the steps that are left when any statement may fail between two others.
  The engine's status change and its event are two steps here. What still holds of every run is
  the \<^emph>\<open>weak\<close> invariant (all of \<open>ledger_inv\<close> but the agreement of the statuses with the log) and that rows
  only move along the machine.
\<close>

section \<open>The steps\<close>

text \<open>
  \<open>status\<close>: a row moves along an arrow of the machine, with no event; \<open>record\<close>: an event of any type is appended for a
  row that is there; \<open>tenant\<close>: a registration; the others are the steps of the abstract ledger.
\<close>

inductive weak_step :: "env \<Rightarrow> database \<Rightarrow> database \<Rightarrow> bool" for E where
  draw: "event_seq d \<le> seq \<Longrightarrow> weak_step E d (d\<lparr>event_seq := seq\<rparr>)"
| create: "discrepancy_insertable d row \<Longrightarrow> d_status row = StatusOpen \<Longrightarrow> d_resolved_at row = None \<Longrightarrow>
     d_id row = uuid_text E u \<Longrightarrow> weak_step E d (d\<lparr>discrepancies := discrepancies d @ [row]\<rparr>)"
| recorded: "r \<in> set (discrepancies d) \<Longrightarrow> d_id r = e_discrepancy_id e \<Longrightarrow> d_tenant_id r = e_tenant_id e \<Longrightarrow>
     e_sequence_num e = event_seq d \<Longrightarrow> weak_step E d (appended e d)"
| status: "r \<in> set (discrepancies d) \<Longrightarrow> is_row E tid i r \<Longrightarrow> ValidTransition (d_status r) s \<Longrightarrow>
     (\<And>x. x \<in> set (discrepancies d) \<Longrightarrow> is_row E tid i x \<Longrightarrow> discrepancy_check (set_status s res now x)) \<Longrightarrow>
     (terminal s \<longleftrightarrow> res \<noteq> None) \<Longrightarrow>
     weak_step E d (updated (is_row E tid i) (set_status s res now) d)"
| severity: "(\<And>x. x \<in> set (discrepancies d) \<Longrightarrow> is_row E tid i x \<Longrightarrow>
       discrepancy_check (x\<lparr>d_severity := s, d_updated_at := now\<rparr>)) \<Longrightarrow>
     weak_step E d (updated (is_row E tid i) (\<lambda>r. r\<lparr>d_severity := s, d_updated_at := now\<rparr>) d)"
| elsewhere: "weak_step E d (d\<lparr>escalation_rules := rs, reports := ps, notification_logs := ns\<rparr>)"
| tenant: "weak_step E d (d\<lparr>tenants := tenants d @ [x]\<rparr>)"

abbreviation weak_steps :: "env \<Rightarrow> database \<Rightarrow> database \<Rightarrow> bool" where
  "weak_steps E \<equiv> (weak_step E)\<^sup>*\<^sup>*"

text \<open>Every step of the abstract ledger is one or two of them.\<close>

lemma ledger_step_weak: "ledger_step E d d' \<Longrightarrow> weak_steps E d d'"
proof (induction rule: ledger_step.induct)
  case (transition r d tid i s e res now)
  have "weak_step E d (updated (is_row E tid i) (set_status s res now) d)"
    by (rule weak_step.status) (use transition in auto)
  moreover have "weak_step E (updated (is_row E tid i) (set_status s res now) d) (transitioned E tid i s res now e d)"
    unfolding transitioned_def
    by (rule weak_step.recorded [where r = "set_status s res now r"])
      (use transition in \<open>auto simp: is_row_def set_status_def image_iff\<close>)
  ultimately show ?case by (meson converse_rtranclp_into_rtranclp r_into_rtranclp)
qed (auto intro!: r_into_rtranclp intro: weak_step.intros)

lemma ledger_steps_weak: "ledger_steps E d d' \<Longrightarrow> weak_steps E d d'"
  by (induction rule: rtranclp_induct) (auto intro: rtranclp_trans ledger_step_weak)

section \<open>The weak invariant\<close>

definition weak_inv :: "env \<Rightarrow> database \<Rightarrow> bool" where
  "weak_inv E d \<longleftrightarrow> schema_ok d \<and> closed_ok d \<and> log_ok d \<and> ids_ok E d"

lemma sound_weak: "sound E d \<Longrightarrow> weak_inv E d"
  by (simp add: sound_def ledger_inv_def weak_inv_def)

lemma weak_inv_frame:
  "discrepancies d' = discrepancies d \<Longrightarrow> ledger_events d' = ledger_events d \<Longrightarrow>
     event_seq d \<le> event_seq d' \<Longrightarrow> set (tenants d) \<subseteq> set (tenants d') \<Longrightarrow> weak_inv E d \<Longrightarrow> weak_inv E d'"
  unfolding weak_inv_def schema_ok_def closed_ok_def log_ok_def ids_ok_def tenant_exists_def
  by (auto intro: less_le_trans) fastforce+

lemma weak_created:
  assumes "weak_inv E d" and ins: "discrepancy_insertable d row"
    and "d_status row = StatusOpen" "d_resolved_at row = None" "d_id row = uuid_text E u"
  shows "weak_inv E (d\<lparr>discrepancies := discrepancies d @ [row]\<rparr>)"
proof -
  let ?d = "d\<lparr>discrepancies := discrepancies d @ [row]\<rparr>"
  have "schema_ok ?d" using assms by (auto simp: weak_inv_def schema_ok_def discrepancy_insertable_def)
  moreover have "closed_ok ?d" using assms by (auto simp: weak_inv_def closed_ok_def terminal_def go_consts)
  moreover have "log_ok ?d" using assms by (auto simp: weak_inv_def log_ok_def)
  moreover have "ids_ok E ?d" using assms by (auto simp: weak_inv_def ids_ok_def)
  ultimately show ?thesis by (simp add: weak_inv_def)
qed

lemma weak_updated:
  assumes "weak_inv E d"
    and check: "\<And>r. r \<in> set (discrepancies d) \<Longrightarrow> hit r \<Longrightarrow> discrepancy_check (f r)"
    and closed: "\<And>r. r \<in> set (discrepancies d) \<Longrightarrow> hit r \<Longrightarrow> terminal (d_status (f r)) \<longleftrightarrow> d_resolved_at (f r) \<noteq> None"
    and keys: "\<And>r. d_id (f r) = d_id r \<and> d_tenant_id (f r) = d_tenant_id r \<and> d_external_id (f r) = d_external_id r"
  shows "weak_inv E (updated hit f d)"
proof -
  have "schema_ok (updated hit f d)"
    using assms(1) by (intro schema_ok_updated check keys) (simp_all add: weak_inv_def)
  moreover have "closed_ok (updated hit f d)"
    using assms(1) by (intro closed_ok_updated closed) (simp_all add: weak_inv_def)
  moreover have "log_ok (updated hit f d)"
    using assms(1) keys by (intro log_ok_updated) (simp_all add: weak_inv_def)
  moreover have "ids_ok E (updated hit f d)"
    using assms(1) keys by (auto simp: weak_inv_def ids_ok_def)
  ultimately show ?thesis by (simp add: weak_inv_def)
qed

lemma weak_step_inv:
  assumes "weak_step E d d'" and "weak_inv E d"
  shows "weak_inv E d'"
  using assms(1)
proof cases
  case (create row u)
  with assms(2) show ?thesis by (auto intro: weak_created)
next
  case (recorded r e)
  then show ?thesis using assms(2) by (auto simp: weak_inv_def ids_ok_def intro: log_ok_appended)
next
  case (status r tid i s res now)
  show ?thesis
    unfolding status(1) by (rule weak_updated [OF assms(2)]) (use status in \<open>auto simp: set_status_def\<close>)
next
  case (severity tid i s now)
  show ?thesis
    unfolding severity(1)
    by (rule weak_updated [OF assms(2)]) (use severity assms(2) in \<open>auto simp: weak_inv_def closed_ok_def\<close>)
qed (use assms(2) in \<open>auto intro: weak_inv_frame\<close>)

lemma weak_steps_inv: "weak_steps E d d' \<Longrightarrow> weak_inv E d \<Longrightarrow> weak_inv E d'"
  by (induction rule: rtranclp_induct) (auto intro: weak_step_inv)

lemma weak_step_moves:
  assumes "weak_step E d d'" and "weak_inv E d"
  shows "moves d d'"
  using assms(1)
proof cases
  case (status r tid i s res now)
  show ?thesis
    unfolding status(1)
  proof (rule moves_updated)
    fix x
    assume "x \<in> set (discrepancies d)" and "is_row E tid i x"
    then have "x = r"
      using assms(2) status same_id [of d x r] by (auto simp: weak_inv_def is_row_def)
    then show "follows x (set_status s res now x)"
      using status by (auto simp: follows_def same_identity_def set_status_def)
  qed
next
  case (severity tid i s now)
  then show ?thesis by (auto simp: follows_def same_identity_def intro!: moves_updated)
qed (auto intro!: moves_same)

lemma weak_steps_moves: "weak_steps E d d' \<Longrightarrow> weak_inv E d \<Longrightarrow> moves d d'"
  by (induction rule: rtranclp_induct)
     (auto intro: moves.step_trans weak_step_moves weak_steps_inv simp: moves.step_refl)

lemma weak_steps_log: "weak_steps E d d' \<Longrightarrow> append_only d d'"
proof (induction rule: rtranclp_induct)
  case (step d' d'')
  from step.hyps(2) have "append_only d' d''" by cases auto
  with step.IH show ?case by (rule append_only.step_trans)
qed (rule append_only.step_refl)

section \<open>The engine, under any failure\<close>

text \<open>Related worlds: if the weak invariant holds before, the tables went on by weak steps.\<close>

definition loosely :: "env \<Rightarrow> world \<Rightarrow> world \<Rightarrow> bool" where
  "loosely E w w' \<longleftrightarrow> (weak_inv E (db w) \<longrightarrow> weak_steps E (db w) (db w'))"

interpretation loosely: step_preorder "loosely E" for E
proof
  show "loosely E w w" for w by (simp add: loosely_def)
  show "loosely E w w2" if "loosely E w w1" "loosely E w1 w2" for w w1 w2
    using that unfolding loosely_def by (auto dest: weak_steps_inv intro: rtranclp_trans)
qed

lemma looselyI:
  assumes "\<And>w out w'. run_state m w = (out, w') \<Longrightarrow> weak_inv E (db w) \<Longrightarrow> weak_steps E (db w) (db w')"
  shows "state_io_rel (loosely E) m"
  unfolding state_io_rel_def loosely_def using assms by (metis prod.collapse)

lemma loose_of:
  assumes "state_io_rel (db_rel R) m" and "\<And>d d'. R d d' \<Longrightarrow> weak_steps E d d'"
  shows "state_io_rel (loosely E) m"
  using assms by (auto simp: state_io_rel_def loosely_def db_rel_def)

lemmas loose_of_steps = loose_of [OF _ ledger_steps_weak]

lemma weak_one: "weak_step E d d' \<Longrightarrow> weak_steps E d d'"
  by (rule r_into_rtranclp)

lemma loose_io_basic:
  "state_io_rel (loosely E) (time_Now E')"
  "state_io_rel (loosely E) (wrapped ctx (pg E' (query f)))"
  by (rule loose_of_steps; auto intro!: spec.io_basic)+

lemma append_weak:
  assumes codec: "uuid_codec E" and row: "r \<in> set (discrepancies (db w))" "is_row E tid i r"
    and x: "e_discrepancy_id x = uuid_text E i"
    and run: "run_state (AppendWith E c tid x) w = (out, w')"
  shows "weak_steps E (db w) (db w')"
proof (cases out)
  case (Inl e)
  from run [unfolded Inl] obtain seq where "event_seq (db w) \<le> seq" "db w' = (db w)\<lparr>event_seq := seq\<rparr>"
    by (rule AppendWith_Inl)
  then show ?thesis by (auto intro: weak_one weak_step.draw)
next
  case (Inr e)
  from run [unfolded Inr] obtain disc where "pg_uuid E (e_discrepancy_id x) = Some disc"
    and e: "e = \<lparr>e_id = uuid_text E (gen_uuid E (tick w)), e_tenant_id = uuid_text E tid,
              e_discrepancy_id = uuid_text E disc, e_event_type = e_event_type x, e_actor = e_actor x,
              e_actor_type = e_actor_type x, e_payload = e_payload x,
              e_sequence_num = event_seq (db w), e_created_at = now_of E c (tick w)\<rparr>"
    and w': "db w' = appended e (db w)"
    by (rule AppendWith_Inr)
  then have "disc = i" using codec x by simp
  show ?thesis
    unfolding w' by (rule weak_one, rule weak_step.recorded [OF row(1)])
      (use e row x \<open>disc = i\<close> in \<open>simp_all add: is_row_def\<close>)
qed

lemma change_status_weak:
  assumes codec: "uuid_codec E"
    and r: "r \<in> set (discrepancies (db w))" "is_row E tid i r" "ValidTransition (d_status r) s"
    and id: "d_id disc = uuid_text E i" and closed: "terminal s \<longleftrightarrow> res \<noteq> None"
    and run: "run_state (change_status E fn tid i rule disc s res ty) w = (out, w')"
  shows "weak_steps E (db w) (db w')"
proof -
  obtain upd w1 where u: "run_state (DiscrepancyStore_UpdateStatus E tid i s res) w = (upd, w1)" by fastforce
  show ?thesis
  proof (cases upd)
    case (Inl e)
    with run u show ?thesis
      by (auto simp: change_status_def DiscrepancyStore_UpdateStatus_def dest: UpdateStatusWith_Inl)
  next
    case (Inr y)
    obtain now where now: "db w1 = updated (is_row E tid i) (set_status s res now) (db w)"
      and check: "\<And>x. x \<in> set (discrepancies (db w)) \<Longrightarrow> is_row E tid i x \<Longrightarrow> discrepancy_check (set_status s res now x)"
      using UpdateStatusWith_Inr u [unfolded Inr DiscrepancyStore_UpdateStatus_def] by metis
    have first: "weak_step E (db w) (db w1)"
      unfolding now by (rule weak_step.status [OF r check closed])
    let ?p = "Some [(''rule_id'', JStr (r_id rule)), (''rule_name'', JStr (r_name rule))]"
    obtain ev w2 where n: "run_state (NewLedgerEvent E (uuid_text E tid) (d_id disc) ty ''escalation-engine''
        ActorEscalation ?p) w1 = (ev, w2)" by fastforce
    then have ev: "e_discrepancy_id ev = uuid_text E i" and w2: "db w2 = db w1"
      using id by (auto simp: run_NewLedgerEvent)
    obtain saved w3 where a: "run_state (AppendWith E dbtx.Pool tid ev) w2 = (saved, w3)" by fastforce
    have "w' = w3" using run u Inr n a by (simp add: change_status_def)
    moreover have "weak_steps E (db w2) (db w3)"
      by (rule append_weak [OF codec, where r = "set_status s res now r", OF _ _ ev a])
        (use r in \<open>auto simp: w2 now image_iff is_row_def set_status_def\<close>)
    ultimately show ?thesis using first w2 by (metis converse_rtranclp_into_rtranclp)
  qed
qed

text \<open>A row that is still as it was listed.\<close>

lemma executeEscalate_weak:
  assumes codec: "uuid_codec E" and ok: "weak_inv E (db w)"
    and disc: "disc \<in> set (discrepancies (db w))" "d_tenant_id disc = uuid_text E tid"
    and run: "run_state (executeEscalate E tid rule disc) w = (out, w')"
  shows "weak_steps E (db w) (db w')"
proof -
  obtain i where i: "d_id disc = uuid_text E i" using ok disc by (auto simp: weak_inv_def ids_ok_def)
  then have row: "is_row E tid i disc" using disc by (simp add: is_row_def)
  obtain al w1 where x: "run_state (ExistsForDiscrepancy E tid i EventEscalated) w = (al, w1)" by fastforce
  have w1: "db w1 = db w" using x unfolding ExistsForDiscrepancy_def by (rule wrapped_query_db)
  consider (skip) "w' = w1"
    | (plain) "ValidTransition (d_status disc) StatusEscalated"
      "run_state (change_status E ''executeEscalate'' tid i rule disc StatusEscalated None EventEscalated) w1 = (out, w')"
    | (upgrade) sev upd w2 where "ValidTransition (d_status disc) StatusEscalated"
      "run_state (UpdateSeverity E tid i sev) w1 = (upd, w2)"
      "(\<exists>e. upd = Inl e) \<and> w' = w2 \<or> (\<exists>u. upd = Inr u) \<and>
       run_state (change_status E ''executeEscalate'' tid i rule disc StatusEscalated None EventEscalated) w2 = (out, w')"
    using run x i codec
    by (auto simp: executeEscalate_def split: sum.splits bool.splits if_splits option.splits prod.splits)
  then show ?thesis
  proof cases
    case skip
    with w1 show ?thesis by simp
  next
    case plain
    have "weak_steps E (db w1) (db w')"
      by (rule change_status_weak [OF codec _ row plain(1) i _ plain(2)]) (use disc w1 in simp_all)
    with w1 show ?thesis by simp
  next
    case (upgrade sev upd w2)
    show ?thesis
    proof (cases upd)
      case (Inl e)
      with upgrade w1 show ?thesis by (auto dest: UpdateSeverity_Inl)
    next
      case (Inr y)
      obtain now where w2: "db w2 = updated (is_row E tid i) (\<lambda>r. r\<lparr>d_severity := sev, d_updated_at := now\<rparr>) (db w1)"
        and check: "\<And>x. x \<in> set (discrepancies (db w1)) \<Longrightarrow> is_row E tid i x \<Longrightarrow>
           discrepancy_check (x\<lparr>d_severity := sev, d_updated_at := now\<rparr>)"
        using UpdateSeverity_Inr upgrade(2) [unfolded Inr] by metis
      have "weak_step E (db w1) (db w2)" unfolding w2 by (rule weak_step.severity) (rule check)
      moreover have "weak_steps E (db w2) (db w')"
      proof (rule change_status_weak [OF codec _ _ _ i])
        show "disc\<lparr>d_severity := sev, d_updated_at := now\<rparr> \<in> set (discrepancies (db w2))"
          using disc row w1 by (auto simp: w2 image_iff intro!: bexI [of _ disc])
        show "run_state (change_status E ''executeEscalate'' tid i rule disc StatusEscalated None EventEscalated) w2 = (out, w')"
          using upgrade(3) Inr by simp
      qed (use row upgrade(1) in \<open>simp_all add: is_row_def\<close>)
      ultimately show ?thesis using w1 by (simp add: converse_rtranclp_into_rtranclp)
    qed
  qed
qed

lemma executeAutoClose_weak:
  assumes codec: "uuid_codec E" and ok: "weak_inv E (db w)"
    and disc: "disc \<in> set (discrepancies (db w))" "d_tenant_id disc = uuid_text E tid"
    and run: "run_state (executeAutoClose E tid rule disc) w = (out, w')"
  shows "weak_steps E (db w) (db w')"
proof -
  obtain i where i: "d_id disc = uuid_text E i" using ok disc by (auto simp: weak_inv_def ids_ok_def)
  then have row: "is_row E tid i disc" using disc by (simp add: is_row_def)
  obtain al w1 where x: "run_state (ExistsForDiscrepancy E tid i EventAutoClosed) w = (al, w1)" by fastforce
  have w1: "db w1 = db w" using x unfolding ExistsForDiscrepancy_def by (rule wrapped_query_db)
  let ?w2 = "w1\<lparr>tick := Suc (tick w1)\<rparr>"
  consider (skip) "w' = w1"
    | (close) "ValidTransition (d_status disc) StatusAutoClosed"
      "run_state (change_status E ''executeAutoClose'' tid i rule disc StatusAutoClosed
        (Some (clock E (tick w1))) EventAutoClosed) ?w2 = (out, w')"
    using run x i codec
    by (auto simp: executeAutoClose_def split: sum.splits bool.splits if_splits)
  then show ?thesis
  proof cases
    case skip
    with w1 show ?thesis by simp
  next
    case close
    have "weak_steps E (db ?w2) (db w')"
      by (rule change_status_weak [OF codec _ row close(1) i _ close(2)]) (use disc w1 in simp_all)
    with w1 show ?thesis by simp
  qed
qed

lemmas rule_list_loose = loose_of_steps [OF rule_list_relations(2)] loose_of_steps [OF rule_list_relations(4)]

context notification_sender begin

lemma executeAction_weak:
  assumes "uses eng send" and codec: "uuid_codec E" and ok: "weak_inv E (db w)"
    and disc: "disc \<in> set (discrepancies (db w))" "d_tenant_id disc = uuid_text E tid"
    and run: "run_state (executeAction E eng tid rule disc) w = (out, w')"
  shows "weak_steps E (db w) (db w')"
proof -
  consider (notify) "run_state (executeNotify E eng tid rule disc) w = (out, w')"
    | (escalate) "run_state (executeEscalate E tid rule disc) w = (out, w')"
    | (close) "run_state (executeAutoClose E tid rule disc) w = (out, w')"
    | (unknown) "w' = w"
    using run unfolding executeAction_def
    by (cases "r_action rule = ActionNotify"; cases "r_action rule = ActionEscalate";
        cases "r_action rule = ActionAutoClose") simp_all
  then show ?thesis
  proof cases
    case notify
    then show ?thesis
      using spec.lifted.io_run [OF executeNotify_relations(2) [OF assms(1)]] by (simp add: db_rel_def ledger_steps_weak)
  next
    case escalate
    then show ?thesis by (rule executeEscalate_weak [OF codec ok disc])
  next
    case close
    then show ?thesis by (rule executeAutoClose_weak [OF codec ok disc])
  qed simp
qed

lemma actions_weak:
  assumes "uses eng send" and codec: "uuid_codec E"
    and "weak_inv E (db w)" and "distinct (map d_id discs)"
    and "\<forall>disc\<in>set discs. disc \<in> set (discrepancies (db w)) \<and> d_tenant_id disc = uuid_text E tid"
    and "run_state (for_each (\<lambda>disc. do { _ \<leftarrow> executeAction E eng tid rule disc; ret () }) discs) w = (u, w')"
  shows "weak_steps E (db w) (db w')"
  using assms(3-)
proof (induction discs arbitrary: w)
  case Nil
  then show ?case by simp
next
  case (Cons disc discs)
  obtain out w1 where a: "run_state (executeAction E eng tid rule disc) w = (out, w1)" by fastforce
  have rest: "run_state (for_each (\<lambda>disc. do { _ \<leftarrow> executeAction E eng tid rule disc; ret () }) discs) w1 = (u, w')"
    using Cons.prems(4) a by simp
  have disc: "disc \<in> set (discrepancies (db w))" "d_tenant_id disc = uuid_text E tid"
    using Cons.prems(3) by simp_all
  obtain i where i: "d_id disc = uuid_text E i"
    using Cons.prems(1) disc by (auto simp: weak_inv_def ids_ok_def)
  have first: "weak_steps E (db w) (db w1)"
    by (rule executeAction_weak [OF assms(1) codec Cons.prems(1) disc a])
  have "others (d_id disc) (db w) (db w1)"
    using beside.lifted.io_run [OF executeAction_others [OF assms(1) codec i] a] by (simp add: db_rel_def)
  moreover have "d_id x \<noteq> d_id disc" if "x \<in> set discs" for x
    using Cons.prems(2) that by (auto simp: image_iff)
  ultimately have "\<forall>x\<in>set discs. x \<in> set (discrepancies (db w1)) \<and> d_tenant_id x = uuid_text E tid"
    using Cons.prems(3) by (simp add: others_in)
  then have "weak_steps E (db w1) (db w')"
    using Cons.prems(2) by (intro Cons.IH [OF weak_steps_inv [OF first Cons.prems(1)] _ _ rest]) simp_all
  with first show ?case by simp
qed

lemma evaluateRule_loose:
  assumes hub: "uses eng send" and codec: "uuid_codec E"
  shows "state_io_rel (loosely E) (evaluateRule E eng tid rule)"
proof (rule looselyI)
  fix w out w'
  assume run: "run_state (evaluateRule E eng tid rule) w = (out, w')" and ok: "weak_inv E (db w)"
  let ?w1 = "w\<lparr>tick := Suc (tick w)\<rparr>"
  let ?cutoff = "clock E (tick w) + trigger_age (r_trigger_after_hrs rule)"
  obtain listed w2 where l: "run_state (ListForEscalation E tid (r_trigger_status rule) (r_severity_match rule) ?cutoff) ?w1 = (listed, w2)"
    by fastforce
  have w2: "db w2 = db w"
    using l unfolding ListForEscalation_def by (auto dest: wrapped_query_db)
  show "weak_steps E (db w) (db w')"
  proof (cases listed)
    case (Inl e)
    with run l w2 show ?thesis by (simp add: evaluateRule_def)
  next
    case (Inr discs)
    then obtain u where rest: "run_state (for_each (\<lambda>disc. do { _ \<leftarrow> executeAction E eng tid rule disc; ret () }) discs) w2 = (u, w')"
      using run l by (auto simp: evaluateRule_def split: prod.splits)
    have discs: "discs = rows E (tick ?w1) (filter (\<lambda>r. d_tenant_id r = uuid_text E tid \<and>
         d_status r = r_trigger_status rule \<and> d_created_at r < ?cutoff \<and>
         (if r_severity_match rule \<noteq> ''*'' then d_severity r = r_severity_match rule else True)) (discrepancies (db w)))"
      using l Inr unfolding ListForEscalation_def by (auto dest: wrapped_query_Inr)
    have "distinct (map d_id (discrepancies (db w)))" using ok by (simp add: weak_inv_def schema_ok_def)
    then have "distinct (map d_id discs)"
      unfolding discs rows_def by (simp add: distinct_map_filter)
    moreover have "\<forall>disc\<in>set discs. disc \<in> set (discrepancies (db w2)) \<and> d_tenant_id disc = uuid_text E tid"
      unfolding discs w2 by simp
    ultimately have "weak_steps E (db w2) (db w')"
      using ok w2 by (intro actions_weak [OF hub codec _ _ _ rest]) simp_all
    with w2 show ?thesis by simp
  qed
qed

lemma Evaluate_loose:
  assumes hub: "uses eng send" and codec: "uuid_codec E"
  shows "state_io_rel (loosely E) (Evaluate E eng)"
  unfolding Evaluate_def evaluateTenant_def
  by (auto intro!: loosely.io_rules evaluateRule_loose [OF hub codec] rule_list_loose
      split: sum.split)

end

end
