(* ===== verification/Process.thy ===== *)
theory Process
  imports Escalation Ingestion Retrier Router
begin

text \<open>
  The process: start-up (\<open>cmd/server/main.go\<close>, \<open>store/postgres.go\<close>), the life of the NATS consumer
  (\<open>engine/ingestion.go\<close>) and the loops that the background goroutines run. What the
  libraries answer during start-up is the record \<open>boot\<close>; the state is which connections are open.
\<close>

section \<open>The outside of the start-up\<close>

text \<open>
  Each field gives the error of a call, if it fails: of \<open>pgxpool.New\<close>, \<open>Ping\<close>, \<open>migrate.New\<close>, \<open>Up\<close>,
  \<open>nats.Connect\<close> (the URL and the token, if one is given), \<open>JetStream\<close>, \<open>AddStream\<close> (the subject),
  \<open>StreamInfo\<close>, \<open>Subscribe\<close> (subject and consumer) and the two \<open>Drain\<close>s.
\<close>

datatype migrate_outcome = Migrated | NoChange | UpFailed string

record boot =
  pgxpool_New :: "string \<Rightarrow> string option"
  pool_Ping :: "string \<Rightarrow> string option"
  migrate_New :: "string \<Rightarrow> string \<Rightarrow> string option"
  migrate_Up :: "string \<Rightarrow> string \<Rightarrow> migrate_outcome"
  nats_Connect :: "string \<Rightarrow> string option \<Rightarrow> string option"
  nats_JetStream :: "string option"
  js_AddStream :: "string \<Rightarrow> string option"
  js_StreamInfo :: "string \<Rightarrow> string option"
  js_Subscribe :: "string \<Rightarrow> string \<Rightarrow> string option"
  sub_Drain :: "string option"
  nc_Drain :: "string option"

record resources =
  pool_open :: bool
  nats_open :: bool
  subscribed :: bool

definition nothing_open :: resources where
  "nothing_open = \<lparr>pool_open = False, nats_open = False, subscribed = False\<rparr>"

section \<open>postgres.go\<close>

definition NewPostgresPool :: "boot \<Rightarrow> string \<Rightarrow> (resources, unit result) state" where
  "NewPostgresPool B url =
     (case pgxpool_New B url of
        Some e \<Rightarrow> ret (Inl (wrap ''creating postgres pool'' (ErrText e)))
      | None \<Rightarrow> do {
          modify (\<lambda>s. s\<lparr>pool_open := True\<rparr>);
          case pool_Ping B url of
            Some e \<Rightarrow> do {
              modify (\<lambda>s. s\<lparr>pool_open := False\<rparr>);
              ret (Inl (wrap ''pinging postgres'' (ErrText e)))
            }
          | None \<Rightarrow> ret (Inr ())
        })"

definition RunMigrations :: "boot \<Rightarrow> string \<Rightarrow> string \<Rightarrow> unit result" where
  "RunMigrations B url path =
     (case migrate_New B path url of
        Some e \<Rightarrow> Inl (wrap ''creating migrate instance'' (ErrText e))
      | None \<Rightarrow> (case migrate_Up B path url of
            UpFailed e \<Rightarrow> Inl (wrap ''running migrations'' (ErrText e))
          | NoChange \<Rightarrow> Inr ()
          | Migrated \<Rightarrow> Inr ()))"

definition initDatabase :: "boot \<Rightarrow> Config \<Rightarrow> (resources, unit result) state" where
  "initDatabase B cfg =
     (if DatabaseURL cfg = [] then ret (Inl (ErrText ''DATABASE_URL is required''))
      else do {
        made \<leftarrow> NewPostgresPool B (DatabaseURL cfg);
        case made of
          Inl e \<Rightarrow> ret (Inl (wrap ''creating pool'' e))
        | Inr _ \<Rightarrow> (case RunMigrations B (DatabaseURL cfg) ''file://migrations'' of
              Inl e \<Rightarrow> do {
                modify (\<lambda>s. s\<lparr>pool_open := False\<rparr>);
                ret (Inl (wrap ''running migrations'' e))
              }
            | Inr _ \<Rightarrow> ret (Inr ()))
      })"

section \<open>ingestion.go\<close>

record ingestion =
  ing_subject :: string
  ing_consumerName :: string

definition NewIngestion :: "boot \<Rightarrow> Config \<Rightarrow> (resources, ingestion result) state" where
  "NewIngestion B cfg =
     (case nats_Connect B (NATSURL cfg) (if NATSToken cfg \<noteq> [] then Some (NATSToken cfg) else None) of
        Some e \<Rightarrow> ret (Inl (wrap ''ingestion.New: connect to NATS'' (ErrText e)))
      | None \<Rightarrow> do {
          modify (\<lambda>s. s\<lparr>nats_open := True\<rparr>);
          case nats_JetStream B of
            Some e \<Rightarrow> do {
              modify (\<lambda>s. s\<lparr>nats_open := False\<rparr>);
              ret (Inl (wrap ''ingestion.New: get JetStream context'' (ErrText e)))
            }
          | None \<Rightarrow> (case js_AddStream B (NATSSubject cfg) of
              None \<Rightarrow> ret (Inr \<lparr>ing_subject = NATSSubject cfg, ing_consumerName = NATSConsumerName cfg\<rparr>)
            | Some e \<Rightarrow> (case js_StreamInfo B ''RECON'' of
                Some _ \<Rightarrow> do {
                  modify (\<lambda>s. s\<lparr>nats_open := False\<rparr>);
                  ret (Inl (wrap ''ingestion.New: ensure stream'' (ErrText e)))
                }
              | None \<Rightarrow> ret (Inr \<lparr>ing_subject = NATSSubject cfg, ing_consumerName = NATSConsumerName cfg\<rparr>)))
        })"

definition Ingestion_Start :: "boot \<Rightarrow> ingestion \<Rightarrow> (resources, unit result) state" where
  "Ingestion_Start B ing =
     (case js_Subscribe B (ing_subject ing) (ing_consumerName ing) of
        Some e \<Rightarrow> ret (Inl (wrap ''ingestion.Start: subscribe'' (ErrText e)))
      | None \<Rightarrow> do { modify (\<lambda>s. s\<lparr>subscribed := True\<rparr>); ret (Inr ()) })"

text \<open>Draining a subscription or a connection closes it when it is through; an error leaves it as it is.\<close>

definition Ingestion_Stop :: "boot \<Rightarrow> (resources, unit result) state" where
  "Ingestion_Stop B = do {
     modify (\<lambda>s. if subscribed s \<and> sub_Drain B = None then s\<lparr>subscribed := False\<rparr> else s);
     (case nc_Drain B of
        Some e \<Rightarrow> ret (Inl (wrap ''ingestion.Stop: drain'' (ErrText e)))
      | None \<Rightarrow> do { modify (\<lambda>s. s\<lparr>subscribed := False, nats_open := False\<rparr>); ret (Inr ()) })
   }"

section \<open>main.go\<close>

definition Minute :: "64 word" where
  "Minute = 60000000000"

text \<open>\<open>time.Duration(cfg.EscalationIntervalMinutes) * time.Minute\<close>, an \<open>int64\<close> product.\<close>

definition escalation_interval :: "Config \<Rightarrow> int" where
  "escalation_interval cfg = sint (word_of_int (EscalationIntervalMinutes cfg) * Minute)"

text \<open>
  What runs when \<open>main\<close> has started everything. \<open>http\<close> is the HTTP client of the hub client,
  \<open>templates\<close> the template engine of the report generator.
\<close>

record process =
  p_deps :: RouterDeps
  p_ingests :: bool
  p_engine :: escalation_engine
  p_interval :: int
  p_retrier :: notification_retrier
  p_feeder :: RAGFeeder
  p_generator :: report_generator

definition hub_client_of :: "(nat \<Rightarrow> string \<Rightarrow> string \<Rightarrow> hub_event \<Rightarrow> http_outcome) \<Rightarrow> Config \<Rightarrow> hub_client" where
  "hub_client_of http cfg = NewHubClient (NotificationHubURL cfg) (NotificationHubAPIKey cfg)
     (NotificationHubEnabled cfg) (MaxNotificationRetries cfg) http"

definition wire :: "env \<Rightarrow> (nat \<Rightarrow> string \<Rightarrow> string \<Rightarrow> hub_event \<Rightarrow> http_outcome) \<Rightarrow> template_engine \<Rightarrow> Config \<Rightarrow> bool
    \<Rightarrow> process" where
  "wire E http templates cfg ingests =
     \<lparr>p_deps = \<lparr>Pool = True, Logger = NewLogger (LogLevel cfg), HealthHandler = Some (True, NATSURL cfg), TenantHandler = Some cfg,
        DiscrepancyHandler = True, RulesHandler = True, StatsHandler = True, ReportsHandler = Some True,
        MetricsHandler = True\<rparr>,
      p_ingests = ingests,
      p_engine = WithNotifications (Some (hub_send E (hub_client_of http cfg))) NewEscalationEngine,
      p_interval = escalation_interval cfg,
      p_retrier = NewNotificationRetrier (hub_send E (hub_client_of http cfg)) (MaxNotificationRetries cfg),
      p_feeder = NewRAGFeeder cfg,
      p_generator = NewReportGenerator (ReportStoragePath cfg) (ReportMaxEvents cfg) templates\<rparr>"

text \<open>\<open>None\<close>: \<open>logger.Fatal\<close> ends the process.\<close>

definition main :: "boot \<Rightarrow> env \<Rightarrow> (nat \<Rightarrow> string \<Rightarrow> string \<Rightarrow> hub_event \<Rightarrow> http_outcome) \<Rightarrow> template_engine \<Rightarrow> Config
    \<Rightarrow> (resources, process option) state" where
  "main B E http templates cfg = do {
     opened \<leftarrow> initDatabase B cfg;
     case opened of
       Inl e \<Rightarrow> ret None
     | Inr _ \<Rightarrow> do {
         made \<leftarrow> NewIngestion B cfg;
         started \<leftarrow> (case made of
             Inl e \<Rightarrow> ret False
           | Inr ing \<Rightarrow> do {
               s \<leftarrow> Ingestion_Start B ing;
               ret (case s of Inl e \<Rightarrow> False | Inr _ \<Rightarrow> True)
             });
         ret (Some (wire E http templates cfg started))
       }
   }"

text \<open>
  \<open>waitForShutdown\<close> and the deferred calls of \<open>main\<close>, the last one first: \<open>ingestion.Stop\<close> when it was started,
  \<open>cancel\<close>, \<open>pool.Close\<close>. \<open>forced\<close>: \<open>srv.Shutdown\<close> fails, and \<open>logger.Fatal\<close> ends the process without them.
\<close>

definition shutdown :: "boot \<Rightarrow> bool \<Rightarrow> process \<Rightarrow> (resources, unit) state" where
  "shutdown B forced P =
     (if forced then ret ()
      else do {
        (if p_ingests P then do { _ \<leftarrow> Ingestion_Stop B; ret () } else ret ());
        modify (\<lambda>s. s\<lparr>pool_open := False\<rparr>)
      })"

section \<open>The loops of the goroutines\<close>

text \<open>
  What the \<open>select\<close> of a loop receives, in order: the cancellation of the context or a tick. The result says whether
  the loop has returned.
\<close>

datatype select = CtxDone | TickerC

primrec ticker_loop :: "('s, unit) state \<Rightarrow> select list \<Rightarrow> ('s, bool) state" where
  "ticker_loop pass [] = ret False"
| "ticker_loop pass (ev # evs) =
     (case ev of CtxDone \<Rightarrow> ret True | TickerC \<Rightarrow> do { pass; ticker_loop pass evs })"

text \<open>\<open>time.NewTicker\<close> panics unless the interval is positive; no one recovers from it in a goroutine.\<close>

definition EscalationEngine_Start ::
  "env \<Rightarrow> escalation_engine \<Rightarrow> int \<Rightarrow> select list \<Rightarrow> (world, bool option) state" where
  "EscalationEngine_Start E eng interval evs =
     (if interval \<le> 0 then ret None
      else do { stopped \<leftarrow> ticker_loop (do { _ \<leftarrow> Evaluate E eng; ret () }) evs; ret (Some stopped) })"

definition NotificationRetrier_Start :: "env \<Rightarrow> notification_retrier \<Rightarrow> select list \<Rightarrow> (world, bool) state" where
  "NotificationRetrier_Start E r = ticker_loop (do { _ \<leftarrow> RetryPending E r; ret () })"

definition RAGSyncer_StartSync :: "env \<Rightarrow> rag_net \<Rightarrow> RAGFeeder \<Rightarrow> select list \<Rightarrow> (rag_world, bool) state" where
  "RAGSyncer_StartSync E N f = ticker_loop (runSync E N f)"

definition MetricsCollector_Start :: "env \<Rightarrow> select list \<Rightarrow> (metrics_world, bool) state" where
  "MetricsCollector_Start E = ticker_loop (do { _ \<leftarrow> Snapshot E; ret () })"

definition ReportCleaner_Start :: "env \<Rightarrow> host \<Rightarrow> select list \<Rightarrow> (disk_world, bool) state" where
  "ReportCleaner_Start E H = ticker_loop (cleaner_tick E H)"

section \<open>Start-up opens what it uses and leaves nothing behind\<close>

lemma initDatabase_run:
  assumes "run_state (initDatabase B cfg) nothing_open = (out, s)"
  shows "case out of Inl e \<Rightarrow> s = nothing_open | Inr u \<Rightarrow> s = nothing_open\<lparr>pool_open := True\<rparr>"
  using assms
  by (auto simp: initDatabase_def NewPostgresPool_def nothing_open_def split: if_splits option.splits sum.splits)

lemma NewIngestion_run:
  assumes "run_state (NewIngestion B cfg) s = (out, s')" and "\<not> nats_open s"
  shows "case out of Inl e \<Rightarrow> s' = s
    | Inr ing \<Rightarrow> s' = s\<lparr>nats_open := True\<rparr> \<and> ing_subject ing = NATSSubject cfg \<and> ing_consumerName ing = NATSConsumerName cfg"
  using assms
  by (auto simp: NewIngestion_def split: if_splits option.splits sum.splits)

text \<open>
  C35 (error). Start-up either fails and leaves no connection open, or the service runs with the database open. It runs without
  ingestion when NATS cannot be reached or the subscription is refused, and consumes messages
  exactly when it is subscribed; every other component is there in either case.
\<close>

theorem start_up:
  assumes "run_state (main B E http templates cfg) nothing_open = (p, s)"
  shows "case p of
      None \<Rightarrow> s = nothing_open \<and> (\<exists>e. fst (run_state (initDatabase B cfg) nothing_open) = Inl e)
    | Some P \<Rightarrow> pool_open s \<and> DatabaseURL cfg \<noteq> [] \<and> P = wire E http templates cfg (subscribed s) \<and>
        (subscribed s \<longrightarrow> nats_open s \<and> js_Subscribe B (NATSSubject cfg) (NATSConsumerName cfg) = None)"
proof -
  obtain opened s1 where i: "run_state (initDatabase B cfg) nothing_open = (opened, s1)" by fastforce
  note db = initDatabase_run [OF i]
  show ?thesis
  proof (cases opened)
    case (Inl e)
    with assms i db show ?thesis by (simp add: main_def)
  next
    case (Inr u)
    then have s1: "s1 = nothing_open\<lparr>pool_open := True\<rparr>" and url: "DatabaseURL cfg \<noteq> []"
      using db i by (auto simp: initDatabase_def)
    obtain made s2 where n: "run_state (NewIngestion B cfg) s1 = (made, s2)" by fastforce
    note ing = NewIngestion_run [OF n]
    show ?thesis
      using assms i Inr n ing s1 url
      by (auto simp: main_def Ingestion_Start_def nothing_open_def split: sum.splits option.splits)
  qed
qed

text \<open>
  When the drains succeed, an orderly shutdown closes everything that start-up opened, but for one thing: the NATS connection
  of a service whose subscription was refused is left to the end of the process, because only a started consumer is stopped.
\<close>

lemma orderly_shutdown:
  assumes "run_state (main B E http templates cfg) nothing_open = (Some P, s)"
    and "sub_Drain B = None" and "nc_Drain B = None"
  shows "snd (run_state (shutdown B False P) s) = nothing_open\<lparr>nats_open := (nats_open s \<and> \<not> p_ingests P)\<rparr>"
proof -
  obtain opened s1 where i: "run_state (initDatabase B cfg) nothing_open = (opened, s1)" by fastforce
  obtain u where opened: "opened = Inr u" using assms(1) i by (cases opened) (auto simp: main_def)
  obtain made s2 where n: "run_state (NewIngestion B cfg) s1 = (made, s2)" by fastforce
  show ?thesis
    using assms i opened n initDatabase_run [OF i] NewIngestion_run [OF n]
    by (auto simp: main_def wire_def shutdown_def Ingestion_Start_def Ingestion_Stop_def nothing_open_def split: sum.splits option.splits)
qed

section \<open>The loops run one pass for each tick\<close>

definition passes :: "select list \<Rightarrow> nat" where
  "passes evs = length (takeWhile (\<lambda>ev. ev = TickerC) evs)"

lemma run_ticker_loop:
  "run_state (ticker_loop pass evs) s =
     (CtxDone \<in> set evs, ((\<lambda>s. snd (run_state pass s)) ^^ passes evs) s)"
proof (induction evs arbitrary: s)
  case (Cons ev evs)
  then show ?case
    by (cases ev) (simp_all add: passes_def split_beta funpow_swap1 [where f = "\<lambda>s. snd (run_state pass s)"])
qed (simp add: passes_def)

lemma interval_fits:
  assumes "\<bar>EscalationIntervalMinutes cfg\<bar> \<le> 153722867"
  shows "escalation_interval cfg = EscalationIntervalMinutes cfg * 60000000000"
proof -
  have "word_of_int (EscalationIntervalMinutes cfg) * Minute = (word_of_int (EscalationIntervalMinutes cfg * 60000000000) :: 64 word)"
    by (simp add: Minute_def)
  then have "escalation_interval cfg = signed_take_bit 63 (EscalationIntervalMinutes cfg * 60000000000)"
    by (simp only: escalation_interval_def sint_sbintrunc') simp
  also have "\<dots> = EscalationIntervalMinutes cfg * 60000000000"
    by (rule signed_take_bit_int_eq_self) (use assms in simp_all)
  finally show ?thesis .
qed

text \<open>
  With an interval of 1 to 153722867 minutes the escalation loop does not panic, runs exactly one pass
  for each tick before the context is cancelled, and returns then.
\<close>

lemma escalation_loop:
  assumes "1 \<le> EscalationIntervalMinutes cfg" and "EscalationIntervalMinutes cfg \<le> 153722867"
  shows "run_state (EscalationEngine_Start E eng (escalation_interval cfg) evs) w =
    (Some (CtxDone \<in> set evs), ((\<lambda>w. snd (run_state (Evaluate E eng) w)) ^^ passes evs) w)"
proof -
  have "\<bar>EscalationIntervalMinutes cfg\<bar> \<le> 153722867" using assms by linarith
  from interval_fits [OF this] have "0 < escalation_interval cfg" using assms by simp
  moreover have "(\<lambda>w. snd (run_state (do { _ \<leftarrow> Evaluate E eng; ret () }) w)) = (\<lambda>w. snd (run_state (Evaluate E eng) w))"
    by (simp add: split_beta)
  ultimately show ?thesis by (simp add: EscalationEngine_Start_def run_ticker_loop)
qed

text \<open>Any other value brings the process down, or wraps around: zero and the negative ones, and the next larger one.\<close>

lemma escalation_loop_panics:
  assumes "EscalationIntervalMinutes cfg \<le> 0" and "- 153722867 \<le> EscalationIntervalMinutes cfg"
  shows "run_state (EscalationEngine_Start E eng (escalation_interval cfg) evs) w = (None, w)"
proof -
  have "\<bar>EscalationIntervalMinutes cfg\<bar> \<le> 153722867" using assms by linarith
  from interval_fits [OF this] show ?thesis using assms(1) by (simp add: EscalationEngine_Start_def)
qed

lemma interval_wraps: "sint (word_of_int 153722868 * Minute) < 0"
  by code_simp

text \<open>The other loops have constant intervals.\<close>

lemma other_loops:
  "run_state (NotificationRetrier_Start E r evs) w =
     (CtxDone \<in> set evs, ((\<lambda>w. snd (run_state (RetryPending E r) w)) ^^ passes evs) w)"
  "run_state (RAGSyncer_StartSync E N f evs) rs =
     (CtxDone \<in> set evs, ((\<lambda>s. snd (run_state (runSync E N f) s)) ^^ passes evs) rs)"
  "run_state (MetricsCollector_Start E evs) ms =
     (CtxDone \<in> set evs, ((\<lambda>s. snd (run_state (Snapshot E) s)) ^^ passes evs) ms)"
  "run_state (ReportCleaner_Start E H evs) ds =
     (CtxDone \<in> set evs, ((\<lambda>s. snd (run_state (cleaner_tick E H) s)) ^^ passes evs) ds)"
  by (simp_all add: NotificationRetrier_Start_def RAGSyncer_StartSync_def MetricsCollector_Start_def
      ReportCleaner_Start_def run_ticker_loop split_beta)

section \<open>On a concrete outside\<close>

definition calm_boot :: boot where
  "calm_boot = \<lparr>pgxpool_New = (\<lambda>u. None), pool_Ping = (\<lambda>u. None), migrate_New = (\<lambda>p u. None),
     migrate_Up = (\<lambda>p u. NoChange), nats_Connect = (\<lambda>u t. None), nats_JetStream = None,
     js_AddStream = (\<lambda>x. Some ''stream name already in use''), js_StreamInfo = (\<lambda>n. None), js_Subscribe = (\<lambda>x c. None),
     sub_Drain = None, nc_Drain = None\<rparr>"

definition sample_config :: Config where
  "sample_config = (Load (\<lambda>k. []))\<lparr>DatabaseURL := ''postgres://db''\<rparr>"

theorem start_up_witness:
  "\<exists>P s. run_state (main calm_boot calm (\<lambda>t u k ev. NoAnswer []) (\<lambda>f rd. Inr []) sample_config) nothing_open = (Some P, s) \<and>
     p_ingests P \<and> nats_open s"
proof -
  let ?run = "run_state (main calm_boot calm (\<lambda>t u k ev. NoAnswer []) (\<lambda>f rd. Inr []) sample_config) nothing_open"
  have run: "?run = (Some (wire calm (\<lambda>t u k ev. NoAnswer []) (\<lambda>f rd. Inr []) sample_config True),
      \<lparr>pool_open = True, nats_open = True, subscribed = True\<rparr>)"
    by (simp add: main_def initDatabase_def NewPostgresPool_def RunMigrations_def NewIngestion_def Ingestion_Start_def
        calm_boot_def sample_config_def nothing_open_def)
  from start_up [OF run] run show ?thesis by (simp add: wire_def)
qed

text \<open>Here the subscription is refused.\<close>

lemma orderly_shutdown_witness:
  "\<exists>P s. run_state (main (calm_boot\<lparr>js_Subscribe := (\<lambda>x c. Some ''no'')\<rparr>) calm (\<lambda>t u k ev. NoAnswer []) (\<lambda>f rd. Inr [])
     sample_config) nothing_open = (Some P, s) \<and>
     nats_open (snd (run_state (shutdown (calm_boot\<lparr>js_Subscribe := (\<lambda>x c. Some ''no'')\<rparr>) False P) s))"
proof -
  let ?B = "calm_boot\<lparr>js_Subscribe := (\<lambda>x c. Some ''no'')\<rparr>"
  have run: "run_state (main ?B calm (\<lambda>t u k ev. NoAnswer []) (\<lambda>f rd. Inr []) sample_config) nothing_open =
      (Some (wire calm (\<lambda>t u k ev. NoAnswer []) (\<lambda>f rd. Inr []) sample_config False),
      \<lparr>pool_open = True, nats_open = True, subscribed = False\<rparr>)"
    by (simp add: main_def initDatabase_def NewPostgresPool_def RunMigrations_def NewIngestion_def Ingestion_Start_def
        calm_boot_def sample_config_def nothing_open_def)
  from orderly_shutdown [OF run] run show ?thesis by (simp add: calm_boot_def wire_def)
qed

lemma escalation_loop_witness:
  "fst (run_state (EscalationEngine_Start calm NewEscalationEngine (escalation_interval sample_config)
     [TickerC, TickerC, CtxDone]) (sample_world (sample_db [] []))) = Some True"
  using escalation_loop [of sample_config calm NewEscalationEngine "[TickerC, TickerC, CtxDone]"] Load_empty(5)
  by (simp add: sample_config_def)

end
