(* ===== verification/Statements.thy ===== *)
theory Statements
  imports Escalation Ingestion Retrier Router
begin

text \<open>
  From the statements to the operations: what every \<open>INSERT\<close>, \<open>UPDATE\<close> and \<open>DELETE\<close> of the stores does to the tables,
  and what a rollback does to them, every handler, message and pass does too. The interface is one law for
  each statement the repository issues; a relation that satisfies them is carried through the whole code once.
\<close>

locale table_statements = disk_relation S for S :: "database \<Rightarrow> database \<Rightarrow> bool" +
  fixes E :: env
  assumes discrepancy_insert: "S d (snd (insert_discrepancy E tid x t d))"
    and discrepancy_update: "(\<And>now r. same_identity r (f now r)) \<Longrightarrow> S d (snd (update_discrepancies E hit f c t d))"
    and event_insert: "S d (snd (insert_event E c tid ev t d))"
    and notification_insert: "S d (snd (insert_notification E tid i rule ch rc t d))"
    and notification_update: "S d (snd (update_notifications E i st resp att t d))"
    and rule_insert: "S d (snd (insert_rule E tid rl t d))"
    and rule_update: "S d (snd (update_rule E cs args m n t d))"
    and rule_delete: "S d (snd (delete_rule E tid i t d))"
    and report_insert: "S d (snd (insert_report E tid rpt t d))"
    and report_update: "S d (snd (update_reports E (is_report E tid i) (set_report_status st path sz) t d))"
    and report_clean: "S d (snd (update_reports E phit cleaned t d))"
    and tenant_insert: "S d (snd (insert_tenant E name key t d))"
    and roll_back: "S d d' \<Longrightarrow> S d (d\<lparr>event_seq := event_seq d'\<rparr>)"
begin

section \<open>The stores\<close>

lemma store_writes:
  "state_io_rel (db_rel S) (DiscrepancyStore_Create E tid x)"
  "state_io_rel (db_rel S) (UpdateStatusWith E c tid i st res)"
  "state_io_rel (db_rel S) (DiscrepancyStore_UpdateStatus E tid i st res)"
  "state_io_rel (db_rel S) (UpdateSeverity E tid i sev)"
  "state_io_rel (db_rel S) (AppendWith E c tid ev)"
  "state_io_rel (db_rel S) (EventStore_Append E tid ev)"
  "state_io_rel (db_rel S) (NotificationStore_Create E tid i rule ch rc)"
  "state_io_rel (db_rel S) (NotificationStore_UpdateStatus E i st resp att)"
  "state_io_rel (db_rel S) (pg E (insert_notification E tid i rule ch rc))"
  "state_io_rel (db_rel S) (insertTenant E name key)"
  unfolding DiscrepancyStore_Create_def DiscrepancyStore_UpdateStatus_def UpdateStatusWith_def UpdateSeverity_def
    EventStore_Append_def AppendWith_def NotificationStore_Create_def NotificationStore_UpdateStatus_def
    insertTenant_def rows_or_not_found_def
  by (auto intro!: io_basic io_pg discrepancy_insert discrepancy_update event_insert notification_insert
      notification_update tenant_insert simp: same_identity_def set_status_def)

lemma rule_writes:
  "state_io_rel (db_rel S) (RuleStore_Create E tid x)"
  "state_io_rel (db_rel S) (RuleStore_GetByID E tid i)"
  "state_io_rel (db_rel S) (RuleStore_List E tid active)"
  "state_io_rel (db_rel S) (RuleStore_Update E tid i u)"
  "state_io_rel (db_rel S) (RuleStore_Delete E tid i)"
  unfolding RuleStore_Create_def RuleStore_GetByID_def RuleStore_List_def RuleStore_Update_def RuleStore_Delete_def
    rows_or_not_found_def
  by (auto intro!: io_basic io_pg rule_insert rule_update rule_delete split: prod.split)

section \<open>The handlers\<close>

lemma transition_law:
  "state_io_rel (db_rel S) (executeTransition E tid i s res ty actor payload)"
proof (rule db_relI)
  fix w out w'
  assume run: "run_state (executeTransition E tid i s res ty actor payload) w = (out, w')"
  obtain begun w1 where b: "run_state (tx_begin E) w = (begun, w1)" by fastforce
  then have same: "db w1 = db w" by (auto simp: tx_begin_def run_pg query_def split: if_splits)
  show "S (db w) (db w')"
  proof (cases begun)
    case (Inl e)
    with run b same show ?thesis by (simp add: executeTransition_def base.step_refl)
  next
    case (Inr p)
    obtain tx snap where p: "p = (tx, snap)" by fastforce
    then have snap: "snap = db w" using b Inr by (auto simp: tx_begin_def run_pg query_def split: if_splits)
    obtain done' w2 where body: "run_state (transition_body E tx tid i s res ty actor payload) w1 = (done', w2)" by fastforce
    have "state_io_rel (db_rel S) (transition_body E tx tid i s res ty actor payload)"
      unfolding transition_body_def GetByIDWith_def NewLedgerEvent_def
      by (auto intro!: io_basic store_writes split: sum.split)
    then have step: "S (db w) (db w2)"
      using lifted.io_run [OF _ body] same by (simp add: db_rel_def)
    have "db w' = db w2 \<or> db w' = (db w)\<lparr>event_seq := event_seq (db w2)\<rparr>"
      using run b Inr p body snap
      by (auto simp: executeTransition_def tx_commit_def run_pg query_def split: sum.splits if_splits)
    with step roll_back [OF step] show ?thesis by auto
  qed
qed

lemma workflow_law:
  assumes "h \<in> {Acknowledge, Investigate, Resolve, AddNote, DiscrepancyHandler_GetByID}"
  shows "state_io_rel (db_rel S) (h E r)"
  using assms
  unfolding Acknowledge_def Investigate_def Resolve_def AddNote_def DiscrepancyHandler_GetByID_def
    checkOptimisticLock_def NewLedgerEvent_def
  by (auto intro!: io_basic io_reads transition_law store_writes split: sum.split option.split)

lemma rules_law: "h \<in> rules_handlers \<Longrightarrow> state_io_rel (db_rel S) (h E r)"
  by (auto simp: rules_handlers_def RulesHandler_List_def RulesHandler_Create_def RulesHandler_Update_def
      RulesHandler_Delete_def intro!: io_basic rule_writes split: sum.split option.split)

lemma create_law: "state_io_rel (db_rel S) (ReportsHandler_Create E g r)"
proof -
  have "state_io_rel (db_rel S) (ReportStore_Create E tid x)" for tid x
    unfolding ReportStore_Create_def by (rule io_pg) (rule report_insert)
  then show ?thesis
    unfolding ReportsHandler_Create_def by (auto intro!: io_basic split: option.split sum.split)
qed

lemma register_law: "state_io_rel (db_rel S) (Register E C cfg r)"
  unfolding Register_def generateAPIKey_def Let_def
  by (auto intro!: io_basic store_writes split: option.split sum.split)

section \<open>The messages and the passes\<close>

lemma reply_law: "state_io_rel (db_rel S) (reply x)"
  by (simp add: reply_def io_outside)

lemma message_parts:
  "state_io_rel (db_rel S) (shouldDeadLetter msg)" "state_io_rel (db_rel S) (validateTenant E tid)"
  "state_io_rel (db_rel S) (isDuplicate E tid ext)" "state_io_rel (db_rel S) (persistDiscrepancy E env)"
  unfolding shouldDeadLetter_def validateTenant_def isDuplicate_def GetByExternalID_def persistDiscrepancy_def
    NewLedgerEvent_def Let_def
  by (auto intro!: io_basic reply_law store_writes split: option.split sum.split)

lemma message_law: "state_io_rel (db_rel S) (handleMessage E msg)"
  unfolding handleMessage_def by (auto intro!: io_basic reply_law message_parts split: option.split)

lemma hub_law: "state_io_rel (db_rel S) (hub_send E c ev)"
  by (rule hub.send_db_rel) (rule base.step_refl)

lemma change_law: "state_io_rel (db_rel S) (change_status E fn tid i rule disc st res ty)"
  unfolding change_status_def NewLedgerEvent_def by (auto intro!: io_basic store_writes split: sum.split)

lemma send_law:
  assumes "uses eng (hub_send E c)"
  shows "state_io_rel (db_rel S) (sendViaHub E eng tid rule disc n)"
proof (cases "hubClient eng")
  case None
  then show ?thesis by (simp add: sendViaHub_def lifted.io_ret)
next
  case (Some send)
  then have "send = hub_send E c" using assms by (simp add: uses_def)
  with Some show ?thesis
    unfolding sendViaHub_def by (auto intro!: io_basic store_writes hub_law split: option.split sum.split)
qed

lemma notify_law:
  assumes "uses eng (hub_send E c)"
  shows "state_io_rel (db_rel S) (executeNotify E eng tid rule disc)"
  unfolding executeNotify_def createNotificationLog_def notificationExists_def
  by (auto intro!: io_basic io_reads store_writes send_law [OF assms] split: option.split sum.split bool.split)

lemma action_law:
  assumes "uses eng (hub_send E c)"
  shows "state_io_rel (db_rel S) (executeAction E eng tid rule disc)"
  unfolding executeAction_def executeEscalate_def executeAutoClose_def
  by (auto intro!: io_basic io_reads store_writes change_law notify_law [OF assms]
      split: option.split sum.split bool.split)

lemma engine_law:
  assumes "uses eng (hub_send E c)"
  shows "state_io_rel (db_rel S) (Evaluate E eng)"
  unfolding Evaluate_def evaluateTenant_def evaluateRule_def getActiveTenantIDs_def ListForEscalation_def
  by (auto intro!: io_basic io_reads rule_writes action_law [OF assms] split: sum.split)

lemma retry_law:
  assumes "rt_hubClient rt = hub_send E c"
  shows "state_io_rel (db_rel S) (RetryPending E rt)"
  unfolding RetryPending_def retryOne_def ListPendingRetries_def Let_def assms
  by (auto intro!: io_basic io_reads store_writes hub_law split: sum.split option.split)

lemma clean_law: "state_io_rel (disk_rel S) (cleaner_tick E H)"
proof -
  have mark: "state_io_rel (db_rel S) (MarkCleaned E i)" for i
    unfolding MarkCleaned_def rows_or_not_found_def by (auto intro!: io_basic io_pg report_clean)
  have list: "state_io_rel (db_rel S) (ListOlderThan E c st)" for c st
    unfolding ListOlderThan_def by (intro io_basic)
  have one: "state_io_rel (disk_rel S) (cleanupReport E H rpt)" for rpt
    unfolding cleanupReport_def Let_def by (auto intro!: io_disk mark split: option.split sum.split)
  have "state_io_rel (disk_rel S) (cleanup_all E H rs n f)" for rs n f
    by (induction rs arbitrary: n f) (auto intro!: io_disk one)
  then show ?thesis
    unfolding cleaner_tick_def Cleanup_def by (auto intro!: io_disk io_basic list split: sum.split)
qed

end

text \<open>So the statement a report generator writes with respects it.\<close>

sublocale table_statements \<subseteq> reports: report_writing S E tid for tid
  by unfold_locales (rule report_update)

end
