(* ===== verification/Service.thy ===== *)
theory Service
  imports Faults Process Statements
begin

text \<open>
  The whole service as a step relation: requests, messages, the passes of the background loops and the
  goroutines of the report handler, in any order and under any failures of the outside. One
  operation is one step here; what happens when two of them overlap is the theory \<open>Races\<close>.
\<close>

section \<open>The state of the service\<close>

record service =
  srv :: server
  sv_gauges :: "string \<times> string \<Rightarrow> nat option"
  sv_uploads :: "upload list"
  sv_lastSync :: gotime

definition on_server :: "(server, 'a) state \<Rightarrow> (service, 'a) state" where
  "on_server m = State (\<lambda>s. case run_state m (srv s) of (x, v) \<Rightarrow> (x, s\<lparr>srv := v\<rparr>))"

definition on_gauges :: "(metrics_world, 'a) state \<Rightarrow> (service, 'a) state" where
  "on_gauges m = State (\<lambda>s. case run_state m \<lparr>mw = backend (srv s), gauges = sv_gauges s\<rparr> of
     (x, v) \<Rightarrow> (x, s\<lparr>srv := (srv s)\<lparr>backend := mw v\<rparr>, sv_gauges := gauges v\<rparr>))"

definition on_syncer :: "(rag_world, 'a) state \<Rightarrow> (service, 'a) state" where
  "on_syncer m = State (\<lambda>s. case run_state m \<lparr>rw = backend (srv s), uploads = sv_uploads s, lastSync = sv_lastSync s\<rparr> of
     (x, v) \<Rightarrow> (x, s\<lparr>srv := (srv s)\<lparr>backend := rw v\<rparr>, sv_uploads := uploads v, sv_lastSync := lastSync v\<rparr>))"

abbreviation tables :: "service \<Rightarrow> database" where
  "tables s \<equiv> db (backend (srv s))"

text \<open>The goroutine at position \<open>n\<close> of those that were started runs: \<open>Generate\<close> for its report.\<close>

definition run_job :: "outside \<Rightarrow> report_generator \<Rightarrow> nat \<Rightarrow> (server, unit) state" where
  "run_job O' g n = do {
     s \<leftarrow> State_Monad.get;
     (if n < length (started_jobs s)
      then (case started_jobs s ! n of (tid, rpt) \<Rightarrow> do {
        modify (\<lambda>s. s\<lparr>started_jobs := take n (started_jobs s) @ drop (Suc n) (started_jobs s)\<rparr>);
        _ \<leftarrow> on_disk (Generate (oE O') (oH O') g tid rpt);
        ret ()
      })
      else ret ())
   }"

section \<open>The operations\<close>

datatype operation =
    Request request | Message nats_msg | EscalationPass | RetryPass | SyncPass | SnapshotPass | CleanupTick | Job nat

fun perform :: "outside \<Rightarrow> rag_net \<Rightarrow> process \<Rightarrow> operation \<Rightarrow> service \<Rightarrow> service" where
  "perform O' N P (Request r) s = snd (run_state (on_server (NewRouter O' (p_deps P) r)) s)"
| "perform O' N P (Message msg) s = snd (run_state (on_server (on_backend (handleMessage (oE O') msg))) s)"
| "perform O' N P EscalationPass s = snd (run_state (on_server (on_backend (Evaluate (oE O') (p_engine P)))) s)"
| "perform O' N P RetryPass s = snd (run_state (on_server (on_backend (RetryPending (oE O') (p_retrier P)))) s)"
| "perform O' N P SyncPass s = snd (run_state (on_syncer (runSync (oE O') N (p_feeder P))) s)"
| "perform O' N P SnapshotPass s = snd (run_state (on_gauges (Snapshot (oE O'))) s)"
| "perform O' N P CleanupTick s = snd (run_state (on_server (on_disk (cleaner_tick (oE O') (oH O')))) s)"
| "perform O' N P (Job n) s = snd (run_state (on_server (run_job O' (p_generator P) n)) s)"

text \<open>Messages come in when the service is subscribed, passes of the engine when its loop did not panic.\<close>

fun enabled :: "process \<Rightarrow> operation \<Rightarrow> bool" where
  "enabled P (Message msg) = p_ingests P"
| "enabled P EscalationPass = (0 < p_interval P)"
| "enabled P op = True"

text \<open>A run of the service, each of whose steps is one that \<open>Q\<close> allows.\<close>

inductive service_run ::
  "outside \<Rightarrow> rag_net \<Rightarrow> process \<Rightarrow> (operation \<Rightarrow> service \<Rightarrow> service \<Rightarrow> bool) \<Rightarrow> service \<Rightarrow> operation list \<Rightarrow> service \<Rightarrow> bool"
  for O' N P Q s where
  start: "service_run O' N P Q s [] s"
| operate: "service_run O' N P Q s ops s' \<Longrightarrow> enabled P op \<Longrightarrow> Q op s' (perform O' N P op s') \<Longrightarrow>
     service_run O' N P Q s (ops @ [op]) (perform O' N P op s')"

lemma run_on_server [simp]: "run_state (on_server m) s =
    (fst (run_state m (srv s)), s\<lparr>srv := snd (run_state m (srv s))\<rparr>)"
  by (simp add: on_server_def split_beta)

section \<open>Operations that leave the ledger to others\<close>

lemma syncer_reads:
  "db (rw (snd (run_state (runSync E N f) s))) = db (rw s)"
proof -
  have basic: "state_io_rel (frames (\<lambda>s. db (rw s))) (on_rag (time_Now E))"
    "state_io_rel (frames (\<lambda>s. db (rw s))) (on_rag next_tick)"
    "state_io_rel (frames (\<lambda>s. db (rw s))) (on_rag (ListByDiscrepancy E tid i))"
    "state_io_rel (frames (\<lambda>s. db (rw s))) (on_rag (ListAllResolvedSince E t))"
    "state_io_rel (frames (\<lambda>s. db (rw s))) (modify (\<lambda>s. s\<lparr>uploads := uploads s @ [up]\<rparr>))"
    "state_io_rel (frames (\<lambda>s. db (rw s))) (modify (\<lambda>s. s\<lparr>lastSync := t\<rparr>))" for tid i t up
    by (auto simp: state_io_rel_def frames_def ListByDiscrepancy_def ListAllResolvedSince_def wrapped_def run_pg query_def)
  have feed: "state_io_rel (frames (\<lambda>s. db (rw s))) (FeedResolved E N f tid r)" for tid r
    unfolding FeedResolved_def uploadDocument_def Let_def
    by (auto intro!: framing.io_rules basic split: option.split)
  have "state_io_rel (frames (\<lambda>s. db (rw s))) (feed_all E N f rs n)" for rs n
    by (induction rs arbitrary: n) (auto intro!: framing.io_rules feed split: option.split sum.split)
  then have "state_io_rel (frames (\<lambda>s. db (rw s))) (runSync E N f)"
    unfolding runSync_def by (auto intro!: framing.io_rules basic split: sum.split)
  then show ?thesis by (simp add: state_io_rel_def frames_def)
qed

lemma snapshot_reads: "db (mw (snd (run_state (Snapshot E) s))) = db (mw s)"
proof -
  have basic: "state_io_rel (frames (\<lambda>s. db (mw s))) (on_metrics (wrapped ctx (pg E (query q))))"
    "(\<And>s. mw (f s) = mw s) \<Longrightarrow> state_io_rel (frames (\<lambda>s. db (mw s))) (modify f)" for ctx q f
    by (auto simp: state_io_rel_def frames_def wrapped_def run_pg query_def)
  have "state_io_rel (frames (\<lambda>s. db (mw s))) (set_gauges rs)" for rs
    by (induction rs) (auto intro!: framing.io_rules basic)
  then have "state_io_rel (frames (\<lambda>s. db (mw s))) (Snapshot E)"
    unfolding Snapshot_def by (auto intro!: framing.io_rules basic split: sum.split)
  then show ?thesis by (simp add: state_io_rel_def frames_def)
qed






section \<open>What every operation but the engine's respects\<close>

definition obeys :: "(database \<Rightarrow> database \<Rightarrow> bool) \<Rightarrow> 'b handler \<Rightarrow> bool" where
  "obeys S h \<longleftrightarrow> (\<forall>r s. S (db (backend s)) (db (backend (snd (run_state (h r) s)))))"

text \<open>
  The interface between the operations and what one wants to know of the tables: a relation that each
  handler, message and pass but the engine's respects, whatever fails.
\<close>

locale service_relation = table_relation S for S :: "database \<Rightarrow> database \<Rightarrow> bool" +
  fixes E :: env
  assumes workflow: "uuid_codec E \<Longrightarrow> h \<in> {Acknowledge, Investigate, Resolve, AddNote, DiscrepancyHandler_GetByID} \<Longrightarrow> state_io_rel (db_rel S) (h E r)"
    and rules: "k \<in> rules_handlers \<Longrightarrow> state_io_rel (db_rel S) (k E r)"
    and create: "state_io_rel (db_rel S) (ReportsHandler_Create E g r)"
    and register: "state_io_rel (db_rel S) (Register E C cfg r)"
    and message: "uuid_codec E \<Longrightarrow> state_io_rel (db_rel S) (handleMessage E msg)"
    and retry: "rt_hubClient rt = hub_send E hc \<Longrightarrow> state_io_rel (db_rel S) (RetryPending E rt)"
    and generate: "state_io_rel (disk_rel S) (Generate E H gen tid rpt)"
    and clean: "state_io_rel (disk_rel S) (cleaner_tick E H)"
begin

lemma plain_respects:
  assumes "\<And>r. state_io_rel (db_rel S) (h r)"
  shows "obeys S (answering_with f (plain h))"
  using assms by (simp add: obeys_def state_io_rel_def db_rel_def)

lemma reading_respects: "state_io_rel (db_rel (\<lambda>d d'. d' = d)) m \<Longrightarrow> state_io_rel (db_rel S) m"
  by (erule io_weaken) (simp add: base.step_refl)

lemma on_disk_respects:
  assumes "state_io_rel (disk_rel S) m"
  shows "S (db w) (db (dw (snd (run_state m \<lparr>dw = w, files = fs\<rparr>))))"
  using assms by (auto simp: state_io_rel_def disk_rel_def) (metis disk_world.select_convs(1))

lemma routes_respect:
  assumes E: "oE O' = E" and codec: "uuid_codec E"
  shows "\<forall>h\<in>set (map snd (api_routes O' deps)). obeys S h"
proof -
  have placeholder: "obeys S placeholderHandler"
    by (simp add: obeys_def placeholderHandler_def base.step_refl)
  have disc: "obeys S (discrepancyRoute O' deps h)"
    if "h \<in> {Acknowledge, Investigate, Resolve, AddNote, DiscrepancyHandler_GetByID}" for h
    using that placeholder unfolding discrepancyRoute_def E
    by (auto intro!: plain_respects workflow [OF codec])
  have ruled: "obeys S (rulesRoute O' deps h)" if "h \<in> rules_handlers" for h
    using rules [OF that] placeholder unfolding rulesRoute_def E by (auto intro!: plain_respects)
  have reads: "obeys S (discrepancyListRoute O' deps)" "obeys S (tenantMeRoute O' deps)"
    "obeys S (statsRoute O' deps)" "obeys S (reportsListRoute O' deps)"
    using placeholder unfolding discrepancyListRoute_def tenantMeRoute_def statsRoute_def reportsListRoute_def E
    by (auto intro!: plain_respects reading_respects reading_handlers split: option.split)
  have download: "obeys S (answering_with f (\<lambda>r. on_disk (Download E (oH O') r)))" for f :: "_ \<Rightarrow> api_reply"
    using download_untouched [of _ f E "oH O'"] by (simp add: obeys_def untouched_def base.step_refl)
  have created: "obeys S (answering_with f (create_and_start E g))" for f :: "_ \<Rightarrow> api_reply" and g
    unfolding obeys_def
  proof (intro allI)
    fix r and s :: server
    have "S (db (backend s)) (db (snd (run_state (ReportsHandler_Create E g r) (backend s))))"
      using lifted.io_snd [OF create] by (simp add: db_rel_def)
    then show "S (db (backend s)) (db (backend (snd (run_state (answering_with f (create_and_start E g) r) s))))"
      by (auto simp: create_and_start_def split: prod.splits option.splits)
  qed
  have "obeys S (reportsCreateRoute O' deps)" "obeys S (reportsDownloadRoute O' deps)"
    by (simp_all add: reportsCreateRoute_def reportsDownloadRoute_def E created download placeholder split: option.split)
  with placeholder disc ruled reads show ?thesis
    by (simp add: api_routes_def rules_handlers_def)
qed

lemma public_respect:
  assumes E: "oE O' = E"
  shows "\<forall>h\<in>set (map snd (public_routes O' deps)). obeys S h"
proof -
  have registered: "obeys S (answering_with f (plain (Register E C cfg)))" for f :: "_ \<Rightarrow> api_reply" and C cfg
    by (rule plain_respects) (rule register)
  have "obeys S (answering_with f (plain (\<lambda>r. HealthHandler_Handle N p u)))" for f :: "_ \<Rightarrow> api_reply" and N p u
    by (intro plain_respects reading_respects reading_handlers)
  moreover have "obeys S (placeholderHandler :: api_reply handler)" "obeys S defaultHealthHandler"
    "obeys S (\<lambda>r. ret (x :: api_reply response))" for x
    by (simp_all add: obeys_def placeholderHandler_def defaultHealthHandler_def base.step_refl)
  ultimately show ?thesis
    using registered by (simp add: public_routes_def healthRoute_def metricsRoute_def registerRoute_def E split: option.split)
qed

text \<open>The layers around a handler leave the tables alone.\<close>

lemma layers_respect:
  fixes h :: "'b handler"
  assumes "obeys S h"
  shows "obeys S (maxBodySize n h)" and "obeys S (Recoverer O' h)"
    and "obeys S (NewRateLimiter E' k h)" and "obeys S (RequestLogger O' lvl h)"
    and "obeys S (TenantMiddleware_Handler E' C h)"
proof -
  have h: "S (db (backend s)) (db (backend (snd (run_state (h r) s))))" for r s
    using assms by (simp add: obeys_def)
  have start: "S (db w) (db (backend (snd (run_state (h r) s1))))" if "db (backend s1) = db w" for r s1 w
    using h [where s = s1 and r = r] that by simp
  show "obeys S (maxBodySize n h)" "obeys S (Recoverer O' h)"
    using h by (simp_all add: obeys_def maxBodySize_def Recoverer_def split_beta)
  show "obeys S (NewRateLimiter E' k h)"
    unfolding obeys_def
  proof (intro allI)
    fix r s
    obtain ok s1 where a: "run_state (allow E' k (extractIP r)) s = (ok, s1)" by fastforce
    then have same: "db (backend s1) = db (backend s)" using allow_state [OF a] by (simp add: untouched_def)
    then have "S (db (backend s)) (db (backend (snd (run_state (h r) s1))))" by (rule start)
    with a same show "S (db (backend s)) (db (backend (snd (run_state (NewRateLimiter E' k h r) s))))"
      by (simp add: NewRateLimiter_def base.step_refl)
  qed
  have "S (db (backend s)) (db (backend (snd (run_state (h r)
      (s\<lparr>backend := (backend s)\<lparr>tick := Suc (tick (backend s))\<rparr>\<rparr>)))))" for r and s :: server
    by (rule start) simp
  then show "obeys S (RequestLogger O' lvl h)"
    by (simp add: obeys_def RequestLogger_def split_beta)
  show "obeys S (TenantMiddleware_Handler E' C h)"
    unfolding obeys_def
  proof (intro allI)
    fix r s
    obtain who :: "'b response + string" and s1 where a: "run_state (authenticate E' C r) s = (who, s1)" by fastforce
    then have "db (backend s1) = db (backend s)"
      using framing.io_run [OF authenticate_frames a] by (simp add: frames_def)
    note same = this
    then have "S (db (backend s)) (db (backend (snd (run_state (h q) s1))))" for q by (rule start)
    with a same show "S (db (backend s)) (db (backend (snd (run_state (TenantMiddleware_Handler E' C h r) s))))"
      by (simp add: TenantMiddleware_Handler_def base.step_refl split: sum.split)
  qed
qed

lemma dispatch_respects:
  assumes E: "oE O' = E" and codec: "uuid_codec E"
  shows "obeys S (dispatch O' deps)"
proof -
  have "obeys S (with_tenant O' deps h)" if "obeys S h" for h :: "api_reply handler"
    using layers_respect(5) [OF that]
    by (simp add: with_tenant_def) (simp add: obeys_def requireAuthStub_def base.step_refl)
  then have all: "\<forall>h\<in>set (map snd (routes O' deps)). obeys S h"
    using public_respect [OF E] routes_respect [OF E codec]
    unfolding routes_def map_append set_append by force
  show ?thesis
    unfolding obeys_def
  proof (intro allI)
    fix r s
    show "S (db (backend s)) (db (backend (snd (run_state (dispatch O' deps r) s))))"
    proof (cases "\<exists>i t. pick O' (map fst (routes O' deps)) r = Some (i, t) \<and> i < length (routes O' deps)")
      case False
      then show ?thesis by (auto simp: dispatch_def base.step_refl split: option.split)
    next
      case True
      then obtain i t where i: "pick O' (map fst (routes O' deps)) r = Some (i, t)" "i < length (routes O' deps)" by blast
      then have "obeys S (snd (routes O' deps ! i))" using all by auto
      with i show ?thesis by (simp add: dispatch_def obeys_def)
    qed
  qed
qed

lemma router_respects:
  assumes E: "oE O' = E" and codec: "uuid_codec E"
  shows "S (db (backend s)) (db (backend (snd (run_state (NewRouter O' deps r) s))))"
proof -
  have "obeys S (RequestLogger O' (Logger deps) (Recoverer O' (NewRateLimiter (oE O') 60
      (maxBodySize (2 ^ 20) (dispatch O' deps)))))" by (intro layers_respect dispatch_respects E codec)
  then show ?thesis by (simp add: obeys_def NewRouter_def)
qed

lemma perform_respects:
  assumes E: "oE O' = E" and codec: "uuid_codec E" and wired: "P = wire E http templates cfg ingests"
    and op: "op \<noteq> EscalationPass"
  shows "S (tables s) (tables (perform O' N P op s))"
proof (cases op)
  case (Request r)
  then show ?thesis by (simp add: router_respects [OF E codec])
next
  case (Message msg)
  then show ?thesis using lifted.io_snd [OF message [OF codec]] by (simp add: E db_rel_def)
next
  case RetryPass
  have "rt_hubClient (p_retrier P) = hub_send E (hub_client_of http cfg)"
    by (simp add: wired wire_def NewNotificationRetrier_def)
  then have "state_io_rel (db_rel S) (RetryPending E (p_retrier P))"
    by (rule retry)
  with RetryPass show ?thesis by (simp add: state_io_rel_def db_rel_def E)
next
  case SyncPass
  then show ?thesis by (simp add: on_syncer_def split_beta syncer_reads base.step_refl)
next
  case SnapshotPass
  then show ?thesis by (simp add: on_gauges_def split_beta snapshot_reads base.step_refl)
next
  case CleanupTick
  then show ?thesis using on_disk_respects [OF clean] by (simp add: E)
next
  case (Job n)
  then show ?thesis
    using on_disk_respects [OF generate]
    by (auto simp: run_job_def split_beta base.step_refl E split: prod.split)
qed (use op in simp)

end

section \<open>The steps of the ledger, and the statements\<close>



sublocale table_statements \<subseteq> service_relation S E
  by unfold_locales
     (auto intro: workflow_law rules_law create_law register_law message_law retry_law reports.generator_law clean_law simp del: insert_iff)

lemma wired_engine:
  "P = wire E http templates cfg ingests \<Longrightarrow> uses (p_engine P) (hub_send E (hub_client_of http cfg))"
  by (simp add: wire_def uses_def WithNotifications_def)

context table_statements begin

lemma perform_law:
  assumes "oE O' = E" and "uuid_codec E" and wired: "P = wire E http templates cfg ingests"
  shows "S (tables s) (tables (perform O' N P op s))"
proof (cases "op = EscalationPass")
  case True
  then show ?thesis
    using lifted.io_snd [OF engine_law [OF wired_engine [OF wired]]] assms(1) by (simp add: db_rel_def)
next
  case False
  then show ?thesis by (rule perform_respects [OF assms])
qed

lemma run_law:
  assumes "service_run O' N P Q s ops s'" and "oE O' = E" and "uuid_codec E" and "P = wire E http templates cfg ingests"
  shows "S (tables s) (tables s')"
  using assms(1)
  by induction (auto intro: base.step_refl base.step_trans perform_law [OF assms(2-4)])

end

section \<open>The service\<close>











section \<open>On a concrete outside\<close>











end
