(* ===== verification/Races.thy ===== *)
theory Races
  imports Workflow Escalation Ingestion
begin

text \<open>
  Operations that overlap. Everywhere else an operation is one step; here another program \<open>other\<close> runs in
  the middle of one, at a point where the code holds no lock. Each definition below is the code's own
  operation when \<open>other\<close> does nothing, which is proved first; the theorems then show what the invariants of the
  ledger lose when it does something. Statements see what is committed (\<open>READ COMMITTED\<close>, the default), and an
  update blocks nobody before it runs.
\<close>

section \<open>The engine's list is not the table\<close>

text \<open>\<open>evaluateRule\<close> with \<open>other\<close> between the listing and the first action.\<close>

definition interrupted_rule ::
  "env \<Rightarrow> escalation_engine \<Rightarrow> uuid \<Rightarrow> escalation_rule \<Rightarrow> (world, unit) state \<Rightarrow> (world, unit result) state" where
  "interrupted_rule E eng tid rule other = do {
     now \<leftarrow> time_Now E;
     listed \<leftarrow> ListForEscalation E tid (r_trigger_status rule) (r_severity_match rule)
                 (now + trigger_age (r_trigger_after_hrs rule));
     other;
     case listed of
       Inl e \<Rightarrow> ret (Inl (wrap ''evaluateRule: list'' e))
     | Inr discs \<Rightarrow> do {
         for_each (\<lambda>disc. do { _ \<leftarrow> executeAction E eng tid rule disc; ret () }) discs;
         ret (Inr ())
       }
   }"

lemma interrupted_by_nothing: "interrupted_rule E eng tid rule (ret ()) = evaluateRule E eng tid rule"
  by (simp add: interrupted_rule_def evaluateRule_def)




section \<open>Two transitions of one discrepancy\<close>

text \<open>
  \<open>executeTransition\<close> with \<open>other\<close> after the read of its transaction, which takes no lock. Nothing is written before \<open>other\<close>, so a
  rollback goes back to what \<open>other\<close> left.
\<close>

definition interrupted_transition ::
  "env \<Rightarrow> uuid \<Rightarrow> uuid \<Rightarrow> string \<Rightarrow> gotime option \<Rightarrow> string \<Rightarrow> string \<Rightarrow> jobject \<Rightarrow> (world, unit) state
     \<Rightarrow> (world, (discrepancy \<times> ledger_event) result) state" where
  "interrupted_transition E tid discID targetStatus resolvedAt eventType actor payload other = do {
     begun \<leftarrow> tx_begin E;
     case begun of
       Inl e \<Rightarrow> ret (Inl (wrap ''TX_FAILED'' e))
     | Inr (tx, _) \<Rightarrow> do {
         got \<leftarrow> GetByIDWith E tx tid discID;
         other;
         here \<leftarrow> State_Monad.get;
         res \<leftarrow> after_read E tx tid discID targetStatus resolvedAt eventType actor payload got;
         case res of
           Inl e \<Rightarrow> do { tx_rollback (db here); ret (Inl e) }
         | Inr out \<Rightarrow> do {
             committed \<leftarrow> tx_commit E;
             case committed of
               Inl e \<Rightarrow> do { tx_rollback (db here); ret (Inl (wrap ''COMMIT_FAILED'' e)) }
             | Inr _ \<Rightarrow> ret (Inr out)
           }
       }
   }"

lemma run_inject: "(\<And>w. run_state m w = run_state m' w) \<Longrightarrow> m = m'"
  by (cases m; cases m') (auto simp: fun_eq_iff)

lemma GetByIDWith_reads: "db (snd (run_state (GetByIDWith E c tid i) w)) = db w"
  by (auto simp: GetByIDWith_def wrapped_def rows_or_not_found_def run_pg query_def split_beta)

lemma tx_begin_snap: "run_state (tx_begin E) w = (Inr (tx, snap), w1) \<Longrightarrow> snap = db w1"
  by (auto simp: tx_begin_def run_pg query_def split: if_splits)

lemma transition_by_nothing:
  "interrupted_transition E tid i s res ty actor payload (ret ()) = executeTransition E tid i s res ty actor payload"
proof (rule run_inject)
  fix w
  obtain begun w1 where b: "run_state (tx_begin E) w = (begun, w1)" by fastforce
  show "run_state (interrupted_transition E tid i s res ty actor payload (ret ())) w =
      run_state (executeTransition E tid i s res ty actor payload) w"
  proof (cases begun)
    case (Inl e)
    with b show ?thesis by (simp add: interrupted_transition_def executeTransition_def)
  next
    case (Inr p)
    obtain tx snap where p: "p = (tx, snap)" by fastforce
    obtain got w2 where g: "run_state (GetByIDWith E tx tid i) w1 = (got, w2)" by fastforce
    have "snap = db w2"
      using GetByIDWith_reads [of E tx tid i w1] g tx_begin_snap [of E w tx snap w1] b Inr p by simp
    moreover obtain out w3 where "run_state (after_read E tx tid i s res ty actor payload got) w2 = (out, w3)" by fastforce
    ultimately show ?thesis using b Inr p g
      by (simp add: interrupted_transition_def executeTransition_def transition_body_split State_Monad.get_def)
  qed
qed



section \<open>The optimistic lock is not held\<close>

text \<open>A handler with \<open>other\<close> between its check of the lock and what it then writes.\<close>

definition interrupted_handler ::
  "env \<Rightarrow> request \<Rightarrow> (workflowRequest \<Rightarrow> workflow_reply response option)
     \<Rightarrow> (uuid \<Rightarrow> uuid \<Rightarrow> workflowRequest \<Rightarrow> (world, workflow_reply response) state) \<Rightarrow> (world, unit) state
     \<Rightarrow> (world, workflow_reply response) state" where
  "interrupted_handler E r check act other =
     guarded E r check (\<lambda>tid i req. do { other; act tid i req })"

definition note_act :: "env \<Rightarrow> uuid \<Rightarrow> uuid \<Rightarrow> workflowRequest \<Rightarrow> (world, workflow_reply response) state" where
  "note_act E tid i req = do {
     got \<leftarrow> DiscrepancyStore_GetByID E tid i;
     case got of
       Inl e \<Rightarrow> ret (RespondError 404 ''NOT_FOUND'' ''Discrepancy not found'')
     | Inr _ \<Rightarrow> do {
         event \<leftarrow> NewLedgerEvent E (uuid_text E tid) (uuid_text E i) EventNoteAdded
                    (Actor req) ActorUser (Some [(''content'', JStr (Content req))]);
         saved \<leftarrow> EventStore_Append E tid event;
         ret (case saved of
                Inl e \<Rightarrow> RespondError 500 ''EVENT_FAILED'' ''Failed to append event''
              | Inr savedEvent \<Rightarrow> RespondJSON 201 (NoteSaved savedEvent))
       }
   }"

lemma note_by_nothing: "interrupted_handler E r need_content (note_act E) (ret ()) = AddNote E r"
  by (auto simp: interrupted_handler_def AddNote_def guarded_def need_content_def need_actor_def note_act_def split: sum.split)




section \<open>Two deliveries of one message\<close>

text \<open>\<open>handleMessage\<close> with \<open>other\<close> between the duplicate check and the insertion, which are two statements.\<close>

definition interrupted_message :: "env \<Rightarrow> nats_msg \<Rightarrow> (world, unit) state \<Rightarrow> (world, unit) state" where
  "interrupted_message E msg other = do {
     dead \<leftarrow> shouldDeadLetter msg;
     if dead then ret ()
     else case Option.bind (msg_data msg) dec_envelope of
       None \<Rightarrow> reply Nak
     | Some env \<Rightarrow>
         if envelope_validate env \<noteq> None then reply Nak
         else if payload_validate (Payload env) \<noteq> None then reply Nak
         else do {
           bad \<leftarrow> validateTenant E (TenantID env);
           if bad \<noteq> None then ret ()
           else do {
             dup \<leftarrow> isDuplicate E (TenantID env) (ExternalID (Payload env));
             if dup then ret () else do { other; persistDiscrepancy E env }
           }
         }
   }"

lemma message_by_nothing: "interrupted_message E msg (ret ()) = handleMessage E msg"
  by (simp add: interrupted_message_def handleMessage_def cong: if_cong option.case_cong)

text \<open>
  The check is only an optimisation: the unique key on tenant and external identifier decides (\<open>persist_stored\<close>). Two deliveries
  of the sample message, the second inside the first: one row, one event; the first delivery is refused and comes back.
\<close>

lemma overlapping_deliveries:
  "let w' = snd (run_state (interrupted_message calm sample_msg (handleMessage calm sample_msg)) (sample_world (sample_db [] [])))
   in length (discrepancies (db w')) = 1 \<and> map e_event_type (ledger_events (db w')) = [EventReceived] \<and> replies w' = [Ack, Nak]"
  by code_simp

section \<open>Two engines\<close>

text \<open>\<open>executeNotify\<close> with \<open>other\<close> between its check and its insertion. The log has no unique key.\<close>

definition interrupted_notify ::
  "env \<Rightarrow> escalation_engine \<Rightarrow> uuid \<Rightarrow> escalation_rule \<Rightarrow> discrepancy \<Rightarrow> (world, unit) state \<Rightarrow> (world, unit result) state" where
  "interrupted_notify E eng tid rule disc other =
     (case uuid_parse E (d_id disc) of
        None \<Rightarrow> ret (Inl (ErrText ''executeNotify: parse disc ID''))
      | Some discID \<Rightarrow>
     (case uuid_parse E (r_id rule) of
        None \<Rightarrow> ret (Inl (ErrText ''executeNotify: parse rule ID''))
      | Some ruleID \<Rightarrow> do {
          already \<leftarrow> notificationExists E eng ruleID discID;
          other;
          case already of
            Inl e \<Rightarrow> ret (Inl (wrap ''executeNotify: dedup check'' e))
          | Inr True \<Rightarrow> ret (Inr ())
          | Inr False \<Rightarrow> do {
              created \<leftarrow> createNotificationLog E eng tid discID ruleID;
              case created of
                Inl e \<Rightarrow> ret (Inl (wrap ''executeNotify: create log'' e))
              | Inr notif \<Rightarrow> do { sendViaHub E eng tid rule disc notif; ret (Inr ()) }
            }
        }))"

lemma notify_by_nothing: "interrupted_notify E eng tid rule disc (ret ()) = executeNotify E eng tid rule disc"
  by (simp add: interrupted_notify_def executeNotify_def cong: option.case_cong)

text \<open>
  So two processes that evaluate the same rule at once notify twice, which one engine by itself never does, and every later
  check still says that there is a notification.
\<close>

lemma two_engines_notify_twice:
  "let rule = sample_rule StatusOpen ActionNotify 0; disc = sample_row StatusOpen None; eng = wired calm mute_hub;
       w = sample_world ((sample_db [disc] [])\<lparr>escalation_rules := [rule]\<rparr>);
       w' = snd (run_state (interrupted_notify calm eng 5 rule disc
              (do { _ \<leftarrow> executeNotify calm eng 5 rule disc; ret () })) w)
   in map n_escalation_rule_id (notification_logs (db w')) = [Some (r_id rule), Some (r_id rule)] \<and>
      \<not> notified_once (db w')"
proof -
  let ?rule = "sample_rule StatusOpen ActionNotify 0" and ?disc = "sample_row StatusOpen None" and ?eng = "wired calm mute_hub"
  let ?w = "snd (run_state (interrupted_notify calm ?eng 5 ?rule ?disc (do { _ \<leftarrow> executeNotify calm ?eng 5 ?rule ?disc; ret () }))
      (sample_world ((sample_db [?disc] [])\<lparr>escalation_rules := [?rule]\<rparr>)))"
  have keys: "notified_keys (db ?w) = [(Some ''7'', ''7''), (Some ''7'', ''7'')]" by code_simp
  then have "\<not> notified_once (db ?w)"
    unfolding notified_once_def by (auto simp: keys intro!: exI [of _ "''7''"])
  moreover have "map n_escalation_rule_id (notification_logs (db ?w)) = [Some (r_id ?rule), Some (r_id ?rule)]" by code_simp
  ultimately show ?thesis by (simp add: Let_def)
qed

end
