(* ===== verification/Overlap.thy ===== *)
theory Overlap
  imports Typing Races
begin

text \<open>
  The service at the grain of the statements. The handlers, the consumer and the loops run beside each other, and what one of
  them does between two statements is not protected from the others. Here the unit is one statement: the whole service is
  shown to be made of them, and what every single one keeps, no overlap can break.
\<close>

section \<open>Statements\<close>









section \<open>What every statement keeps\<close>

text \<open>
  The log is only appended to, its sequence never goes back, and no row of the discrepancies is deleted or gets another
  tenant, origin, type or time of creation.
\<close>

definition rows_kept :: "database \<Rightarrow> database \<Rightarrow> bool" where
  "rows_kept d d' \<longleftrightarrow> (\<exists>us vs. discrepancies d' = us @ vs \<and> list_all2 same_identity (discrepancies d) us)"

definition ledger_kept :: "database \<Rightarrow> database \<Rightarrow> bool" where
  "ledger_kept d d' \<longleftrightarrow> append_only d d' \<and> seq_grows d d' \<and> rows_kept d d'"


lemma same_identity_refl [simp]: "same_identity r r"
  by (simp add: same_identity_def)

lemma same_identity_all [simp]: "list_all2 same_identity rs rs"
  by (simp add: list_all2_refl)

lemma rows_kept_mapped:
  "(\<And>r. same_identity r (g r)) \<Longrightarrow> discrepancies d' = map g (discrepancies d) @ vs \<Longrightarrow> rows_kept d d'"
  unfolding rows_kept_def by (intro exI [of _ "map g (discrepancies d)"] exI [of _ vs]) (simp add: list_all2_map2 list_all2_refl)

lemma rows_kept_extended: "discrepancies d' = discrepancies d @ vs \<Longrightarrow> rows_kept d d'"
  by (rule rows_kept_mapped [of id]) simp_all

lemma rows_kept_trans:
  assumes "rows_kept d d'" and "rows_kept d' d''"
  shows "rows_kept d d''"
proof -
  obtain us vs us' vs' where 1: "discrepancies d' = us @ vs" "list_all2 same_identity (discrepancies d) us"
    and 2: "discrepancies d'' = us' @ vs'" "list_all2 same_identity (us @ vs) us'"
    using assms unfolding rows_kept_def by auto
  from 2(2) obtain as bs where split: "us' = as @ bs" "list_all2 same_identity us as"
    by (auto simp: list_all2_append1)
  have "list_all2 same_identity (discrepancies d) as"
    by (rule list_all2_trans [OF _ 1(2) split(2)]) (auto simp: same_identity_def)
  with 2(1) split(1) show ?thesis unfolding rows_kept_def by auto
qed

interpretation ledger_kept: step_preorder ledger_kept
  by unfold_locales
     (auto simp: ledger_kept_def seq_grows_def intro: rows_kept_extended [where vs = "[]"] rows_kept_trans append_only.step_trans)

text \<open>The three relations follow from what a statement does to the columns they read.\<close>

lemma kept_same: "discrepancies d' = discrepancies d \<Longrightarrow> ledger_events d' = ledger_events d \<Longrightarrow> event_seq d \<le> event_seq d' \<Longrightarrow> ledger_kept d d'"
  by (auto simp: ledger_kept_def seq_grows_def intro: rows_kept_extended [where vs = "[]"])

lemma kept_rules: "rules_only d d' \<Longrightarrow> ledger_kept d d'"
  by (rule kept_same) (auto simp: rules_only_def)

lemma kept_discrepancies:
  "ledger_kept d (snd (insert_discrepancy E tid x t d))"
  "(\<And>now r. same_identity r (f now r)) \<Longrightarrow> ledger_kept d (snd (update_discrepancies E hit f c t d))"
proof -
  have "rows_kept d (snd (insert_discrepancy E tid x t d))"
    by (auto simp: insert_discrepancy_def Let_def intro: rows_kept_extended rows_kept_extended [where vs = "[]"] split: option.split)
  then show "ledger_kept d (snd (insert_discrepancy E tid x t d))"
    by (simp add: ledger_kept_def insert_discrepancy_grows)
next
  assume f: "\<And>now r. same_identity r (f now r)"
  have "rows_kept d (snd (update_discrepancies E hit f c t d))"
    by (auto simp: update_discrepancies_def Let_def f
        intro: rows_kept_extended [where vs = "[]"] rows_kept_mapped [where g = "\<lambda>r. if hit r then f (now_of E c t) r else r" and vs = "[]"])
  then show "ledger_kept d (snd (update_discrepancies E hit f c t d))"
    by (simp add: ledger_kept_def update_discrepancies_grows)
qed

lemma kept_event: "ledger_kept d (snd (insert_event E c tid x t d))"
proof -
  have "discrepancies (snd (insert_event E c tid x t d)) = discrepancies d"
    by (auto simp: insert_event_def Let_def split: option.split)
  then show ?thesis
    by (simp add: ledger_kept_def insert_event_grows rows_kept_extended [where vs = "[]"])
qed

lemma kept_others:
  "ledger_kept d (snd (insert_notification E tid i rule ch rc t d))"
  "ledger_kept d (snd (update_notifications E i st resp att t d))"
  "ledger_kept d (snd (update_reports E phit fp t d))"
  "ledger_kept d (snd (insert_tenant E name key t d))"
  "ledger_kept d (snd (insert_report E tid rpt t d))"
  "event_seq d \<le> n \<Longrightarrow> ledger_kept d (d\<lparr>event_seq := n\<rparr>)"
  by (auto intro!: kept_same simp: insert_notification_def update_notifications_def update_reports_def insert_report_def insert_tenant_def Let_def)

lemma ledger_kept_seq: "ledger_kept d d' \<Longrightarrow> event_seq d \<le> event_seq d'"
  by (simp add: ledger_kept_def seq_grows_def)

interpretation kept: table_statements ledger_kept E for E
  by unfold_locales
     (auto intro: kept_discrepancies kept_event kept_others kept_rules rules_only_statements ledger_kept_seq)






section \<open>Operations in the middle of operations\<close>

text \<open>What \<open>Races\<close> cuts in two respects a law of the statements when the program in the middle does.\<close>

context table_statements begin

lemma interrupted_rule_law:
  assumes "uses eng (hub_send E c)" and "state_io_rel (db_rel S) other"
  shows "state_io_rel (db_rel S) (interrupted_rule E eng tid rule other)"
  unfolding interrupted_rule_def ListForEscalation_def
  by (auto intro!: io_basic assms(2) action_law [OF assms(1)] split: sum.split)

lemma interrupted_handler_law:
  assumes "\<And>tid i req. state_io_rel (db_rel S) (act tid i req)" and "state_io_rel (db_rel S) other"
  shows "state_io_rel (db_rel S) (interrupted_handler E r check act other)"
  unfolding interrupted_handler_def guarded_def checkOptimisticLock_def
  by (auto intro!: io_basic io_reads assms split: sum.split option.split)

lemma interrupted_message_law:
  "state_io_rel (db_rel S) other \<Longrightarrow> state_io_rel (db_rel S) (interrupted_message E msg other)"
  unfolding interrupted_message_def by (auto intro!: io_basic reply_law message_parts split: option.split)

lemma interrupted_notify_law:
  assumes "uses eng (hub_send E c)" and "state_io_rel (db_rel S) other"
  shows "state_io_rel (db_rel S) (interrupted_notify E eng tid rule disc other)"
  unfolding interrupted_notify_def createNotificationLog_def notificationExists_def
  by (auto intro!: io_basic io_reads store_writes assms(2) send_law [OF assms(1)] split: option.split sum.split bool.split)

lemma after_read_law: "state_io_rel (db_rel S) (after_read E c tid i s res ty actor payload got)"
  unfolding after_read_def NewLedgerEvent_def by (auto intro!: io_basic store_writes split: sum.split)

lemma interrupted_transition_law:
  assumes "state_io_rel (db_rel S) other"
  shows "state_io_rel (db_rel S) (interrupted_transition E tid i s res ty actor payload other)"
proof (rule db_relI)
  fix w out w'
  assume run: "run_state (interrupted_transition E tid i s res ty actor payload other) w = (out, w')"
  obtain begun w1 where b: "run_state (tx_begin E) w = (begun, w1)" by fastforce
  then have same: "db w1 = db w" by (auto simp: tx_begin_def run_pg query_def split: if_splits)
  show "S (db w) (db w')"
  proof (cases begun)
    case (Inl e)
    with run b same show ?thesis by (simp add: interrupted_transition_def base.step_refl)
  next
    case (Inr p)
    obtain tx snap where p: "p = (tx, snap)" by fastforce
    obtain got w2 where g: "run_state (GetByIDWith E tx tid i) w1 = (got, w2)" by fastforce
    then have "db w2 = db w" using GetByIDWith_reads [of E tx tid i w1] same by simp
    obtain w3 where o: "run_state other w2 = ((), w3)" by (metis old.unit.exhaust surj_pair)
    then have mid: "S (db w) (db w3)"
      using lifted.io_run [OF assms o] \<open>db w2 = db w\<close> by (simp add: db_rel_def)
    obtain ended w4 where a: "run_state (after_read E tx tid i s res ty actor payload got) w3 = (ended, w4)" by fastforce
    then have last: "S (db w3) (db w4)"
      using lifted.io_run [OF after_read_law a] by (simp add: db_rel_def)
    have "db w' = db w4 \<or> db w' = (db w3)\<lparr>event_seq := event_seq (db w4)\<rparr>"
      using run b Inr p g o a
      by (auto simp: interrupted_transition_def State_Monad.get_def tx_commit_def run_pg query_def split: sum.splits if_splits)
    with base.step_trans [OF mid last] base.step_trans [OF mid roll_back [OF last]] show ?thesis by auto
  qed
qed

lemma note_act_law: "state_io_rel (db_rel S) (note_act E tid i req)"
  unfolding note_act_def DiscrepancyStore_GetByID_def GetByIDWith_def NewLedgerEvent_def
  by (auto intro!: io_basic store_writes split: sum.split)

end



section \<open>Overlap on different discrepancies\<close>

text \<open>What a program does that follows the lifecycle and leaves one discrepancy alone.\<close>

definition leaves :: "env \<Rightarrow> string \<Rightarrow> database \<Rightarrow> database \<Rightarrow> bool" where
  "leaves E i d d' \<longleftrightarrow> ledger_steps E d d' \<and>
     filter (\<lambda>r. d_id r = i) (discrepancies d') = filter (\<lambda>r. d_id r = i) (discrepancies d)"

lemma tables_after: "state_io_rel (db_rel R) m \<Longrightarrow> run_state m w = (x, w') \<Longrightarrow> R (db w) (db w')"
  by (drule (1) state_io_relD) (simp add: db_rel_def)

lemma leaves_in: "leaves E i d d' \<Longrightarrow> r \<in> set (discrepancies d) \<Longrightarrow> d_id r = i \<Longrightarrow> r \<in> set (discrepancies d')"
proof -
  assume "leaves E i d d'" "r \<in> set (discrepancies d)" "d_id r = i"
  then have "r \<in> set (filter (\<lambda>r. d_id r = i) (discrepancies d'))" by (simp add: leaves_def)
  then show ?thesis by simp
qed

lemma after_read_seq: "state_io_rel (db_rel seq_grows) (after_read E c tid i s res ty actor payload got)"
  unfolding after_read_def UpdateStatusWith_def rows_or_not_found_def NewLedgerEvent_def AppendWith_def
  by (auto intro!: sequence.io_basic sequence.io_pg simp: insert_event_grows update_discrepancies_grows split: sum.split)

lemma interrupted_transition_steps:
  assumes codec: "uuid_codec E" and target: "event_target ty = Some s" and closed: "terminal s \<longleftrightarrow> res \<noteq> None"
    and other: "state_io_rel (db_rel (leaves E (uuid_text E i))) other"
  shows "state_io_rel (db_rel (ledger_steps E)) (interrupted_transition E tid i s res ty actor payload other)"
proof (rule db_relI)
  fix w out w'
  assume run: "run_state (interrupted_transition E tid i s res ty actor payload other) w = (out, w')"
  obtain begun w1 where b: "run_state (tx_begin E) w = (begun, w1)" by fastforce
  then have w1: "db w1 = db w" unfolding tx_begin_def by (rule run_query_db)
  show "ledger_steps E (db w) (db w')"
  proof (cases begun)
    case (Inl e)
    with run b w1 show ?thesis by (simp add: interrupted_transition_def)
  next
    case (Inr p)
    obtain tx snap where p: "p = (tx, snap)" by fastforce
    obtain got w2 where g: "run_state (GetByIDWith E tx tid i) w1 = (got, w2)" by fastforce
    then have w2: "db w2 = db w" using GetByIDWith_reads [of E tx tid i w1] w1 by simp
    obtain w3 where o: "run_state other w2 = ((), w3)" by (metis old.unit.exhaust surj_pair)
    then have left: "leaves E (uuid_text E i) (db w) (db w3)"
      using tables_after [OF other] w2 by metis
    obtain ended w4 where a: "run_state (after_read E tx tid i s res ty actor payload got) w3 = (ended, w4)" by fastforce
    have grow: "event_seq (db w3) \<le> event_seq (db w4)"
      using sequence.lifted.io_run [OF after_read_seq a] by (simp add: db_rel_def seq_grows_def)
    then have drawn: "ledger_steps E (db w3) ((db w3)\<lparr>event_seq := event_seq (db w4)\<rparr>)"
      by (rule one_step [OF ledger_step.draw])
    have "ledger_steps E (db w3) (db w')"
    proof (cases ended)
      case (Inl e)
      then have "db w' = (db w3)\<lparr>event_seq := event_seq (db w4)\<rparr>"
        using run b Inr p g o a by (auto simp: interrupted_transition_def State_Monad.get_def)
      with drawn show ?thesis by simp
    next
      case fin: (Inr q)
      obtain x ev where q: "q = (x, ev)" by fastforce
      obtain r where r: "got = Inr r" using a fin by (cases got) (auto simp: after_read_def)
      have row: "r \<in> set (discrepancies (db w))" "is_row E tid i r"
        using GetByIDWith_Inr [OF g [unfolded r]] w1 by auto
      have "r \<in> set (discrepancies (db w3))"
        by (rule leaves_in [OF left row(1)]) (use row(2) in \<open>simp add: is_row_def\<close>)
      moreover obtain now where "ValidTransition (d_status r) s"
        and "\<And>y. y \<in> set (discrepancies (db w3)) \<Longrightarrow> is_row E tid i y \<Longrightarrow> discrepancy_check (set_status s res now y)"
        and "e_discrepancy_id ev = uuid_text E i" "e_tenant_id ev = uuid_text E tid" "e_event_type ev = ty"
        and "e_sequence_num ev = event_seq (db w3)"
        and w4: "db w4 = transitioned E tid i s res now ev (db w3)"
        by (rule after_read_Inr [OF codec a [unfolded r fin q]]) blast
      ultimately have "ledger_step E (db w3) (db w4)"
        unfolding w4 by (intro ledger_step.transition [OF _ row(2)]) (use target closed in simp_all)
      moreover have "db w' = db w4 \<or> db w' = (db w3)\<lparr>event_seq := event_seq (db w4)\<rparr>"
        using run b Inr p g o a
        by (auto simp: interrupted_transition_def State_Monad.get_def tx_commit_def run_pg query_def split: sum.splits if_splits)
      ultimately show ?thesis using drawn by (auto intro: one_step)
    qed
    with left show ?thesis by (auto simp: leaves_def)
  qed
qed

text \<open>A transition of another discrepancy is such a program.\<close>

lemma executeTransition_leaves:
  assumes "uuid_codec E" and "event_target ty = Some s" and "terminal s \<longleftrightarrow> res \<noteq> None" and "i \<noteq> j"
  shows "state_io_rel (db_rel (leaves E (uuid_text E i))) (executeTransition E tid j s res ty actor payload)"
proof (rule db_relI)
  fix w out w'
  assume run: "run_state (executeTransition E tid j s res ty actor payload) w = (out, w')"
  have "filter (\<lambda>r. d_id r = uuid_text E i) (discrepancies (db w')) =
      filter (\<lambda>r. d_id r = uuid_text E i) (discrepancies (db w))"
    using assms(1) run
  proof (cases rule: executeTransition_cases)
    case (moved r now x ev)
    have "(if is_row E tid j y then set_status s res now y else y) = y" if "d_id y = uuid_text E i" for y
      using that assms(1,4) by (auto simp: is_row_def uuid_text_inj)
    moreover have "d_id (if is_row E tid j y then set_status s res now y else y) = d_id y" for y
      by (simp add: set_status_def)
    ultimately show ?thesis
      unfolding moved(14) transitioned_def
      by (simp add: updated_def filter_map comp_def) (rule map_idI, simp)
  qed simp
  moreover have "ledger_steps E (db w) (db w')"
    by (rule tables_after [OF executeTransition_steps [OF assms(1-3)] run])
  ultimately show "leaves E (uuid_text E i) (db w) (db w')" by (simp add: leaves_def)
qed

text \<open>
  C6 (refinement). Transitions of different discrepancies may overlap: one that runs between the read and the update of the other is,
  together with it, still a sequence of steps of the abstract ledger, so every status stays what the log replays to. Only an overlap on
  the same discrepancy can break this.
\<close>

theorem overlap_apart:
  assumes "uuid_codec E" and "i \<noteq> j" and "event_target ty = Some s" and "terminal s \<longleftrightarrow> res \<noteq> None"
    and "event_target ty' = Some s'" and "terminal s' \<longleftrightarrow> res' \<noteq> None"
    and run: "run_state (interrupted_transition E tid i s res ty actor payload
        (do { _ \<leftarrow> executeTransition E tid' j s' res' ty' actor' payload'; ret () })) w = (out, w')"
  shows "ledger_steps E (db w) (db w') \<and> (sound E (db w) \<longrightarrow> sound E (db w'))"
proof -
  have "state_io_rel (db_rel (leaves E (uuid_text E i)))
      (do { _ \<leftarrow> executeTransition E tid' j s' res' ty' actor' payload'; ret () })"
    using executeTransition_leaves [OF assms(1,5,6,2)] by (auto simp: state_io_rel_def split_beta split: prod.splits)
  from tables_after [OF interrupted_transition_steps [OF assms(1,3,4) this] run]
  have "ledger_steps E (db w) (db w')" .
  then show ?thesis using steps_inv by blast
qed

definition twin_world :: world where
  "twin_world = sample_world (sample_db [sample_row StatusOpen None,
     (sample_row StatusOpen None)\<lparr>d_id := text_of_uuid 8, d_external_id := ''ext-2''\<rparr>] [])"

definition twin_run :: "(discrepancy \<times> ledger_event) result \<times> world" where
  "twin_run = run_state (interrupted_transition calm 5 7 StatusAcknowledged None EventAcknowledged ''alice'' None
     (do { _ \<leftarrow> executeTransition calm 5 8 StatusAcknowledged None EventAcknowledged ''bob'' None; ret () })) twin_world"

theorem overlap_apart_witness:
  "ledger_steps calm (db twin_world) (db (snd twin_run)) \<and>
   map e_actor (ledger_events (db (snd twin_run))) = [''bob'', ''alice''] \<and>
   map d_status (discrepancies (db (snd twin_run))) = [StatusAcknowledged, StatusAcknowledged]"
proof -
  have event: "event_target EventAcknowledged = Some StatusAcknowledged" "\<not> terminal StatusAcknowledged" by code_simp+
  have "map e_actor (ledger_events (db (snd twin_run))) = [''bob'', ''alice''] \<and>
      map d_status (discrepancies (db (snd twin_run))) = [StatusAcknowledged, StatusAcknowledged]"
    by code_simp
  moreover obtain out w' where "twin_run = (out, w')" by fastforce
  then have "ledger_steps calm (db twin_world) (db (snd twin_run))"
    using overlap_apart [of calm 7 8 EventAcknowledged StatusAcknowledged None EventAcknowledged StatusAcknowledged None 5
        "''alice''" None 5 "''bob''" None twin_world out w'] event
    by (simp add: twin_run_def)
  ultimately show ?thesis by blast
qed

end
