(* ===== verification/Generator.thy ===== *)
theory Generator
  imports Ingestion
begin

text \<open>
  \<open>scripts/generate_test_events.go\<close>: the command that publishes random events for development. What it
  publishes is what the consumer of \<open>Ingestion\<close> accepts. The random numbers, the clock, the identifiers and the
  rounding of \<open>float64\<close> are the record \<open>gen_env\<close>, a function of the number of the call.
\<close>

section \<open>The outside\<close>

text \<open>
  \<open>Intn\<close>, \<open>Float64\<close>: the two methods of \<open>rand.Rand\<close>; \<open>uuid_New\<close>: the text of a new UUID; \<open>rfc3339_utc\<close>: the format of
  \<open>Timestamp\<close>; \<open>fl\<close>: the \<open>float64\<close> nearest to a number. The tokens of the JSON are not modelled, so the strings are valid UTF-8.
\<close>

record gen_env =
  Intn :: "nat \<Rightarrow> nat \<Rightarrow> nat"
  Float64 :: "nat \<Rightarrow> rat"
  time_now :: "nat \<Rightarrow> gotime"
  uuid_New :: "nat \<Rightarrow> string"
  rfc3339_utc :: "gotime \<Rightarrow> string"
  fl :: "rat \<Rightarrow> rat"

text \<open>Documented: the ranges of the random numbers, and the 36 ASCII characters of a UUID.\<close>

definition draws_ok :: "gen_env \<Rightarrow> bool" where
  "draws_ok G \<longleftrightarrow> (\<forall>t n. 0 < n \<longrightarrow> Intn G t n < n) \<and> (\<forall>t. 0 \<le> Float64 G t \<and> Float64 G t < 1) \<and>
     (\<forall>t. length (uuid_New G t) = 36 \<and> text_ok (uuid_New G t)) \<and> (\<forall>t. rfc3339_utc G t \<noteq> [])"

text \<open>IEEE 754: rounding is monotone and leaves integers up to 2\<open>^\<close>53 alone.\<close>

definition floats_ok :: "gen_env \<Rightarrow> bool" where
  "floats_ok G \<longleftrightarrow> (\<forall>x y. x \<le> y \<longrightarrow> fl G x \<le> fl G y) \<and> (\<forall>n. \<bar>n\<bar> \<le> 2 ^ 53 \<longrightarrow> fl G (of_int n) = of_int n)"

text \<open>The number of the next call of the outside.\<close>

definition call :: "(nat \<Rightarrow> 'a) \<Rightarrow> (nat, 'a) state" where
  "call f = State (\<lambda>t. (f t, Suc t))"

section \<open>The events\<close>

record testPayload =
  tp_ExternalID :: string
  tp_SourceSystem :: string
  tp_DiscrepancyType :: string
  tp_Severity :: string
  tp_Title :: string
  tp_Description :: string
  tp_AmountExpected :: rat
  tp_AmountActual :: rat
  tp_Currency :: string
  tp_Metadata :: "(string \<times> json) list"

record testEvent =
  te_EventType :: string
  te_Source :: string
  te_TenantID :: string
  te_Timestamp :: string
  te_Payload :: testPayload

definition discrepancyTypes :: "string list" where
  "discrepancyTypes = [''missing'', ''mismatch'', ''duplicate'', ''timing'']"

definition sourceSystems :: "string list" where
  "sourceSystems = [''stripe-reconciler'', ''paypal-reconciler'', ''bank-statement-parser'', ''internal-ledger'']"

definition currencies :: "string list" where
  "currencies = [''USD'', ''EUR'', ''GBP'']"

definition deriveSeverity :: "rat \<Rightarrow> string" where
  "deriveSeverity amount =
     (if amount < 100 then ''low'' else if amount < 1000 then ''medium'' else if amount < 10000 then ''high'' else ''critical'')"

definition absDiff :: "gen_env \<Rightarrow> rat \<Rightarrow> rat \<Rightarrow> rat" where
  "absDiff G a b = (let d = fl G (a - b) in if d < 0 then - d else d)"

text \<open>\<open>int(f*100)\<close> truncates towards zero.\<close>

definition truncate0 :: "rat \<Rightarrow> int" where
  "truncate0 x = (if x < 0 then - \<lfloor>- x\<rfloor> else \<lfloor>x\<rfloor>)"

definition roundTo2 :: "gen_env \<Rightarrow> rat \<Rightarrow> rat" where
  "roundTo2 G f = fl G (fl G (of_int (truncate0 (fl G (f * 100)))) / 100)"

definition generateEvent :: "gen_env \<Rightarrow> string \<Rightarrow> nat \<Rightarrow> (nat, testEvent) state" where
  "generateEvent G tenantID index = do {
     i \<leftarrow> call (\<lambda>t. Intn G t (length discrepancyTypes));
     j \<leftarrow> call (\<lambda>t. Intn G t (length sourceSystems));
     k \<leftarrow> call (\<lambda>t. Intn G t (length currencies));
     let discType = discrepancyTypes ! i;
     let source = sourceSystems ! j;
     let currency = currencies ! k;
     x \<leftarrow> call (Float64 G);
     let expected = roundTo2 G (fl G (x * 50000));
     y \<leftarrow> call (Float64 G);
     let diff = roundTo2 G (fl G (fl G (y * expected) * fl G (3 / 10)));
     coin \<leftarrow> call (\<lambda>t. Intn G t 2);
     let actual = (if coin = 0 then roundTo2 G (fl G (expected + diff)) else roundTo2 G (fl G (expected - diff)));
     let severity = deriveSeverity (absDiff G expected actual);
     stamp \<leftarrow> call (time_now G);
     new \<leftarrow> call (uuid_New G);
     now \<leftarrow> call (time_now G);
     ret \<lparr>te_EventType = ''discrepancy.detected'', te_Source = ''test-event-generator'', te_TenantID = tenantID,
       te_Timestamp = rfc3339_utc G stamp,
       te_Payload = \<lparr>
         tp_ExternalID = ''test-'' @ take 8 new @ ''-'' @ show_nat index,
         tp_SourceSystem = source, tp_DiscrepancyType = discType, tp_Severity = severity,
         tp_Title = ''Test '' @ discType @ '' from '' @ source,
         tp_Description = ''Auto-generated test event #'' @ show_nat index,
         tp_AmountExpected = expected, tp_AmountActual = actual, tp_Currency = currency,
         tp_Metadata = [(''generated_by'', JStr ''test-event-generator''),
           (''index'', JNum (Some (int index)) (Some (fl G (of_nat index)))),
           (''timestamp'', JNum (Some (now div 10 ^ 9)) (Some (fl G (of_int (now div 10 ^ 9)))))]\<rparr>\<rparr>
   }"

text \<open>
  \<open>json.Marshal\<close>: the fields under the names of their tags, a float as the shortest number that is read back as the same
  \<open>float64\<close>, which is an integer literal when it is one.
\<close>

definition json_float :: "rat \<Rightarrow> json" where
  "json_float x = JNum (if of_int \<lfloor>x\<rfloor> = x \<and> \<bar>x\<bar> < 2 ^ 63 then Some \<lfloor>x\<rfloor> else None) (Some x)"

definition json_Marshal :: "testEvent \<Rightarrow> json" where
  "json_Marshal ev = (let p = te_Payload ev in JObj
     [(''event_type'', JStr (te_EventType ev)), (''source'', JStr (te_Source ev)), (''tenant_id'', JStr (te_TenantID ev)),
      (''timestamp'', JStr (te_Timestamp ev)),
      (''payload'', JObj
        [(''external_id'', JStr (tp_ExternalID p)), (''source_system'', JStr (tp_SourceSystem p)),
         (''discrepancy_type'', JStr (tp_DiscrepancyType p)), (''severity'', JStr (tp_Severity p)),
         (''title'', JStr (tp_Title p)), (''description'', JStr (tp_Description p)),
         (''amount_expected'', json_float (tp_AmountExpected p)), (''amount_actual'', json_float (tp_AmountActual p)),
         (''currency'', JStr (tp_Currency p)), (''metadata'', JObj (tp_Metadata p))])])"

section \<open>The command\<close>

text \<open>
  The arguments are the flags; \<open>connect\<close> and \<open>stream\<close> say whether NATS and JetStream answer, \<open>publish\<close> whether the \<open>i\<close>-th
  publication does. The result is the exit status and the events that were published; a failing one is reported and the loop goes on.
\<close>

fun publish_all :: "gen_env \<Rightarrow> (nat \<Rightarrow> bool) \<Rightarrow> string \<Rightarrow> nat \<Rightarrow> nat \<Rightarrow> (nat, json list) state" where
  "publish_all G publish tenantID i 0 = ret []"
| "publish_all G publish tenantID i (Suc n) = do {
     event \<leftarrow> generateEvent G tenantID i;
     rest \<leftarrow> publish_all G publish tenantID (Suc i) n;
     ret (if publish i then json_Marshal event # rest else rest)
   }"

definition generator_main ::
  "env \<Rightarrow> gen_env \<Rightarrow> bool \<Rightarrow> bool \<Rightarrow> (nat \<Rightarrow> bool) \<Rightarrow> string \<Rightarrow> int \<Rightarrow> nat \<Rightarrow> nat \<times> json list" where
  "generator_main E G connect stream publish tenantID events t =
     (if tenantID = [] then (1, [])
      else if uuid_parse E tenantID = None then (1, [])
      else if \<not> connect then (1, [])
      else if \<not> stream then (1, [])
      else (0, fst (run_state (publish_all G publish tenantID 0 (nat events)) t)))"

section \<open>The consumer reads what the generator wrote\<close>

text \<open>The envelope the consumer should see.\<close>

definition envelope_of :: "testEvent \<Rightarrow> ingestEnvelope" where
  "envelope_of ev = (let p = te_Payload ev in
     \<lparr>EventType = te_EventType ev, Source = te_Source ev, TenantID = te_TenantID ev, Timestamp = te_Timestamp ev,
      Payload = \<lparr>ExternalID = tp_ExternalID p, SourceSystem = tp_SourceSystem p, DiscrepancyType = tp_DiscrepancyType p,
        Severity = tp_Severity p, Title = tp_Title p, Description = tp_Description p,
        AmountExpected = Some (tp_AmountExpected p), AmountActual = Some (tp_AmountActual p), Currency = tp_Currency p,
        Metadata = Some (rev (tp_Metadata p))\<rparr>\<rparr>)"

text \<open>None of the names of the fields folds to another one.\<close>

lemma field_names:
  "distinct (map fold_name [''event_type'', ''source'', ''tenant_id'', ''timestamp'', ''payload''])"
  "distinct (map fold_name [''external_id'', ''source_system'', ''discrepancy_type'', ''severity'', ''title'', ''description'',
     ''amount_expected'', ''amount_actual'', ''currency'', ''metadata''])"
  by code_simp+

text \<open>Decoding the field at position \<open>i\<close> of an object whose keys do not fold together.\<close>

lemma dec_field_other: "fold_name name \<notin> set (map fold_name ns) \<Longrightarrow> dec_field f name acc (zip ns vs) = Some acc"
  by (induction ns arbitrary: vs) (auto simp: key_matches_def zip_Cons1 split: list.split)

lemma dec_field_nth:
  "distinct (map fold_name ns) \<Longrightarrow> length vs = length ns \<Longrightarrow> i < length ns \<Longrightarrow>
     dec_field f (ns ! i) acc (zip ns vs) = f (vs ! i) acc"
proof (induction ns arbitrary: vs i)
  case (Cons n ns)
  then obtain v vs' where vs: "vs = v # vs'" by (cases vs) auto
  show ?case
  proof (cases i)
    case 0
    with Cons.prems vs show ?thesis by (simp add: key_matches_def dec_field_other split: option.split)
  next
    case (Suc j)
    then have "ns ! j \<in> set ns" using Cons.prems by simp
    then have "fold_name n \<noteq> fold_name (ns ! j)" using Cons.prems by auto
    with Suc Cons vs show ?thesis by (simp add: key_matches_def)
  qed
qed simp

declare dec_field.simps [simp del]

lemma as_float_json [simp]: "as_float_ptr (json_float x) acc = Some (Some x)"
  by (simp add: json_float_def)

lemma decoded: "dec_envelope (json_Marshal ev) = Some (envelope_of ev)"
proof -
  let ?p = "te_Payload ev"
  let ?vs = "[JStr (tp_ExternalID ?p), JStr (tp_SourceSystem ?p), JStr (tp_DiscrepancyType ?p), JStr (tp_Severity ?p),
    JStr (tp_Title ?p), JStr (tp_Description ?p), json_float (tp_AmountExpected ?p), json_float (tp_AmountActual ?p),
    JStr (tp_Currency ?p), JObj (tp_Metadata ?p)]"
  note field = dec_field_nth [OF field_names(2), of ?vs]
  have "as_payload (JObj (zip [''external_id'', ''source_system'', ''discrepancy_type'', ''severity'', ''title'', ''description'',
     ''amount_expected'', ''amount_actual'', ''currency'', ''metadata''] ?vs)) zero_payload = Some (Payload (envelope_of ev))"
    by (simp add: as_payload_def dec_payload_def envelope_of_def Let_def zero_payload_def
        field [of 0, simplified] field [of 1, simplified] field [of 2, simplified] field [of 3, simplified] field [of 4, simplified]
        field [of 5, simplified] field [of 6, simplified] field [of 7, simplified] field [of 8, simplified] field [of 9, simplified])
  note payload = this
  let ?us = "[JStr (te_EventType ev), JStr (te_Source ev), JStr (te_TenantID ev), JStr (te_Timestamp ev),
    JObj (zip [''external_id'', ''source_system'', ''discrepancy_type'', ''severity'', ''title'', ''description'',
     ''amount_expected'', ''amount_actual'', ''currency'', ''metadata''] ?vs)]"
  note field = dec_field_nth [OF field_names(1), of ?us]
  show ?thesis
    using payload
    by (simp add: dec_envelope_def json_Marshal_def envelope_of_def Let_def field [of 0, simplified] field [of 1, simplified]
        field [of 2, simplified] field [of 3, simplified] field [of 4, simplified])
qed

section \<open>The amounts\<close>

lemma truncate0_bounds: "of_int m \<le> x \<Longrightarrow> x \<le> of_int n \<Longrightarrow> m \<le> truncate0 x \<and> truncate0 x \<le> n"
  unfolding truncate0_def by (simp, linarith)

lemma fl_bounds:
  assumes "floats_ok G" and "\<bar>m\<bar> \<le> 2 ^ 53" and "\<bar>n\<bar> \<le> 2 ^ 53" and "of_int m \<le> x" and "x \<le> of_int n"
  shows "of_int m \<le> fl G x \<and> fl G x \<le> of_int n"
  using assms unfolding floats_ok_def by metis

lemma roundTo2_bounds:
  assumes fl: "floats_ok G" and "\<bar>m\<bar> \<le> 2 ^ 46" and "\<bar>n\<bar> \<le> 2 ^ 46" and "of_int m \<le> f" and "f \<le> of_int n"
  shows "of_int m \<le> roundTo2 G f \<and> roundTo2 G f \<le> of_int n"
proof -
  have "of_int (100 * m) \<le> fl G (f * 100) \<and> fl G (f * 100) \<le> of_int (100 * n)"
    by (rule fl_bounds [OF fl]) (use assms in auto)
  then have t: "100 * m \<le> truncate0 (fl G (f * 100)) \<and> truncate0 (fl G (f * 100)) \<le> 100 * n"
    using truncate0_bounds by blast
  then have "of_int (100 * m) \<le> fl G (of_int (truncate0 (fl G (f * 100)))) \<and>
      fl G (of_int (truncate0 (fl G (f * 100)))) \<le> of_int (100 * n)"
    by (intro fl_bounds [OF fl]) (use assms in \<open>auto simp del: of_int_mult of_int_numeral\<close>)
  then show ?thesis
    unfolding roundTo2_def by (intro fl_bounds [OF fl]) (use assms in auto)
qed

lemma generated_amounts:
  assumes draws: "draws_ok G" and fl: "floats_ok G" and run: "run_state (generateEvent G tenantID index) t = (ev, t')"
  shows "0 \<le> tp_AmountExpected (te_Payload ev) \<and> tp_AmountExpected (te_Payload ev) \<le> 50000 \<and>
    - 50000 \<le> tp_AmountActual (te_Payload ev) \<and> tp_AmountActual (te_Payload ev) \<le> 100000"
proof -
  let ?x = "Float64 G (t + 3)" and ?y = "Float64 G (t + 4)"
  have u: "0 \<le> ?x" "?x < 1" "0 \<le> ?y" "?y < 1" using draws by (simp_all add: draws_ok_def)
  note round = roundTo2_bounds [OF fl] fl_bounds [OF fl]
  define e where "e = roundTo2 G (fl G (?x * 50000))"
  have e: "0 \<le> e" "e \<le> 50000"
    using round(1) [of 0 50000 "fl G (?x * 50000)"] round(2) [of 0 50000 "?x * 50000"] u by (simp_all add: e_def)
  have third: "0 \<le> fl G (3 / 10)" "fl G (3 / 10) \<le> 1" using round(2) [of 0 1 "3 / 10"] by simp_all
  have part: "0 \<le> fl G (?y * e)" "fl G (?y * e) \<le> 50000"
    using round(2) [of 0 50000 "?y * e"] u e mult_mono [of ?y 1 e 50000] by simp_all
  define d where "d = roundTo2 G (fl G (fl G (?y * e) * fl G (3 / 10)))"
  have d: "0 \<le> d" "d \<le> 50000"
    using round(1) [of 0 50000 "fl G (fl G (?y * e) * fl G (3 / 10))"] round(2) [of 0 50000 "fl G (?y * e) * fl G (3 / 10)"]
      part third mult_mono [of "fl G (?y * e)" 50000 "fl G (3 / 10)" 1] by (simp_all add: d_def)
  have up: "- 50000 \<le> roundTo2 G (fl G (e + d))" "roundTo2 G (fl G (e + d)) \<le> 100000"
    using round(1) [of "- 50000" 100000 "fl G (e + d)"] round(2) [of "- 50000" 100000 "e + d"] e d by simp_all
  have down: "- 50000 \<le> roundTo2 G (fl G (e - d))" "roundTo2 G (fl G (e - d)) \<le> 100000"
    using round(1) [of "- 50000" 100000 "fl G (e - d)"] round(2) [of "- 50000" 100000 "e - d"] e d by simp_all
  have "tp_AmountExpected (te_Payload ev) = e"
    "tp_AmountActual (te_Payload ev) = (if Intn G (t + 5) 2 = 0 then roundTo2 G (fl G (e + d)) else roundTo2 G (fl G (e - d)))"
    using run by (auto simp: generateEvent_def call_def Let_def e_def d_def eval_nat_numeral)
  with e up down show ?thesis by simp
qed

section \<open>The texts\<close>

lemma length_show_nat: "n < 10 ^ Suc k \<Longrightarrow> length (show_nat n) \<le> Suc k"
proof (induction k arbitrary: n)
  case 0
  then show ?case by (simp add: show_nat.simps)
next
  case (Suc k)
  show ?case
  proof (cases "n < 10")
    case False
    have "n div 10 < 10 ^ Suc k" using Suc.prems by (simp add: less_mult_imp_div_less)
    with Suc.IH False show ?thesis by (subst show_nat.simps) simp
  qed (simp add: show_nat.simps)
qed

lemma text_ok_show_nat: "text_ok (show_nat n)"
proof -
  have "\<not> is_digit CHR 0x00" by code_simp
  then show ?thesis using show_nat_digits [of n] by (auto simp: text_ok_def list_all_iff)
qed

lemma varcharI: "text_ok s \<Longrightarrow> length s \<le> n \<Longrightarrow> varchar n s"
  using char_count_le_length [of s] by (simp add: varchar_def)

section \<open>What is published is accepted\<close>

text \<open>A payload that passes the validation of the consumer and the constraints of the table.\<close>

definition storable :: "env \<Rightarrow> ingestEnvelope \<Rightarrow> bool" where
  "storable E env \<longleftrightarrow> envelope_validate env = None \<and> payload_validate (Payload env) = None \<and>
     discrepancy_check (new_discrepancy (Payload env)) \<and>
     decimal_ptr E (AmountExpected (Payload env)) \<noteq> None \<and> decimal_ptr E (AmountActual (Payload env)) \<noteq> None"

lemma deriveSeverity_cases: "deriveSeverity x \<in> {''low'', ''medium'', ''high'', ''critical''}"
  by (simp add: deriveSeverity_def)

text \<open>The texts of an event, from the choices it was made of.\<close>

lemma generated_texts:
  assumes "draws_ok G" and "run_state (generateEvent G tenantID index) t = (ev, t')"
  obtains ty src cur new sev stamp now n where "ty \<in> set discrepancyTypes" and "src \<in> set sourceSystems"
    and "cur \<in> set currencies" and "length new = 36" and "text_ok new" and "stamp \<noteq> []"
    and "sev \<in> {''low'', ''medium'', ''high'', ''critical''}"
    and "envelope_of ev = \<lparr>EventType = ''discrepancy.detected'', Source = ''test-event-generator'', TenantID = tenantID,
      Timestamp = stamp, Payload = \<lparr>ExternalID = ''test-'' @ take 8 new @ ''-'' @ show_nat index, SourceSystem = src,
        DiscrepancyType = ty, Severity = sev, Title = ''Test '' @ ty @ '' from '' @ src,
        Description = ''Auto-generated test event #'' @ show_nat index,
        AmountExpected = Some (tp_AmountExpected (te_Payload ev)), AmountActual = Some (tp_AmountActual (te_Payload ev)),
        Currency = cur, Metadata = Some [(''timestamp'', now), (''index'', n), (''generated_by'', JStr ''test-event-generator'')]\<rparr>\<rparr>"
    and "json_ok now" and "json_ok n"
proof -
  have pick: "xs ! Intn G i (length xs) \<in> set xs" if "xs \<noteq> []" for i and xs :: "string list"
    using assms(1) that by (simp add: draws_ok_def)
  have "discrepancyTypes \<noteq> []" "sourceSystems \<noteq> []" "currencies \<noteq> []"
    by (simp_all add: discrepancyTypes_def sourceSystems_def currencies_def)
  note picks = this [THEN pick]
  have new: "length (uuid_New G i) = 36" "text_ok (uuid_New G i)" "rfc3339_utc G x \<noteq> []" for i x
    using assms(1) by (simp_all add: draws_ok_def)
  show thesis
    using assms(2)
    by (intro that [OF picks(1) [of t] picks(2) [of "Suc t"] picks(3) [of "Suc (Suc t)"] new(1) new(2) new(3) deriveSeverity_cases])
       (auto simp: generateEvent_def call_def Let_def envelope_of_def)
qed

lemma generated_storable:
  assumes draws: "draws_ok G" and fl: "floats_ok G" and run: "run_state (generateEvent G tenantID index) t = (ev, t')"
    and "tenantID \<noteq> []" and index: "index < 10 ^ 19" and column: "\<And>x. \<bar>x\<bar> \<le> 10 ^ 12 \<Longrightarrow> decimal_col E x \<noteq> None"
  shows "storable E (envelope_of ev)"
proof -
  obtain ty src cur new sev stamp now n where c: "ty \<in> set discrepancyTypes" "src \<in> set sourceSystems"
    "cur \<in> set currencies" "length new = 36" "text_ok new" "stamp \<noteq> []" "sev \<in> {''low'', ''medium'', ''high'', ''critical''}"
    and env: "envelope_of ev = \<lparr>EventType = ''discrepancy.detected'', Source = ''test-event-generator'', TenantID = tenantID,
      Timestamp = stamp, Payload = \<lparr>ExternalID = ''test-'' @ take 8 new @ ''-'' @ show_nat index, SourceSystem = src,
        DiscrepancyType = ty, Severity = sev, Title = ''Test '' @ ty @ '' from '' @ src,
        Description = ''Auto-generated test event #'' @ show_nat index,
        AmountExpected = Some (tp_AmountExpected (te_Payload ev)), AmountActual = Some (tp_AmountActual (te_Payload ev)),
        Currency = cur, Metadata = Some [(''timestamp'', now), (''index'', n), (''generated_by'', JStr ''test-event-generator'')]\<rparr>\<rparr>"
    and meta: "json_ok now" "json_ok n"
    using generated_texts [OF draws run] by metis
  have "length (show_nat index) \<le> 19" using length_show_nat [of index 18] index by simp
  then have ext: "varchar 255 (''test-'' @ take 8 new @ ''-'' @ show_nat index)"
    using c(5) text_ok_show_nat [of index] by (intro varcharI) (auto simp: text_ok_def dest: in_set_takeD)
  have ty: "ty \<noteq> []" "varchar 500 (''Test '' @ ty @ '' from '' @ src)" "varchar 255 src"
    "one_of [''missing'', ''mismatch'', ''duplicate'', ''timing''] ty" "varchar 3 cur"
    using c(1-3) unfolding discrepancyTypes_def sourceSystems_def currencies_def
    by (auto simp: one_of_def) (code_simp+)
  have amounts: "decimal_ptr E (Some (tp_AmountExpected (te_Payload ev))) \<noteq> None"
    "decimal_ptr E (Some (tp_AmountActual (te_Payload ev))) \<noteq> None"
    using generated_amounts [OF draws fl run] column by (auto simp: decimal_ptr_def)
  have "discrepancy_check (new_discrepancy (Payload (envelope_of ev)))"
    using ext ty c(7) meta text_ok_show_nat [of index]
    by (simp add: env discrepancy_check_def new_discrepancy_def one_of_def go_consts jsonb_ok_def text_ok_def)
  then show ?thesis
    using amounts ty(1) c assms(4) by (auto simp: storable_def env envelope_validate_def payload_validate_def)
qed

text \<open>
  C36 (functional). The generator refuses a tenant that is not a UUID, and everything it publishes is a message the consumer can store: it
  decodes to an envelope of that tenant which passes both validations, satisfies the checks of the
  table, and has amounts that fit its columns.
\<close>

theorem generator_publishes_valid:
  assumes "draws_ok G" and "floats_ok G" and "events < 2 ^ 63" and "\<And>x. \<bar>x\<bar> \<le> 10 ^ 12 \<Longrightarrow> decimal_col E x \<noteq> None"
    and main: "generator_main E G connect stream publish tenantID events t = (status, js)"
  shows "(status = 0 \<longrightarrow> uuid_parse E tenantID \<noteq> None) \<and> (status \<noteq> 0 \<longrightarrow> js = []) \<and> length js \<le> nat events \<and>
    (\<forall>j\<in>set js. \<exists>env. dec_envelope j = Some env \<and> TenantID env = tenantID \<and> storable E env)"
proof -
  have all: "length (fst (run_state (publish_all G publish tenantID i n) t)) \<le> n \<and>
      (\<forall>j\<in>set (fst (run_state (publish_all G publish tenantID i n) t)).
        \<exists>env. dec_envelope j = Some env \<and> TenantID env = tenantID \<and> storable E env)"
    if "i + n < 10 ^ 19" "tenantID \<noteq> []" for i n t
    using that
  proof (induction n arbitrary: i t)
    case (Suc n)
    obtain ev t1 where e: "run_state (generateEvent G tenantID i) t = (ev, t1)" by fastforce
    have "storable E (envelope_of ev)"
      by (rule generated_storable [OF assms(1,2) e _ _ assms(4)]) (use Suc.prems in auto)
    moreover have "TenantID (envelope_of ev) = tenantID"
      using e by (auto simp: envelope_of_def generateEvent_def call_def Let_def)
    ultimately show ?case
      using Suc.IH [of "Suc i" t1] Suc.prems e decoded [of ev] by (simp add: split_beta le_SucI)
  qed simp
  have "0 + nat events < 10 ^ 19" using assms(3) by simp
  from all [OF this] main show ?thesis by (auto simp: generator_main_def split: if_splits)
qed

text \<open>Halves for the random numbers, and no rounding.\<close>

definition sample_gen :: gen_env where
  "sample_gen = \<lparr>Intn = (\<lambda>t n. t mod n), Float64 = (\<lambda>t. 1 / 2), time_now = (\<lambda>t. 0), uuid_New = (\<lambda>t. replicate 36 CHR ''a''),
     rfc3339_utc = (\<lambda>t. ''now''), fl = (\<lambda>x. x)\<rparr>"

theorem generator_publishes_valid_witness:
  "fst (generator_main calm sample_gen True True (\<lambda>i. True) ''5'' 2 0) = 0 \<and>
   list_all (\<lambda>j. dec_envelope j \<noteq> None) (snd (generator_main calm sample_gen True True (\<lambda>i. True) ''5'' 2 0))"
proof -
  have "draws_ok sample_gen" "floats_ok sample_gen"
    by (simp_all add: sample_gen_def draws_ok_def floats_ok_def text_ok_def)
  then show ?thesis
    using generator_publishes_valid [of sample_gen 2 calm True True "\<lambda>i. True" "''5''" 0]
    by (cases "generator_main calm sample_gen True True (\<lambda>i. True) ''5'' 2 0")
       (force simp: list_all_iff generator_main_def)
qed

end
