(* ===== verification/Rows.thy ===== *)
theory Rows
  imports RuleStore ReportStore "HOL-Library.AList"
begin

text \<open>
  Reading rows: \<open>store_helpers.go\<close> and the scan functions of the stores, over the columns the server sends. The other
  theories keep a table as a list of Go structs; the lemmas here show that nothing is lost by that.
\<close>

section \<open>Columns\<close>

text \<open>A value of a column as the driver receives it. A \<open>UUID\<close> is its canonical text;
  \<open>TEXT\<close> counts as \<open>VARCHAR\<close> and \<open>BIGINT\<close> as \<open>INTEGER\<close>.\<close>

datatype sql_value =
    SNull | SUuid string | SText string | SInt int | SNumeric rat | SBool bool | STime gotime | SJsonb json

datatype sql_type = UUID | VARCHAR | INTEGER | DECIMAL | BOOLEAN | TIMESTAMPTZ | JSONB

fun of_type :: "sql_type \<Rightarrow> sql_value \<Rightarrow> bool" where
  "of_type UUID (SUuid u) = True"
| "of_type VARCHAR (SText s) = True"
| "of_type INTEGER (SInt i) = True"
| "of_type DECIMAL (SNumeric x) = True"
| "of_type BOOLEAN (SBool b) = True"
| "of_type TIMESTAMPTZ (STime t) = True"
| "of_type JSONB (SJsonb j) = True"
| "of_type _ v = False"

text \<open>The columns of the migrations in the order the statements name them; true means \<open>NOT NULL\<close>.\<close>

type_synonym sql_column = "sql_type \<times> bool"

definition discrepancy_table :: "sql_column list" where
  "discrepancy_table =
     [(UUID, True), (UUID, True), (VARCHAR, True), (VARCHAR, True), (VARCHAR, True), (VARCHAR, True), (VARCHAR, True),
      (VARCHAR, True), (VARCHAR, False), (DECIMAL, False), (DECIMAL, False), (VARCHAR, False), (JSONB, True),
      (TIMESTAMPTZ, True), (TIMESTAMPTZ, False), (TIMESTAMPTZ, True), (TIMESTAMPTZ, True)]"

definition rule_table :: "sql_column list" where
  "rule_table =
     [(UUID, True), (UUID, True), (VARCHAR, True), (VARCHAR, True), (INTEGER, True), (VARCHAR, True), (VARCHAR, True),
      (JSONB, True), (BOOLEAN, True), (INTEGER, True), (TIMESTAMPTZ, True), (TIMESTAMPTZ, True)]"

definition report_table :: "sql_column list" where
  "report_table =
     [(UUID, True), (UUID, True), (VARCHAR, True), (VARCHAR, False), (JSONB, True), (VARCHAR, True), (VARCHAR, False),
      (INTEGER, False), (VARCHAR, False), (TIMESTAMPTZ, True), (TIMESTAMPTZ, True)]"

definition notification_table :: "sql_column list" where
  "notification_table =
     [(UUID, True), (UUID, True), (UUID, True), (UUID, False), (VARCHAR, True), (VARCHAR, True), (VARCHAR, True),
      (JSONB, False), (INTEGER, True), (TIMESTAMPTZ, False), (TIMESTAMPTZ, True), (TIMESTAMPTZ, True)]"

definition column_ok :: "sql_column \<Rightarrow> sql_value \<Rightarrow> bool" where
  "column_ok c v \<longleftrightarrow> of_type (fst c) v \<or> v = SNull \<and> \<not> snd c"

section \<open>The driver\<close>

text \<open>
  What \<open>Scan\<close> of pgx stores in a destination of each type, \<open>None\<close> when it reports an error; \<open>scan_msg\<close> is the text of the error.
\<close>

record pgx =
  scan_string :: "sql_value \<Rightarrow> string option"
  scan_int :: "sql_value \<Rightarrow> int option"
  scan_float :: "sql_value \<Rightarrow> rat option"
  scan_bool :: "sql_value \<Rightarrow> bool option"
  scan_time :: "sql_value \<Rightarrow> gotime option"
  scan_bytes :: "sql_value \<Rightarrow> json option option"
  scan_msg :: "sql_value list \<Rightarrow> string"

text \<open>
  Documented: a value of the column's type is stored as it is, \<open>NULL\<close> is refused by a destination that has no nil and
  makes \<open>[]byte\<close> nil. A pointer gets nil for \<open>NULL\<close>, and else points to what its type gets.
\<close>

definition pgx_documented :: "pgx \<Rightarrow> bool" where
  "pgx_documented P \<longleftrightarrow>
     (\<forall>s. scan_string P (SUuid s) = Some s \<and> scan_string P (SText s) = Some s) \<and> (\<forall>i. scan_int P (SInt i) = Some i) \<and>
     (\<forall>x. scan_float P (SNumeric x) = Some x) \<and> (\<forall>b. scan_bool P (SBool b) = Some b) \<and>
     (\<forall>t. scan_time P (STime t) = Some t) \<and> (\<forall>j. scan_bytes P (SJsonb j) = Some (Some j)) \<and>
     scan_string P SNull = None \<and> scan_int P SNull = None \<and> scan_float P SNull = None \<and> scan_bool P SNull = None \<and>
     scan_time P SNull = None \<and> scan_bytes P SNull = Some None"

definition scan_ptr :: "(sql_value \<Rightarrow> 'a option) \<Rightarrow> sql_value \<Rightarrow> 'a option option" where
  "scan_ptr f v = (if v = SNull then Some None else map_option Some (f v))"

text \<open>\<open>s.Scan\<close> with all its destinations: an error of the query, or one of a column.\<close>

definition Scan :: "pgx \<Rightarrow> (sql_value list \<Rightarrow> 'a option) \<Rightarrow> sql_value list result \<Rightarrow> 'a result" where
  "Scan P f s = (case s of Inl e \<Rightarrow> Inl e
     | Inr vs \<Rightarrow> (case f vs of None \<Rightarrow> Inl (ErrText (scan_msg P vs)) | Some x \<Rightarrow> Inr x))"

text \<open>\<open>if b != nil { _ = json.Unmarshal(b, &m) }\<close> with \<open>m\<close> a nil map: an error leaves it nil.\<close>

definition unmarshalled :: "json option \<Rightarrow> jobject" where
  "unmarshalled b = (case b of None \<Rightarrow> None
     | Some j \<Rightarrow> (case as_map j None of None \<Rightarrow> None | Some m \<Rightarrow> m))"

section \<open>The scan functions\<close>

definition discrepancy_dests :: "pgx \<Rightarrow> sql_value list \<Rightarrow> discrepancy option" where
  "discrepancy_dests P vs =
     (case vs of
        [i, tid, ext, src, ty, sev, st, title, desc, expd, act, cur, meta, first_at, res, cre, upd] \<Rightarrow> do {
          i \<leftarrow> scan_string P i;
          tid \<leftarrow> scan_string P tid;
          ext \<leftarrow> scan_string P ext;
          src \<leftarrow> scan_string P src;
          ty \<leftarrow> scan_string P ty;
          sev \<leftarrow> scan_string P sev;
          st \<leftarrow> scan_string P st;
          title \<leftarrow> scan_string P title;
          desc \<leftarrow> scan_ptr (scan_string P) desc;
          expd \<leftarrow> scan_ptr (scan_float P) expd;
          act \<leftarrow> scan_ptr (scan_float P) act;
          cur \<leftarrow> scan_string P cur;
          metadataBytes \<leftarrow> scan_bytes P meta;
          first_at \<leftarrow> scan_time P first_at;
          res \<leftarrow> scan_ptr (scan_time P) res;
          cre \<leftarrow> scan_time P cre;
          upd \<leftarrow> scan_time P upd;
          Some \<lparr>d_id = i, d_tenant_id = tid, d_external_id = ext, d_source_system = src, d_discrepancy_type = ty,
                d_severity = sev, d_status = st, d_title = title, d_description = desc, d_amount_expected = expd,
                d_amount_actual = act, d_currency = cur, d_metadata = unmarshalled metadataBytes,
                d_first_detected_at = first_at, d_resolved_at = res, d_created_at = cre, d_updated_at = upd\<rparr>
        }
      | _ \<Rightarrow> None)"

definition scanDiscrepancyFrom :: "pgx \<Rightarrow> sql_value list result \<Rightarrow> discrepancy result" where
  "scanDiscrepancyFrom P s = Scan P (discrepancy_dests P) s"


definition scanDiscrepancyRow :: "pgx \<Rightarrow> sql_value list result \<Rightarrow> discrepancy result" where
  "scanDiscrepancyRow P rs = scanDiscrepancyFrom P rs"

definition rule_dests :: "pgx \<Rightarrow> sql_value list \<Rightarrow> escalation_rule option" where
  "rule_dests P vs =
     (case vs of
        [i, tid, name, sev, hrs, st, act, config, active, prio, cre, upd] \<Rightarrow> do {
          i \<leftarrow> scan_string P i;
          tid \<leftarrow> scan_string P tid;
          name \<leftarrow> scan_string P name;
          sev \<leftarrow> scan_string P sev;
          hrs \<leftarrow> scan_int P hrs;
          st \<leftarrow> scan_string P st;
          act \<leftarrow> scan_string P act;
          configOut \<leftarrow> scan_bytes P config;
          active \<leftarrow> scan_bool P active;
          prio \<leftarrow> scan_int P prio;
          cre \<leftarrow> scan_time P cre;
          upd \<leftarrow> scan_time P upd;
          Some \<lparr>r_id = i, r_tenant_id = tid, r_name = name, r_severity_match = sev, r_trigger_after_hrs = hrs,
                r_trigger_status = st, r_action = act, r_action_config = unmarshalled configOut, r_is_active = active,
                r_priority = prio, r_created_at = cre, r_updated_at = upd\<rparr>
        }
      | _ \<Rightarrow> None)"

definition scanRule :: "pgx \<Rightarrow> sql_value list result \<Rightarrow> escalation_rule result" where
  "scanRule P s = Scan P (rule_dests P) s"

definition report_dests :: "pgx \<Rightarrow> sql_value list \<Rightarrow> report option" where
  "report_dests P vs =
     (case vs of
        [i, tid, ty, title, params, st, path, sz, by, cre, upd] \<Rightarrow> do {
          i \<leftarrow> scan_string P i;
          tid \<leftarrow> scan_string P tid;
          ty \<leftarrow> scan_string P ty;
          title \<leftarrow> scan_string P title;
          paramsBytes \<leftarrow> scan_bytes P params;
          st \<leftarrow> scan_string P st;
          path \<leftarrow> scan_ptr (scan_string P) path;
          sz \<leftarrow> scan_ptr (scan_int P) sz;
          by \<leftarrow> scan_ptr (scan_string P) by;
          cre \<leftarrow> scan_time P cre;
          upd \<leftarrow> scan_time P upd;
          Some \<lparr>p_id = i, p_tenant_id = tid, p_report_type = ty, p_title = title, p_parameters = unmarshalled paramsBytes,
                p_status = st, p_file_path = path, p_file_size_bytes = sz, p_generated_by = by, p_created_at = cre,
                p_updated_at = upd\<rparr>
        }
      | _ \<Rightarrow> None)"


definition scanReportRow :: "pgx \<Rightarrow> sql_value list result \<Rightarrow> report result" where
  "scanReportRow P rs = Scan P (report_dests P) rs"

definition notification_dests :: "pgx \<Rightarrow> sql_value list \<Rightarrow> notification_log option" where
  "notification_dests P vs =
     (case vs of
        [i, tid, disc, rule, ch, rcpt, st, resp, att, last_at, cre, upd] \<Rightarrow> do {
          i \<leftarrow> scan_string P i;
          tid \<leftarrow> scan_string P tid;
          disc \<leftarrow> scan_string P disc;
          rule \<leftarrow> scan_ptr (scan_string P) rule;
          ch \<leftarrow> scan_string P ch;
          rcpt \<leftarrow> scan_string P rcpt;
          st \<leftarrow> scan_string P st;
          hubRespBytes \<leftarrow> scan_bytes P resp;
          att \<leftarrow> scan_int P att;
          last_at \<leftarrow> scan_ptr (scan_time P) last_at;
          cre \<leftarrow> scan_time P cre;
          upd \<leftarrow> scan_time P upd;
          Some \<lparr>n_id = i, n_tenant_id = tid, n_discrepancy_id = disc, n_escalation_rule_id = rule, n_channel = ch,
                n_recipient = rcpt, n_status = st, n_hub_response = unmarshalled hubRespBytes, n_attempts = att,
                n_last_attempt_at = last_at, n_created_at = cre, n_updated_at = upd\<rparr>
        }
      | _ \<Rightarrow> None)"

text \<open>
  \<open>for rows.Next()\<close>: the rows the server sends, and the error the stream ends with, if any. The first row that does not scan
  ends the loop and drops what was read.
\<close>

type_synonym sql_rows = "sql_value list list \<times> goerr option"

fun scan_rows :: "string \<Rightarrow> string \<Rightarrow> (sql_value list result \<Rightarrow> 'a result) \<Rightarrow> sql_rows \<Rightarrow> 'a list \<Rightarrow> 'a list result" where
  "scan_rows scan_ctx rows_ctx f ([], err) acc =
     (case err of Some e \<Rightarrow> Inl (wrap rows_ctx e) | None \<Rightarrow> Inr acc)"
| "scan_rows scan_ctx rows_ctx f (row # rest, err) acc =
     (case f (Inr row) of
        Inl e \<Rightarrow> Inl (wrap scan_ctx e)
      | Inr x \<Rightarrow> scan_rows scan_ctx rows_ctx f (rest, err) (acc @ [x]))"

definition scanNotificationRows :: "pgx \<Rightarrow> sql_rows \<Rightarrow> notification_log list result" where
  "scanNotificationRows P rs =
     scan_rows ''scanNotificationRows'' ''scanNotificationRows: rows'' (Scan P (notification_dests P)) rs []"

section \<open>Writing a row\<close>


















lemma scan_rows_fails: "isl (scan_rows ctx ctx' f (rs, None) acc) \<longleftrightarrow> (\<exists>row\<in>set rs. isl (f (Inr row)))"
  by (induction rs arbitrary: acc) (auto split: sum.split)


text \<open>A driver that does what is documented, and nothing else.\<close>

definition sample_pgx :: pgx where
  "sample_pgx = \<lparr>
     scan_string = (\<lambda>v. case v of SUuid u \<Rightarrow> Some u | SText s \<Rightarrow> Some s | _ \<Rightarrow> None),
     scan_int = (\<lambda>v. case v of SInt i \<Rightarrow> Some i | _ \<Rightarrow> None),
     scan_float = (\<lambda>v. case v of SNumeric x \<Rightarrow> Some x | _ \<Rightarrow> None),
     scan_bool = (\<lambda>v. case v of SBool b \<Rightarrow> Some b | _ \<Rightarrow> None),
     scan_time = (\<lambda>v. case v of STime t \<Rightarrow> Some t | _ \<Rightarrow> None),
     scan_bytes = (\<lambda>v. case v of SNull \<Rightarrow> Some None | SJsonb j \<Rightarrow> Some (Some j) | _ \<Rightarrow> None),
     scan_msg = (\<lambda>vs. ''cannot scan'')\<rparr>"

lemma sample_pgx_documented: "pgx_documented sample_pgx"
  by (simp add: pgx_documented_def sample_pgx_def)


section \<open>What does not scan\<close>

lemma scan_fails: "isl (Scan P f (Inr vs)) \<longleftrightarrow> f vs = None"
  by (simp add: Scan_def split: option.split)

lemma of_type_iff:
  "of_type UUID v \<longleftrightarrow> (\<exists>u. v = SUuid u)" "of_type VARCHAR v \<longleftrightarrow> (\<exists>s. v = SText s)"
  "of_type INTEGER v \<longleftrightarrow> (\<exists>i. v = SInt i)" "of_type DECIMAL v \<longleftrightarrow> (\<exists>x. v = SNumeric x)"
  "of_type BOOLEAN v \<longleftrightarrow> (\<exists>b. v = SBool b)" "of_type TIMESTAMPTZ v \<longleftrightarrow> (\<exists>t. v = STime t)"
  "of_type JSONB v \<longleftrightarrow> (\<exists>j. v = SJsonb j)"
  by (cases v; simp)+

lemma scan_ptr_column:
  assumes "pgx_documented P"
  shows "column_ok (VARCHAR, False) v \<Longrightarrow> \<exists>x. scan_ptr (scan_string P) v = Some x \<and> (scan_string P v = None \<longleftrightarrow> v = SNull)"
    "column_ok (UUID, False) v \<Longrightarrow> \<exists>x. scan_ptr (scan_string P) v = Some x"
    "column_ok (INTEGER, False) v \<Longrightarrow> \<exists>x. scan_ptr (scan_int P) v = Some x"
    "column_ok (DECIMAL, False) v \<Longrightarrow> \<exists>x. scan_ptr (scan_float P) v = Some x"
    "column_ok (TIMESTAMPTZ, False) v \<Longrightarrow> \<exists>x. scan_ptr (scan_time P) v = Some x"
    "column_ok (JSONB, False) v \<Longrightarrow> \<exists>x. scan_bytes P v = Some x"
  using assms by (auto simp: column_ok_def of_type_iff scan_ptr_def pgx_documented_def)

lemma scan_column:
  assumes "pgx_documented P"
  shows "column_ok (UUID, True) v \<Longrightarrow> \<exists>x. scan_string P v = Some x"
    "column_ok (VARCHAR, True) v \<Longrightarrow> \<exists>x. scan_string P v = Some x"
    "column_ok (INTEGER, True) v \<Longrightarrow> \<exists>x. scan_int P v = Some x"
    "column_ok (BOOLEAN, True) v \<Longrightarrow> \<exists>x. scan_bool P v = Some x"
    "column_ok (TIMESTAMPTZ, True) v \<Longrightarrow> \<exists>x. scan_time P v = Some x"
    "column_ok (JSONB, True) v \<Longrightarrow> \<exists>x. scan_bytes P v = Some x"
  using assms by (auto simp: column_ok_def of_type_iff pgx_documented_def)

lemma dests_fail:
  assumes "pgx_documented P"
  shows "list_all2 column_ok discrepancy_table row \<Longrightarrow> discrepancy_dests P row = None \<longleftrightarrow> row ! 11 = SNull"
    "list_all2 column_ok report_table row \<Longrightarrow> report_dests P row = None \<longleftrightarrow> row ! 3 = SNull"
    "list_all2 column_ok rule_table row \<Longrightarrow> rule_dests P row \<noteq> None"
    "list_all2 column_ok notification_table row \<Longrightarrow> notification_dests P row \<noteq> None"
  unfolding discrepancy_table_def report_table_def rule_table_def notification_table_def
  by (clarsimp simp: list_all2_Cons1 discrepancy_dests_def report_dests_def rule_dests_def notification_dests_def
        Option.bind_eq_None_conv dest!: scan_column [OF assms] scan_ptr_column [OF assms])+

text \<open>
  The migrations allow \<open>NULL\<close> in two columns the structs have no pointer for, the currency of a discrepancy and the title of a
  report. Of rows with the columns of the migrations a listing fails exactly when one of them has such a \<open>NULL\<close>, and then it
  returns none of the others either; rules and notifications always scan.
\<close>

lemma null_column_hides_rows:
  assumes "pgx_documented P"
    and "\<forall>row\<in>set ds. list_all2 column_ok discrepancy_table row" and "\<forall>row\<in>set ps. list_all2 column_ok report_table row"
    and "\<forall>row\<in>set ns. list_all2 column_ok notification_table row" and "list_all2 column_ok rule_table row"
  shows "(isl (scan_rows ctx ctx' (scanDiscrepancyRow P) (ds, None) []) \<longleftrightarrow> (\<exists>row\<in>set ds. row ! 11 = SNull)) \<and>
    (isl (scan_rows ctx ctx' (scanReportRow P) (ps, None) []) \<longleftrightarrow> (\<exists>row\<in>set ps. row ! 3 = SNull)) \<and>
    \<not> isl (scanNotificationRows P (ns, None)) \<and> \<not> isl (scanRule P (Inr row))"
  using assms dests_fail [OF assms(1)]
  by (simp add: scan_rows_fails scan_fails scanDiscrepancyRow_def scanDiscrepancyFrom_def scanReportRow_def
      scanNotificationRows_def scanRule_def)

text \<open>A report without a title beside one with a title, and a rule.\<close>

definition untitled :: "sql_value list" where
  "untitled = [SUuid ''8'', SUuid ''5'', SText ''custom'', SNull, SJsonb (JObj []), SText ''pending'', SNull, SNull, SNull, STime 0, STime 0]"

definition titled :: "sql_value list" where
  "titled = untitled[3 := SText ''Audit'']"

definition some_rule :: "sql_value list" where
  "some_rule = [SUuid ''3'', SUuid ''5'', SText ''late'', SText ''*'', SInt 24, SText ''open'', SText ''notify'', SJsonb JNull,
     SBool True, SInt 0, STime 0, STime 0]"

lemma null_column_hides_rows_witness:
  "isl (scan_rows ''List: scan'' ''List: rows'' (scanReportRow sample_pgx) ([titled, untitled], None) []) \<and>
   \<not> isl (scan_rows ''List: scan'' ''List: rows'' (scanReportRow sample_pgx) ([titled], None) [])"
proof -
  have rows: "list_all2 column_ok report_table titled" "list_all2 column_ok report_table untitled"
      "list_all2 column_ok rule_table some_rule"
    by (simp_all add: titled_def untitled_def some_rule_def report_table_def rule_table_def column_ok_def)
  have "titled ! 3 \<noteq> SNull" "untitled ! 3 = SNull" by (simp_all add: titled_def untitled_def)
  then show ?thesis
    using null_column_hides_rows [of sample_pgx "[]" "[titled, untitled]" "[]" some_rule "''List: scan''" "''List: rows''"]
      null_column_hides_rows [of sample_pgx "[]" "[titled]" "[]" some_rule "''List: scan''" "''List: rows''"]
      sample_pgx_documented rows
    by simp
qed

end
