(* ===== verification/Metrics.thy ===== *)
theory Metrics
  imports Stats
begin

text \<open>
  \<open>handlers/metrics.go\<close>: the five vectors and their registration when the package is loaded. The registry is the
  Prometheus client's, a parameter with what its documentation says.
\<close>

section \<open>The vectors\<close>

datatype vector_kind = CounterVec | GaugeVec

record collector =
  c_kind :: vector_kind
  c_name :: string
  c_help :: string
  c_labels :: "string list"

definition LedgerEventsTotal :: collector where
  "LedgerEventsTotal =
     \<lparr>c_kind = CounterVec, c_name = ''ledger_events_total'',
      c_help = ''Total number of ledger events recorded, by event type.'', c_labels = [''event_type'']\<rparr>"

definition DiscrepanciesGauge :: collector where
  "DiscrepanciesGauge =
     \<lparr>c_kind = GaugeVec, c_name = ''discrepancies_total'',
      c_help = ''Current count of discrepancies, by status and severity.'', c_labels = [''status'', ''severity'']\<rparr>"

definition NotificationsSentTotal :: collector where
  "NotificationsSentTotal =
     \<lparr>c_kind = CounterVec, c_name = ''notifications_sent_total'',
      c_help = ''Total notifications sent, by channel and status.'', c_labels = [''channel'', ''status'']\<rparr>"

definition EscalationActionsTotal :: collector where
  "EscalationActionsTotal =
     \<lparr>c_kind = CounterVec, c_name = ''escalation_actions_total'',
      c_help = ''Total escalation actions executed, by action type.'', c_labels = [''action'']\<rparr>"

definition ReportsGeneratedTotal :: collector where
  "ReportsGeneratedTotal =
     \<lparr>c_kind = CounterVec, c_name = ''reports_generated_total'',
      c_help = ''Total reports generated, by report type.'', c_labels = [''report_type'']\<rparr>"

section \<open>Registration\<close>

text \<open>\<open>Register\<close> of the registry, \<open>None\<close> when it reports an error, and the names that are taken.\<close>

record 'r prometheus =
  register_collector :: "'r \<Rightarrow> collector \<Rightarrow> 'r option"
  taken :: "'r \<Rightarrow> string set"

text \<open>\<open>MustRegister\<close> registers one after the other and panics (\<open>None\<close>) at the first error.\<close>

primrec MustRegister :: "'r prometheus \<Rightarrow> collector list \<Rightarrow> 'r \<Rightarrow> 'r option" where
  "MustRegister p [] r = Some r"
| "MustRegister p (c # cs) r = (case register_collector p r c of None \<Rightarrow> None | Some r' \<Rightarrow> MustRegister p cs r')"

definition init_metrics :: "'r prometheus \<Rightarrow> 'r \<Rightarrow> 'r option" where
  "init_metrics p r = MustRegister p
     [LedgerEventsTotal, DiscrepanciesGauge, NotificationsSentTotal, EscalationActionsTotal, ReportsGeneratedTotal] r"

text \<open>A name or a label of the data model: letters, digits and underscores, no digit first, and a label has no two underscores first.\<close>

definition name_char :: "char \<Rightarrow> bool" where
  "name_char c \<longleftrightarrow> (let n = (of_char c :: int) in 97 \<le> n \<and> n \<le> 122 \<or> 65 \<le> n \<and> n \<le> 90 \<or> n = 95)"

definition metric_name :: "string \<Rightarrow> bool" where
  "metric_name s \<longleftrightarrow> s \<noteq> [] \<and> name_char (hd s) \<and> list_all (\<lambda>c. name_char c \<or> (let n = (of_char c :: int) in 48 \<le> n \<and> n \<le> 57)) s"

definition descriptor_ok :: "collector \<Rightarrow> bool" where
  "descriptor_ok c \<longleftrightarrow> metric_name (c_name c) \<and> distinct (c_labels c) \<and>
     list_all (\<lambda>l. metric_name l \<and> take 2 l \<noteq> ''__'') (c_labels c)"

text \<open>Documented: a well-formed collector whose name is free is registered, and takes its name.\<close>

definition register_documented :: "'r prometheus \<Rightarrow> bool" where
  "register_documented p \<longleftrightarrow> (\<forall>r c. descriptor_ok c \<and> c_name c \<notin> taken p r \<longrightarrow>
     (\<exists>r'. register_collector p r c = Some r' \<and> taken p r' = insert (c_name c) (taken p r)))"

lemma MustRegister_ok:
  assumes "register_documented p" and "list_all descriptor_ok cs" and "distinct (map c_name cs)"
    and "set (map c_name cs) \<inter> taken p r = {}"
  shows "\<exists>r'. MustRegister p cs r = Some r' \<and> taken p r' = set (map c_name cs) \<union> taken p r"
  using assms(2-)
proof (induction cs arbitrary: r)
  case (Cons c cs)
  have "descriptor_ok c" "c_name c \<notin> taken p r" using Cons.prems by auto
  then obtain r1 where r1: "register_collector p r c = Some r1" "taken p r1 = insert (c_name c) (taken p r)"
    using assms(1) unfolding register_documented_def by blast
  have "list_all descriptor_ok cs" "distinct (map c_name cs)" "set (map c_name cs) \<inter> taken p r1 = {}"
    using Cons.prems r1 by auto
  then obtain r' where "MustRegister p cs r1 = Some r' \<and> taken p r' = set (map c_name cs) \<union> taken p r1"
    using Cons.IH by blast
  with r1 show ?case by auto
qed simp

text \<open>
  Loading the package panics in no process whose registry does not hold one of the five names yet (the default registry
  holds \<open>go_\<close> and \<open>process_\<close> names), and a snapshot gives the gauge as many values as it has labels, which
  \<open>WithLabelValues\<close> insists on.
\<close>

lemma metrics_registered:
  assumes "register_documented p"
    and "taken p r \<inter> {''ledger_events_total'', ''discrepancies_total'', ''notifications_sent_total'',
           ''escalation_actions_total'', ''reports_generated_total''} = {}"
  shows "\<exists>r'. init_metrics p r = Some r' \<and> {''ledger_events_total'', ''discrepancies_total'', ''notifications_sent_total'',
           ''escalation_actions_total'', ''reports_generated_total''} \<subseteq> taken p r'"
    and "length (c_labels DiscrepanciesGauge) = length [status, severity]"
proof -
  let ?cs = "[LedgerEventsTotal, DiscrepanciesGauge, NotificationsSentTotal, EscalationActionsTotal, ReportsGeneratedTotal]"
  have names: "map c_name ?cs = [''ledger_events_total'', ''discrepancies_total'', ''notifications_sent_total'',
      ''escalation_actions_total'', ''reports_generated_total'']"
    by (simp add: LedgerEventsTotal_def DiscrepanciesGauge_def NotificationsSentTotal_def EscalationActionsTotal_def
        ReportsGeneratedTotal_def)
  have "descriptor_ok LedgerEventsTotal" "descriptor_ok DiscrepanciesGauge" "descriptor_ok NotificationsSentTotal"
      "descriptor_ok EscalationActionsTotal" "descriptor_ok ReportsGeneratedTotal"
    by (simp_all add: descriptor_ok_def metric_name_def name_char_def of_char_def LedgerEventsTotal_def DiscrepanciesGauge_def
        NotificationsSentTotal_def EscalationActionsTotal_def ReportsGeneratedTotal_def)
  then have "list_all descriptor_ok ?cs" by simp
  then have "\<exists>r'. MustRegister p ?cs r = Some r' \<and> taken p r' = set (map c_name ?cs) \<union> taken p r"
  proof (rule MustRegister_ok [OF assms(1)])
    show "distinct (map c_name ?cs)" unfolding names by simp
    show "set (map c_name ?cs) \<inter> taken p r = {}" unfolding names list.set using assms(2) by (simp only: Int_commute)
  qed
  then show "\<exists>r'. init_metrics p r = Some r' \<and> {''ledger_events_total'', ''discrepancies_total'', ''notifications_sent_total'',
      ''escalation_actions_total'', ''reports_generated_total''} \<subseteq> taken p r'"
    unfolding init_metrics_def names list.set by (elim exE conjE) (intro exI conjI, assumption, simp only: Un_upper1)
qed (simp add: DiscrepanciesGauge_def)

end
