(* ===== verification/Spec2Isabelle.thy ===== *)
theory Spec2Isabelle
  imports Overlap Paging Generator Rows Metrics
begin

text \<open>
  A verification development of the Financial Compliance Ledger, the Go service in \<open>src/\<close>.

  \<^bold>\<open>The program.\<close> Reconciliation engines report discrepancies over NATS. The service stores them in PostgreSQL, lets users work
  on them over HTTP, escalates or closes them by rules, notifies a hub, and writes reports. A discrepancy goes through a
  status machine, and each change of its status is meant to have an event in an append-only log, so that the status is what the log
  replays to. Everything belongs to a tenant, who is known by an API key. The parts share the tables and nothing else: the
  HTTP handlers, the NATS consumer and five background loops (escalation, notification retries, RAG sync, metrics, report
  cleanup) run beside each other, and the report handler starts a goroutine for each report.

  \<^bold>\<open>Theories and files.\<close>
  \<^item> \<open>Prelude\<close>, \<open>Json\<close>, \<open>GoText\<close>, \<open>GoDate\<close>, \<open>Files\<close>: the state monad and the relations that are carried through programs; decoding of
    JSON into structs; the string, calendar and file functions of Go's library that the source uses.
  \<^item> \<open>Domain\<close>: \<open>internal/domain\<close>. \<open>Lifecycle\<close>: the status machine and \<open>replay\<close>, the specification of a status.
  \<^item> \<open>World\<close>: the tables of \<open>migrations/\<close> with their constraints, and how a statement and a transaction run. \<open>Stores\<close>, \<open>RuleStore\<close>,
    \<open>ReportStore\<close>, and the listing of \<open>Paging\<close>: \<open>internal/store\<close>, one definition for each method, by the meaning of its SQL text. \<open>Rows\<close>: the
    scan functions of \<open>store_helpers.go\<close> and the stores, over the columns of the migrations.
  \<^item> \<open>Http\<close>, \<open>Workflow\<close>, \<open>Paging\<close>, \<open>RulesApi\<close>, \<open>ReportsApi\<close>, \<open>Stats\<close>, \<open>Metrics\<close>: \<open>internal/api/handlers\<close> and \<open>internal/ctxutil\<close>. \<open>TenantAuth\<close>,
    \<open>RateLimit\<close>: \<open>internal/api/middleware\<close>. \<open>Router\<close>: \<open>internal/api/router.go\<close> and \<open>middleware/logging.go\<close>.
  \<^item> \<open>Ingestion\<close>, \<open>Escalation\<close>, \<open>Retrier\<close>, \<open>Rag\<close>, the collector in \<open>Stats\<close> and the cleaner in \<open>ReportsApi\<close>: \<open>internal/engine\<close>.
    \<open>HubClient\<close>: \<open>internal/notify\<close>. \<open>Reports\<close>: \<open>internal/report\<close>. \<open>Config\<close>: \<open>internal/config\<close>.
  \<^item> \<open>Process\<close>: \<open>cmd/server/main.go\<close> and \<open>store/postgres.go\<close>: start-up, wiring, the loops, shutdown. \<open>Generator\<close>: \<open>scripts/\<close>.
  \<^item> \<open>Samples\<close>: concrete outsides and tables for the witnesses.

  \<^bold>\<open>State and effects.\<close> A Go function is a function in the state monad of the library over a record: \<open>world\<close> (the tables, the clock
  of external calls, what was sent), \<open>server\<close> (with the caches, the limiter, the files and the started jobs), and at the end \<open>service\<close>.
  Errors are \<open>Inl\<close> of \<open>goerr\<close>; a panic is \<open>Panic\<close> or \<open>None\<close>. Every statement may fail at any call: \<open>env\<close> says when, with the answers of the
  clocks and the generated identifiers, and the theorems hold for every \<open>env\<close>. Integers are \<open>int\<close> where Go's cannot overflow, and words where
  they can (\<open>trigger_age\<close>, \<open>escalation_interval\<close>, delivery counts).

  \<^bold>\<open>Interfaces.\<close> \<open>step_preorder\<close>, \<open>table_relation\<close> and \<open>disk_relation\<close> carry a relation through a program. \<open>notification_sender\<close> is what the
  engine and the retrier rely on in the hub client. \<open>keyed_pages\<close> is what walking a list by cursor needs. \<open>table_statements\<close>
  has one law for each statement that writes, gives \<open>report_writing\<close>, what the report generator needs of it, and \<open>service_relation\<close>, what every operation respects; \<open>ledger_relation\<close> gives it
  from the steps of the abstract ledger. Each is interpreted on the definitions of the model.

  \<^bold>\<open>What is proved.\<close>
  \<^item> The whole service (\<open>Statements\<close>, \<open>Faults\<close>, \<open>Service\<close>, \<open>Typing\<close>): over every sequence of requests, messages, passes and jobs, and
    under every failure, the tables stay well-typed, the log is append-only and numbered, and each row only moves along the
    machine. As long as the engine's own statements succeed, each status is the replay of its events.
  \<^item> Refinement (\<open>LedgerSpec\<close>): the handlers, the consumer and the engine make only steps of an abstract ledger.
  \<^item> Overlap (\<open>Overlap\<close>): the service is a sequence of single statements, and what each of them keeps holds however operations
    overlap: types, the append-only log, the identity of rows. Overlapping transitions of different discrepancies are still steps of the
    abstract ledger; \<open>Races\<close> shows what is lost on the same one.
  \<^item> Rows (\<open>Rows\<close>): what the statements write the scan functions read back, and the two nullable columns that make a listing fail.
  \<^item> Components: atomic transitions and the optimistic lock; redelivery, acknowledgement and loss of messages; what a rule
    matches and that it notifies once; authentication, the cache and isolation of the tenants up to the router; the dynamic \<open>WHERE\<close> and \<open>SET\<close> clauses;
    pages that list everything once; reports with their files, their end and their clean-up; the bound of the rate limiter; retries
    that end; start-up and shutdown; the event generator.
  \<^item> Where the code does not do what it means to, the behaviour is stated as a theorem on concrete values: \<open>Races\<close> for operations that overlap,
    and the lost or doubled effects of \<open>Escalation\<close>, \<open>Ingestion\<close>, \<open>Retrier\<close> and \<open>Rag\<close>.

  \<^bold>\<open>Bounds.\<close> No definition has fuel: loops are structural recursions over the list the source ranges over, or over the number of
  attempts (\<open>send_loop\<close>). The endless loops of the goroutines take the list of what their \<open>select\<close> receives. The bounds in the theorems are
  those of the code: 64-bit nanoseconds (2562047 hours, 153722867 minutes), \<open>2 ^ 53\<close> for integers in a \<open>float64\<close>.

  \<^bold>\<open>Abstractions.\<close> An operation is atomic except in \<open>Races\<close> and \<open>Overlap\<close>, where statements are, and a transaction takes effect at its end.
  Times keep nanoseconds (the columns round to microseconds). The tables hold Go structs, which \<open>Rows\<close> justifies, and
  iterating over rows fails as a whole. Amounts and averages are exact rationals; only the generator rounds. JSON text and
  URLs arrive parsed.

  \<^bold>\<open>Not modelled.\<close> The insides of pgx, NATS, chi, \<open>html/template\<close>, wkhtmltopdf, promhttp and zerolog: what they answer are parameters, with their
  documented behaviour as named hypotheses (\<open>uuid_codec\<close>, \<open>chi_ok\<close>, \<open>temp_names\<close>, \<open>uuid_names\<close>, \<open>draws_ok\<close>, \<open>floats_ok\<close>, \<open>pgx_documented\<close>, \<open>register_documented\<close>). The middleware that chi
  runs on unmatched paths below \<open>/api\<close>, conditional and range requests of \<open>ServeFile\<close>, the timeouts of the HTTP server,
  the signals, the \<open>MkdirAll\<close> at start-up, the down migrations, the log lines other than the access log, and the values of the counters of \<open>handlers/metrics.go\<close>, which nothing
  increments. The tests under \<open>tests/\<close> are not part of the service.
\<close>

end
